theory Spec2Isabelle
  imports Main "HOL-Library.Word" "HOL-Library.Monad_Syntax" "HOL-Library.Sublist"
begin

unbundle bit_operations_syntax

chapter \<open>wimlib: compressor wrapper, endianness helpers, WIM predicates, UNIX apply\<close>

section \<open>Build configuration\<close>

text \<open>
  The sources are configured by preprocessor symbols. Each symbol that selects code in the
  functions below is a field of the build configuration.
\<close>

type_synonym u8 = "8 word"
type_synonym u16 = "16 word"
type_synonym u32 = "32 word"
type_synonym u64 = "64 word"

record build_config =
  gnuc_has_bswap_builtins :: bool      \<comment> \<open>\<open>__GNUC__ > 4 || (__GNUC__ == 4 && __GNUC_MINOR__ >= 3)\<close>\<close>
  WORDS_BIGENDIAN :: bool
  ENABLE_VERIFY_COMPRESSION :: bool
  ENABLE_ASSERTIONS :: bool            \<comment> \<open>whether \<open>wimlib_assert\<close> expands to \<open>assert\<close>\<close>
  HAVE_FUTIMENS :: bool
  HAVE_UTIMENSAT :: bool
  sizeof_wimlib_compressor :: u64      \<comment> \<open>\<open>sizeof(struct wimlib_compressor)\<close> of the target ABI\<close>
  REPARSE_DATA_MAX_SIZE :: nat         \<comment> \<open>constant of \<open>wimlib/reparse.h\<close>\<close>

section \<open>endianness.h\<close>

text \<open>The bytes of a word, least significant first, and the word made of such bytes.\<close>

definition bytes_le :: "nat \<Rightarrow> 'a::len word \<Rightarrow> u8 list" where
  "bytes_le k w = map (\<lambda>i. ucast (drop_bit (8 * i) w)) [0..<k]"

definition word_of_bytes_le :: "u8 list \<Rightarrow> 'a::len word" where
  "word_of_bytes_le bs = foldr (\<lambda>b w. ucast b OR push_bit 8 w) bs 0"

text \<open>
  \<open>bswap16\<close>: the operand of type \<open>u16\<close> is promoted to a 32-bit \<open>int\<close> before the shifts
  (the value is below \<open>2^16\<close>, so nothing overflows), and the result is converted back to
  \<open>u16\<close> on return.
\<close>

definition bswap16 :: "u16 \<Rightarrow> u16" where
  "bswap16 n = ucast (push_bit 8 (ucast n :: 32 word) OR drop_bit 8 (ucast n :: 32 word))"

text \<open>
  The GCC built-ins \<open>__builtin_bswap32\<close> and \<open>__builtin_bswap64\<close> return their argument with
  the order of its 8-bit bytes reversed (GCC manual); they are compiler intrinsics and have
  no source in the repository.
\<close>

definition builtin_bswap32 :: "u32 \<Rightarrow> u32" where
  "builtin_bswap32 n = word_of_bytes_le (rev (bytes_le 4 n))"

definition builtin_bswap64 :: "u64 \<Rightarrow> u64" where
  "builtin_bswap64 n = word_of_bytes_le (rev (bytes_le 8 n))"

text \<open>The shift-and-mask formulas of the \<open>#else\<close> branches.\<close>

definition bswap32_fallback :: "u32 \<Rightarrow> u32" where
  "bswap32_fallback n =
     push_bit 24 n OR push_bit 8 (n AND 0xff00) OR drop_bit 8 (n AND 0xff0000) OR
     drop_bit 24 n"

definition bswap64_fallback :: "u64 \<Rightarrow> u64" where
  "bswap64_fallback n =
     push_bit 56 n OR push_bit 40 (n AND 0xff00) OR push_bit 24 (n AND 0xff0000) OR
     push_bit 8 (n AND 0xff000000) OR drop_bit 8 (n AND 0xff00000000) OR
     drop_bit 24 (n AND 0xff0000000000) OR
     drop_bit 40 (n AND 0xff000000000000) OR drop_bit 56 n"

definition bswap32 :: "build_config \<Rightarrow> u32 \<Rightarrow> u32" where
  "bswap32 cfg n =
     (if gnuc_has_bswap_builtins cfg then builtin_bswap32 n else bswap32_fallback n)"

definition bswap64 :: "build_config \<Rightarrow> u64 \<Rightarrow> u64" where
  "bswap64 cfg n =
     (if gnuc_has_bswap_builtins cfg then builtin_bswap64 n else bswap64_fallback n)"

text \<open>The conversion macros: a byte swap on a big-endian host, the identity otherwise.\<close>

definition le16_to_cpu :: "build_config \<Rightarrow> u16 \<Rightarrow> u16" where
  "le16_to_cpu cfg n = (if WORDS_BIGENDIAN cfg then bswap16 n else n)"

definition le32_to_cpu :: "build_config \<Rightarrow> u32 \<Rightarrow> u32" where
  "le32_to_cpu cfg n = (if WORDS_BIGENDIAN cfg then bswap32 cfg n else n)"

definition le64_to_cpu :: "build_config \<Rightarrow> u64 \<Rightarrow> u64" where
  "le64_to_cpu cfg n = (if WORDS_BIGENDIAN cfg then bswap64 cfg n else n)"

definition cpu_to_le16 :: "build_config \<Rightarrow> u16 \<Rightarrow> u16" where
  "cpu_to_le16 cfg n = (if WORDS_BIGENDIAN cfg then bswap16 n else n)"

definition cpu_to_le32 :: "build_config \<Rightarrow> u32 \<Rightarrow> u32" where
  "cpu_to_le32 cfg n = (if WORDS_BIGENDIAN cfg then bswap32 cfg n else n)"

definition cpu_to_le64 :: "build_config \<Rightarrow> u64 \<Rightarrow> u64" where
  "cpu_to_le64 cfg n = (if WORDS_BIGENDIAN cfg then bswap64 cfg n else n)"

definition cpu_to_be16 :: "build_config \<Rightarrow> u16 \<Rightarrow> u16" where
  "cpu_to_be16 cfg n = (if WORDS_BIGENDIAN cfg then n else bswap16 n)"

definition cpu_to_be32 :: "build_config \<Rightarrow> u32 \<Rightarrow> u32" where
  "cpu_to_be32 cfg n = (if WORDS_BIGENDIAN cfg then n else bswap32 cfg n)"

definition cpu_to_be64 :: "build_config \<Rightarrow> u64 \<Rightarrow> u64" where
  "cpu_to_be64 cfg n = (if WORDS_BIGENDIAN cfg then n else bswap64 cfg n)"

definition be16_to_cpu :: "build_config \<Rightarrow> u16 \<Rightarrow> u16" where
  "be16_to_cpu cfg n = (if WORDS_BIGENDIAN cfg then n else bswap16 n)"

definition be32_to_cpu :: "build_config \<Rightarrow> u32 \<Rightarrow> u32" where
  "be32_to_cpu cfg n = (if WORDS_BIGENDIAN cfg then n else bswap32 cfg n)"

definition be64_to_cpu :: "build_config \<Rightarrow> u64 \<Rightarrow> u64" where
  "be64_to_cpu cfg n = (if WORDS_BIGENDIAN cfg then n else bswap64 cfg n)"

section \<open>Error codes and messages\<close>

text \<open>
  Modelled from the spec: \<open>enum wimlib_error_code\<close> of \<open>wimlib.h\<close>, which is not among the
  sources. The constructors are the codes the spec lists (section 6) and the ones the
  sources name; \<open>WIMLIB_ERR_SUCCESS\<close> is the value 0 of the C enum.
\<close>

datatype wimlib_error_code =
    WIMLIB_ERR_SUCCESS
  | WIMLIB_ERR_DECOMPRESSION
  | WIMLIB_ERR_INTEGRITY_NOT_OK
  | WIMLIB_ERR_INVALID_COMPRESSION_TYPE
  | WIMLIB_ERR_INVALID_PARAM
  | WIMLIB_ERR_INVALID_REPARSE_DATA
  | WIMLIB_ERR_LINK
  | WIMLIB_ERR_MKDIR
  | WIMLIB_ERR_MKNOD
  | WIMLIB_ERR_NOMEM
  | WIMLIB_ERR_NOT_A_WIM_FILE
  | WIMLIB_ERR_OPEN
  | WIMLIB_ERR_READ
  | WIMLIB_ERR_READLINK
  | WIMLIB_ERR_REPARSE_POINT_FIXUP_FAILED
  | WIMLIB_ERR_SET_SECURITY
  | WIMLIB_ERR_SET_TIMESTAMPS
  | WIMLIB_ERR_UNKNOWN_VERSION
  | WIMLIB_ERR_WRITE

text \<open>The messages printed through the \<open>ERROR\<close> and \<open>WARNING\<close> macros, by format string.\<close>

datatype message = ERROR string | WARNING string

fun is_warning :: "message \<Rightarrow> bool" where
  "is_warning (WARNING _) = True"
| "is_warning (ERROR _) = False"

section \<open>compress.c\<close>

subsection \<open>Memory\<close>

text \<open>
  \<open>MALLOC\<close> and \<open>FREE\<close>: the live allocations, the number of requests made so far, and an
  oracle saying which requests fail. Addresses are positive; 0 is \<open>NULL\<close>.
\<close>

record memory =
  live :: "nat list"
  requests :: nat
  out_of_memory :: "nat \<Rightarrow> bool"

definition MALLOC :: "memory \<Rightarrow> nat option \<times> memory" where
  "MALLOC m =
     (if out_of_memory m (requests m) then (None, m\<lparr>requests := Suc (requests m)\<rparr>)
      else (Some (Suc (requests m)),
            m\<lparr>live := Suc (requests m) # live m, requests := Suc (requests m)\<rparr>))"

definition FREE :: "nat \<Rightarrow> memory \<Rightarrow> memory" where
  "FREE a m = m\<lparr>live := removeAll a (live m)\<rparr>"

subsection \<open>Codec operations\<close>

text \<open>
  \<open>struct compressor_ops\<close> (declared in \<open>wimlib/compressor_ops.h\<close>): the function pointers
  of one codec; an absent operation is \<open>NULL\<close>. \<open>'p\<close> is the codec's private data.
  \<open>create_compressor\<close> returns its status and what it stored through \<open>private_ret\<close>;
  \<open>compress\<close> returns the compressed size and the bytes it wrote to the output buffer.
\<close>

record 'p compressor_ops =
  get_needed_memory :: "(nat \<Rightarrow> u32 \<Rightarrow> u64) option"
  create_compressor :: "(nat \<Rightarrow> u32 \<Rightarrow> wimlib_error_code \<times> 'p option) option"
  compress :: "u8 list \<Rightarrow> nat \<Rightarrow> 'p option \<Rightarrow> nat \<times> u8 list"
  free_compressor :: "('p option \<Rightarrow> unit) option"

record 'p wimlib_compressor =
  ops :: "'p compressor_ops"
  c_private :: "'p option"   \<comment> \<open>the field \<open>private\<close>\<close>
  ctype :: int
  max_block_size :: nat

text \<open>
  The three codecs are defined in other files; their operation tables are parameters.
  Index 0 of the table has no initialiser and is \<open>NULL\<close>.

  Modelled from the spec: the values of \<open>enum wimlib_compression_type\<close> (\<open>wimlib.h\<close> is not
  among the sources), which index the table: XPRESS = 1, LZX = 2, LZMS = 3.
\<close>

record 'p codecs =
  xpress_compressor_ops :: "'p compressor_ops"
  lzx_compressor_ops :: "'p compressor_ops"
  lzms_compressor_ops :: "'p compressor_ops"

definition WIMLIB_COMPRESSION_TYPE_XPRESS :: int where "WIMLIB_COMPRESSION_TYPE_XPRESS = 1"
definition WIMLIB_COMPRESSION_TYPE_LZX :: int where "WIMLIB_COMPRESSION_TYPE_LZX = 2"
definition WIMLIB_COMPRESSION_TYPE_LZMS :: int where "WIMLIB_COMPRESSION_TYPE_LZMS = 3"

definition compressor_ops :: "'p codecs \<Rightarrow> 'p compressor_ops option list" where
  "compressor_ops cs =
     [None, Some (xpress_compressor_ops cs), Some (lzx_compressor_ops cs),
      Some (lzms_compressor_ops cs)]"

definition ARRAY_LEN_compressor_ops :: nat where
  "ARRAY_LEN_compressor_ops = 4"

definition DEFAULT_COMPRESSION_LEVEL :: u32 where
  "DEFAULT_COMPRESSION_LEVEL = 50"

text \<open>
  The state of the file: the static array \<open>default_compression_levels\<close> (zero-initialised),
  the allocator and the messages printed.
\<close>

record compress_state =
  default_compression_levels :: "u32 list"
  mem :: memory
  messages :: "message list"

definition initial_default_compression_levels :: "u32 list" where
  "initial_default_compression_levels = replicate ARRAY_LEN_compressor_ops 0"

definition compressor_ctype_valid :: "'p codecs \<Rightarrow> int \<Rightarrow> bool" where
  "compressor_ctype_valid cs ct \<longleftrightarrow>
     ct \<ge> 0 \<and> nat ct < ARRAY_LEN_compressor_ops \<and> compressor_ops cs ! nat ct \<noteq> None"

text \<open>The \<open>for\<close> loop of \<open>wimlib_set_default_compression_level\<close> for \<open>ctype == -1\<close>.\<close>

function set_all_default_levels :: "nat \<Rightarrow> u32 \<Rightarrow> u32 list \<Rightarrow> u32 list" where
  "set_all_default_levels i compression_level levels =
     (if i < ARRAY_LEN_compressor_ops
      then set_all_default_levels (Suc i) compression_level (levels[i := compression_level])
      else levels)"
  by pat_completeness auto
termination
  by (relation "measure (\<lambda>(i, l, ls). ARRAY_LEN_compressor_ops - i)") auto

declare set_all_default_levels.simps [simp del]

definition wimlib_set_default_compression_level ::
  "'p codecs \<Rightarrow> int \<Rightarrow> u32 \<Rightarrow> compress_state \<Rightarrow> wimlib_error_code \<times> compress_state" where
  "wimlib_set_default_compression_level cs ct compression_level st =
     (if ct = - 1 then
        (WIMLIB_ERR_SUCCESS,
         st\<lparr>default_compression_levels :=
              set_all_default_levels 0 compression_level (default_compression_levels st)\<rparr>)
      else if \<not> compressor_ctype_valid cs ct then (WIMLIB_ERR_INVALID_COMPRESSION_TYPE, st)
      else
        (WIMLIB_ERR_SUCCESS,
         st\<lparr>default_compression_levels :=
              (default_compression_levels st)[nat ct := compression_level]\<rparr>))"

text \<open>
  The two assignments that replace a compression level of 0, shared by
  \<open>wimlib_get_compressor_needed_memory\<close> and \<open>wimlib_create_compressor\<close>.
\<close>

definition effective_compression_level :: "compress_state \<Rightarrow> int \<Rightarrow> u32 \<Rightarrow> u32" where
  "effective_compression_level st ct compression_level =
     (let l1 = (if compression_level = 0 then default_compression_levels st ! nat ct
                else compression_level)
      in if l1 = 0 then DEFAULT_COMPRESSION_LEVEL else l1)"

definition wimlib_get_compressor_needed_memory ::
  "build_config \<Rightarrow> 'p codecs \<Rightarrow> compress_state \<Rightarrow> int \<Rightarrow> nat \<Rightarrow> u32 \<Rightarrow> u64" where
  "wimlib_get_compressor_needed_memory cfg cs st ct mbs compression_level =
     (if \<not> compressor_ctype_valid cs ct then 0
      else
        let ops = the (compressor_ops cs ! nat ct);
            compression_level = effective_compression_level st ct compression_level;
            size = sizeof_wimlib_compressor cfg
        in case get_needed_memory ops of
             Some f \<Rightarrow> size + f mbs compression_level
           | None \<Rightarrow> size)"

text \<open>
  \<open>wimlib_create_compressor\<close>. \<open>c_ret_given\<close> says that \<open>c_ret\<close> is not \<open>NULL\<close>. The result
  is the status, what was stored through \<open>c_ret\<close> (\<open>None\<close>: nothing was stored; otherwise the
  address and the contents of the new compressor) and the new state.
\<close>

definition wimlib_create_compressor ::
  "'p codecs \<Rightarrow> int \<Rightarrow> nat \<Rightarrow> u32 \<Rightarrow> bool \<Rightarrow> compress_state \<Rightarrow>
     wimlib_error_code \<times> (nat \<times> 'p wimlib_compressor) option \<times> compress_state" where
  "wimlib_create_compressor cs ct mbs compression_level c_ret_given st =
     (if \<not> c_ret_given then (WIMLIB_ERR_INVALID_PARAM, None, st)
      else if mbs = 0 then (WIMLIB_ERR_INVALID_PARAM, None, st)
      else if \<not> compressor_ctype_valid cs ct then (WIMLIB_ERR_INVALID_COMPRESSION_TYPE, None, st)
      else
        case MALLOC (mem st) of
          (None, m1) \<Rightarrow> (WIMLIB_ERR_NOMEM, None, st\<lparr>mem := m1\<rparr>)
        | (Some a, m1) \<Rightarrow>
            let c = \<lparr>ops = the (compressor_ops cs ! nat ct), c_private = None, ctype = ct,
                      max_block_size = mbs\<rparr>
            in case create_compressor (ops c) of
                 Some create \<Rightarrow>
                   let compression_level = effective_compression_level st ct compression_level;
                       (ret, priv) = create mbs compression_level
                   in if ret \<noteq> WIMLIB_ERR_SUCCESS then (ret, None, st\<lparr>mem := FREE a m1\<rparr>)
                      else (WIMLIB_ERR_SUCCESS, Some (a, c\<lparr>c_private := priv\<rparr>), st\<lparr>mem := m1\<rparr>)
               | None \<Rightarrow> (WIMLIB_ERR_SUCCESS, Some (a, c), st\<lparr>mem := m1\<rparr>))"

text \<open>
  \<open>wimlib_compress\<close> either returns to its caller or ends the process through \<open>abort()\<close>
  (also reached by a failing \<open>wimlib_assert\<close> when assertions are compiled in).

  The decompressor functions of \<open>decompress.c\<close> are parameters: \<open>create_decompressor ctype
  max_block_size\<close> gives the status of \<open>wimlib_create_decompressor\<close>, and \<open>decompress cdata
  csize usize\<close> the status of \<open>wimlib_decompress\<close> with the bytes it left in the output
  buffer.
\<close>

datatype 'a outcome = Returned 'a | Aborted

record decompressor_fns =
  create_decompressor :: "int \<Rightarrow> nat \<Rightarrow> wimlib_error_code"
  decompress :: "u8 list \<Rightarrow> nat \<Rightarrow> nat \<Rightarrow> wimlib_error_code \<times> u8 list"

definition wimlib_compress ::
  "build_config \<Rightarrow> decompressor_fns \<Rightarrow> u8 list \<Rightarrow> nat \<Rightarrow> 'p wimlib_compressor \<Rightarrow>
     compress_state \<Rightarrow> (nat \<times> u8 list \<times> compress_state) outcome" where
  "wimlib_compress cfg dfn uncompressed_data compressed_size_avail c st =
     (let uncompressed_size = length uncompressed_data in
      if ENABLE_ASSERTIONS cfg \<and> \<not> uncompressed_size \<le> max_block_size c then Aborted
      else
        let (compressed_size, compressed_data) =
              compress (ops c) uncompressed_data compressed_size_avail (c_private c)
        in if ENABLE_VERIFY_COMPRESSION cfg \<and> compressed_size \<noteq> 0 then
             (case MALLOC (mem st) of
                (None, m1) \<Rightarrow>
                  Returned (0, compressed_data,
                    st\<lparr>mem := m1,
                       messages := messages st @
                         [WARNING ''Unable to verify results of compression (can't allocate buffer)'']\<rparr>)
              | (Some buf, m1) \<Rightarrow>
                  if create_decompressor dfn (ctype c) (max_block_size c) \<noteq> WIMLIB_ERR_SUCCESS
                  then
                    Returned (0, compressed_data,
                      st\<lparr>mem := FREE buf m1,
                         messages := messages st @
                           [WARNING ''Unable to verify results of compression (can't create decompressor)'']\<rparr>)
                  else
                    let (res, buf_data) =
                          decompress dfn compressed_data compressed_size uncompressed_size
                    in if res \<noteq> WIMLIB_ERR_SUCCESS then Aborted
                       else if take uncompressed_size buf_data \<noteq> uncompressed_data then Aborted
                       else Returned (compressed_size, compressed_data, st\<lparr>mem := FREE buf m1\<rparr>))
           else Returned (compressed_size, compressed_data, st))"

section \<open>wim.h and integrity.h\<close>

text \<open>
  Modelled from the spec: \<open>struct wim_reshdr\<close> and \<open>struct wim_header\<close>, whose declarations
  (\<open>wimlib/resource.h\<close>, \<open>wimlib/header.h\<close>) are not among the sources. The fields are the
  ones the spec lists in its data model.
\<close>

record wim_reshdr =
  offset_in_wim :: u64
  size_in_wim :: u64
  uncompressed_size :: u64
  flags :: u8

record wim_header =
  magic :: u64
  hdr_flags :: u32
  chunk_size :: u32
  guid :: "u8 list"
  part_number :: u16
  total_parts :: u16
  image_count :: u32
  lookup_table_reshdr :: wim_reshdr
  xml_data_reshdr :: wim_reshdr
  boot_metadata_reshdr :: wim_reshdr
  boot_idx :: u32
  integrity_table_reshdr :: wim_reshdr

text \<open>
  \<open>struct WIMStruct\<close>, with the fields the predicates of \<open>wim.h\<close> read. \<open>image_metadata\<close> is a
  pointer to an array of handles: \<open>None\<close> is \<open>NULL\<close>.
\<close>

record WIMStruct =
  filename :: "string option"
  image_metadata :: "nat list option"
  hdr :: wim_header
  current_image :: int

definition wim_has_integrity_table :: "WIMStruct \<Rightarrow> bool" where
  "wim_has_integrity_table wim \<longleftrightarrow> offset_in_wim (integrity_table_reshdr (hdr wim)) \<noteq> 0"

definition wim_has_metadata :: "WIMStruct \<Rightarrow> bool" where
  "wim_has_metadata wim \<longleftrightarrow> image_metadata wim \<noteq> None \<or> image_count (hdr wim) = 0"

definition WIM_INTEGRITY_OK :: int where "WIM_INTEGRITY_OK = 0"
definition WIM_INTEGRITY_NOT_OK :: int where "WIM_INTEGRITY_NOT_OK = - 1"
definition WIM_INTEGRITY_NONEXISTENT :: int where "WIM_INTEGRITY_NONEXISTENT = - 2"

section \<open>unix_apply.c\<close>

subsection \<open>The operating system\<close>

text \<open>
  The system calls of the file are calls to an environment: each call takes the next
  result of a finite script, is recorded with its arguments, and sets \<open>errno\<close> when it
  fails. When the script is exhausted there is no result (\<open>None\<close>); the same value stands
  for behaviour that C leaves undefined (an index beyond an array).
\<close>

datatype errno =
    EPERM | ENOENT | EIO | EBADF | EACCES | EEXIST | EINVAL | EROFS | ENAMETOOLONG | ENOSYS
  | E_other nat

datatype syscall =
    Sys_futimens int u64 u64
  | Sys_utimensat "string option" u64 u64
  | Sys_futimes int u64 u64
  | Sys_lutimes "string option" u64 u64
  | Sys_fchown int u32 u32
  | Sys_lchown "string option" u32 u32
  | Sys_fchmod int u32
  | Sys_chmod "string option" u32
  | Sys_link string string
  | Sys_unlink string
  | Sys_mknod string u32 u32
  | Sys_mkdir string
  | Sys_lstat string
  | Sys_open string
  | Sys_close int
  | Sys_symlink string string
  | Filedes_close int

text \<open>
  The result of a call: \<open>Ok v\<close> is the return value \<open>v\<close> (0 for success, a file
  descriptor for \<open>open\<close>); \<open>Ok_stat m\<close> is the return value 0 of \<open>lstat\<close> with
  \<open>st_mode = m\<close> in the buffer it filled; \<open>Fail e\<close> is the return value -1 with
  \<open>errno = e\<close>.
\<close>

datatype sysres = Ok int | Ok_stat u32 | Fail errno

record world =
  script :: "sysres list"
  calls :: "syscall list"
  w_errno :: errno
  printed :: "message list"
  progress :: "wimlib_error_code list"  \<comment> \<open>the results of the coming \<open>report_file_created\<close> calls\<close>

definition sys :: "syscall \<Rightarrow> world \<Rightarrow> (sysres \<times> world) option" where
  "sys c w =
     (case script w of
        [] \<Rightarrow> None
      | r # rs \<Rightarrow>
          Some (r, w\<lparr>script := rs, calls := calls w @ [c],
                     w_errno := (case r of Fail e \<Rightarrow> e | _ \<Rightarrow> w_errno w)\<rparr>))"

fun retval :: "sysres \<Rightarrow> int" where
  "retval (Ok v) = v"
| "retval (Ok_stat m) = 0"
| "retval (Fail e) = - 1"

text \<open>A call used as a condition, \<open>if (call(...))\<close>, is true when it returns non-zero.\<close>

definition failed :: "sysres \<Rightarrow> bool" where
  "failed r \<longleftrightarrow> retval r \<noteq> 0"

text \<open>The C expression \<open>cond && !call(...)\<close>: the call is made only when \<open>cond\<close> holds.\<close>

definition and_not_call :: "bool \<Rightarrow> syscall \<Rightarrow> world \<Rightarrow> (bool \<times> world) option" where
  "and_not_call cond c w =
     (if cond then (case sys c w of None \<Rightarrow> None | Some (r, w') \<Rightarrow> Some (\<not> failed r, w'))
      else Some (False, w))"

definition print :: "message \<Rightarrow> world \<Rightarrow> world" where
  "print m w = w\<lparr>printed := printed w @ [m]\<rparr>"

text \<open>
  \<open>report_file_created\<close> (of \<open>apply.h\<close>) calls the progress function of the library's
  user and returns its status.
\<close>

definition report_file_created :: "world \<Rightarrow> (wimlib_error_code \<times> world) option" where
  "report_file_created w =
     (case progress w of [] \<Rightarrow> None | r # rs \<Rightarrow> Some (r, w\<lparr>progress := rs\<rparr>))"

definition S_ISREG :: "u32 \<Rightarrow> bool" where
  "S_ISREG m \<longleftrightarrow> m AND 0xF000 = 0x8000"

definition S_ISDIR :: "u32 \<Rightarrow> bool" where
  "S_ISDIR m \<longleftrightarrow> m AND 0xF000 = 0x4000"

subsection \<open>Dentries, inodes and the apply context\<close>

text \<open>
  A dentry with the chain of its ancestors. \<open>d_addr\<close> is its address (dentries are compared
  as pointers); \<open>d_parent = None\<close> is the root, whose parent is itself. \<open>dentry_is_root\<close> and
  \<open>will_extract_dentry\<close> are the results of the functions of these names, and
  \<open>d_extraction_name_nchars\<close> is the length of \<open>d_extraction_name\<close>.
\<close>

datatype wim_dentry =
  Dentry (d_addr: nat) (d_extraction_name: string) (dentry_is_root: bool)
    (will_extract_dentry: bool) (d_parent: "wim_dentry option")

record wimlib_unix_data =
  uid :: u32
  gid :: u32
  mode :: u32
  rdev :: u32

text \<open>
  An inode, with the results of the inode functions the file calls:
  \<open>inode_get_unix_data\<close> is \<open>None\<close> when the function returns false.
\<close>

record wim_inode =
  inode_is_directory :: bool
  inode_is_symlink :: bool
  inode_unnamed_lte_resolved :: bool
  inode_get_unix_data :: "wimlib_unix_data option"
  i_extraction_aliases :: "wim_dentry list"
  i_last_access_time :: u64
  i_last_write_time :: u64
  i_not_rpfixed :: bool

definition inode_first_extraction_dentry :: "wim_inode \<Rightarrow> wim_dentry option" where
  "inode_first_extraction_dentry inode =
     (case i_extraction_aliases inode of [] \<Rightarrow> None | d # ds \<Rightarrow> Some d)"

datatype extract_flag =
    WIMLIB_EXTRACT_FLAG_UNIX_DATA
  | WIMLIB_EXTRACT_FLAG_STRICT_ACLS
  | WIMLIB_EXTRACT_FLAG_STRICT_TIMESTAMPS
  | WIMLIB_EXTRACT_FLAG_RPFIX
  | WIMLIB_EXTRACT_FLAG_other nat

record filedes =
  fd :: int

text \<open>
  \<open>struct unix_apply_ctx\<close>. \<open>extract_flags\<close>, \<open>target\<close> and \<open>target_nchars\<close> are the fields of
  \<open>common\<close> that the file reads; the flag word is the set of the flags that are set. A path
  buffer is the list of its characters; \<open>reparse_ptr\<close> is an offset into \<open>reparse_data\<close>.
\<close>

record unix_apply_ctx =
  extract_flags :: "extract_flag set"
  target :: string
  target_nchars :: nat
  pathbufs :: "string list"
  which_pathbuf :: u32
  open_fds :: "filedes list"
  num_open_fds :: u32
  reparse_data :: "u8 list"
  reparse_ptr :: "nat option"
  target_abspath :: "string option"
  target_abspath_nchars :: nat
  num_special_files_ignored :: u64   \<comment> \<open>\<open>unsigned long\<close>, 64 bits on LP64\<close>

definition NUM_PATHBUFS :: u32 where
  "NUM_PATHBUFS = 2"

subsection \<open>Extraction paths\<close>

fun unix_dentry_path_length :: "wim_dentry \<Rightarrow> nat" where
  "unix_dentry_path_length (Dentry a name root we parent) =
     (length name + 1) +
     (case parent of
        None \<Rightarrow> 0
      | Some d \<Rightarrow>
          if \<not> dentry_is_root d \<and> will_extract_dentry d then unix_dentry_path_length d
          else 0)"

definition memcpy :: "'a list \<Rightarrow> nat \<Rightarrow> 'a list \<Rightarrow> 'a list" where
  "memcpy buf p src = take p buf @ src @ drop (p + length src) buf"

text \<open>
  The \<open>do ... while\<close> loop of \<open>unix_build_extraction_path\<close>, which writes the components
  from the end of the path towards its beginning; \<open>p\<close> is the offset of the pointer \<open>p\<close> in
  the buffer.
\<close>

fun write_path_components :: "wim_dentry \<Rightarrow> nat \<Rightarrow> string \<Rightarrow> string" where
  "write_path_components (Dentry a name root we parent) p buf =
     (let p1 = p - length name;
          buf1 = memcpy buf p1 name;
          p2 = p1 - 1;
          buf2 = buf1[p2 := CHR ''/'']
      in case parent of
           None \<Rightarrow> buf2
         | Some d \<Rightarrow>
             if \<not> dentry_is_root d \<and> will_extract_dentry d
             then write_path_components d p2 buf2
             else buf2)"

text \<open>
  The result is the index of the buffer that holds the path (the C function returns a
  pointer to that buffer) and the new context. An index beyond the two buffers and a path
  longer than the buffer are undefined in C.
\<close>

definition unix_build_extraction_path ::
  "wim_dentry \<Rightarrow> unix_apply_ctx \<Rightarrow> (nat \<times> unix_apply_ctx) option" where
  "unix_build_extraction_path dentry ctx =
     (let i = unat (which_pathbuf ctx) in
      if i \<ge> length (pathbufs ctx) then None
      else
        let pathbuf = pathbufs ctx ! i;
            e = target_nchars ctx + unix_dentry_path_length dentry
        in if e \<ge> length pathbuf then None
           else
             Some (i,
               ctx\<lparr>which_pathbuf := (which_pathbuf ctx + 1) mod NUM_PATHBUFS,
                   pathbufs :=
                     (pathbufs ctx)[i := write_path_components dentry e
                                           (pathbuf[e := CHR 0x00])]\<rparr>))"

definition unix_reuse_pathbuf :: "unix_apply_ctx \<Rightarrow> unix_apply_ctx" where
  "unix_reuse_pathbuf ctx = ctx\<lparr>which_pathbuf := (which_pathbuf ctx - 1) mod NUM_PATHBUFS\<rparr>"

definition unix_build_inode_extraction_path ::
  "wim_inode \<Rightarrow> unix_apply_ctx \<Rightarrow> (nat \<times> unix_apply_ctx) option" where
  "unix_build_inode_extraction_path inode ctx =
     (case inode_first_extraction_dentry inode of
        None \<Rightarrow> None
      | Some d \<Rightarrow> unix_build_extraction_path d ctx)"

text \<open>The C string a path pointer points to, read from the buffer at the time of use.\<close>

definition path_string :: "unix_apply_ctx \<Rightarrow> nat \<Rightarrow> string" where
  "path_string ctx p = takeWhile (\<lambda>c. c \<noteq> CHR 0x00) (pathbufs ctx ! p)"

definition path_arg :: "unix_apply_ctx \<Rightarrow> nat option \<Rightarrow> string option" where
  "path_arg ctx path = map_option (path_string ctx) path"

subsection \<open>Metadata\<close>

definition unix_set_timestamps ::
  "build_config \<Rightarrow> int \<Rightarrow> string option \<Rightarrow> u64 \<Rightarrow> u64 \<Rightarrow> world \<Rightarrow>
     (wimlib_error_code \<times> world) option" where
  "unix_set_timestamps cfg fdn path atime mtime w =
     do {
       (ok1, w1) \<leftarrow> and_not_call (HAVE_FUTIMENS cfg \<and> fdn \<ge> 0)
                      (Sys_futimens fdn atime mtime) (w\<lparr>w_errno := ENOSYS\<rparr>);
       if ok1 then Some (WIMLIB_ERR_SUCCESS, w1)
       else do {
         (ok2, w2) \<leftarrow> and_not_call (HAVE_UTIMENSAT cfg \<and> fdn < 0)
                        (Sys_utimensat path atime mtime) w1;
         if ok2 then Some (WIMLIB_ERR_SUCCESS, w2)
         else if w_errno w2 \<noteq> ENOSYS then Some (WIMLIB_ERR_SET_TIMESTAMPS, w2)
         else do {
           (ok3, w3) \<leftarrow> and_not_call (fdn \<ge> 0) (Sys_futimes fdn atime mtime) w2;
           if ok3 then Some (WIMLIB_ERR_SUCCESS, w3)
           else do {
             (ok4, w4) \<leftarrow> and_not_call (fdn < 0) (Sys_lutimes path atime mtime) w3;
             if ok4 then Some (WIMLIB_ERR_SUCCESS, w4)
             else Some (WIMLIB_ERR_SET_TIMESTAMPS, w4)
           }
         }
       }
     }"

definition unix_set_owner_and_group ::
  "int \<Rightarrow> string option \<Rightarrow> u32 \<Rightarrow> u32 \<Rightarrow> world \<Rightarrow> (wimlib_error_code \<times> world) option" where
  "unix_set_owner_and_group fdn path u g w =
     do {
       (ok1, w1) \<leftarrow> and_not_call (fdn \<ge> 0) (Sys_fchown fdn u g) w;
       if ok1 then Some (WIMLIB_ERR_SUCCESS, w1)
       else do {
         (ok2, w2) \<leftarrow> and_not_call (fdn < 0) (Sys_lchown path u g) w1;
         if ok2 then Some (WIMLIB_ERR_SUCCESS, w2)
         else Some (WIMLIB_ERR_SET_SECURITY, w2)
       }
     }"

definition unix_set_mode ::
  "int \<Rightarrow> string option \<Rightarrow> u32 \<Rightarrow> world \<Rightarrow> (wimlib_error_code \<times> world) option" where
  "unix_set_mode fdn path m w =
     do {
       (ok1, w1) \<leftarrow> and_not_call (fdn \<ge> 0) (Sys_fchmod fdn m) w;
       if ok1 then Some (WIMLIB_ERR_SUCCESS, w1)
       else do {
         (ok2, w2) \<leftarrow> and_not_call (fdn < 0) (Sys_chmod path m) w1;
         if ok2 then Some (WIMLIB_ERR_SUCCESS, w2)
         else Some (WIMLIB_ERR_SET_SECURITY, w2)
       }
     }"

text \<open>
  The block that follows each failed step of \<open>unix_set_metadata\<close>: the path is built if
  there is none yet; with the strict flag the error is printed and returned (\<open>Some ret\<close>),
  without it a warning is printed and the function goes on (\<open>None\<close>).
\<close>

definition metadata_step_failed ::
  "wimlib_error_code \<Rightarrow> extract_flag \<Rightarrow> string \<Rightarrow> wim_inode \<Rightarrow> nat option \<Rightarrow>
     unix_apply_ctx \<Rightarrow> world \<Rightarrow>
     (wimlib_error_code option \<times> nat option \<times> unix_apply_ctx \<times> world) option" where
  "metadata_step_failed ret strict text inode path ctx w =
     do {
       (path1, ctx1) \<leftarrow>
         (if path = None
          then map_option (\<lambda>(p, c). (Some p, c)) (unix_build_inode_extraction_path inode ctx)
          else Some (path, ctx));
       if strict \<in> extract_flags ctx1
       then Some (Some ret, path1, ctx1, print (ERROR text) w)
       else Some (None, path1, ctx1, print (WARNING text) w)
     }"

text \<open>The part of \<open>unix_set_metadata\<close> that is guarded by the UNIX-data test.\<close>

definition unix_set_metadata_unix_data ::
  "int \<Rightarrow> wim_inode \<Rightarrow> wimlib_unix_data \<Rightarrow> nat option \<Rightarrow> unix_apply_ctx \<Rightarrow> world \<Rightarrow>
     (wimlib_error_code option \<times> nat option \<times> unix_apply_ctx \<times> world) option" where
  "unix_set_metadata_unix_data fdn inode unix_data path ctx w =
     do {
       (ret1, w1) \<leftarrow>
         unix_set_owner_and_group fdn (path_arg ctx path) (uid unix_data) (gid unix_data) w;
       (early, path1, ctx1, w2) \<leftarrow>
         (if ret1 \<noteq> WIMLIB_ERR_SUCCESS
          then metadata_step_failed ret1 WIMLIB_EXTRACT_FLAG_STRICT_ACLS
                 ''Can't set uid and gid'' inode path ctx w1
          else Some (None, path, ctx, w1));
       case early of
         Some r \<Rightarrow> Some (Some r, path1, ctx1, w2)
       | None \<Rightarrow> do {
           (ret2, w3) \<leftarrow>
             (if \<not> inode_is_symlink inode
              then unix_set_mode fdn (path_arg ctx1 path1) (mode unix_data) w2
              else Some (WIMLIB_ERR_SUCCESS, w2));
           if ret2 \<noteq> WIMLIB_ERR_SUCCESS
           then metadata_step_failed ret2 WIMLIB_EXTRACT_FLAG_STRICT_ACLS
                  ''Can't set mode'' inode path1 ctx1 w3
           else Some (None, path1, ctx1, w3)
         }
     }"

definition unix_set_metadata ::
  "build_config \<Rightarrow> int \<Rightarrow> wim_inode \<Rightarrow> nat option \<Rightarrow> unix_apply_ctx \<Rightarrow> world \<Rightarrow>
     (wimlib_error_code \<times> unix_apply_ctx \<times> world) option" where
  "unix_set_metadata cfg fdn inode path ctx w =
     do {
       (path0, ctx0) \<leftarrow>
         (if fdn < 0 \<and> path = None
          then map_option (\<lambda>(p, c). (Some p, c)) (unix_build_inode_extraction_path inode ctx)
          else Some (path, ctx));
       (early, path1, ctx1, w1) \<leftarrow>
         (case (if WIMLIB_EXTRACT_FLAG_UNIX_DATA \<in> extract_flags ctx0
                then inode_get_unix_data inode else None) of
            Some unix_data \<Rightarrow> unix_set_metadata_unix_data fdn inode unix_data path0 ctx0 w
          | None \<Rightarrow> Some (None, path0, ctx0, w));
       case early of
         Some r \<Rightarrow> Some (r, ctx1, w1)
       | None \<Rightarrow> do {
           (ret, w2) \<leftarrow>
             unix_set_timestamps cfg fdn (path_arg ctx1 path1) (i_last_access_time inode)
               (i_last_write_time inode) w1;
           if ret \<noteq> WIMLIB_ERR_SUCCESS then do {
             (early2, path2, ctx2, w3) \<leftarrow>
               metadata_step_failed ret WIMLIB_EXTRACT_FLAG_STRICT_TIMESTAMPS
                 ''Can't set timestamps'' inode path1 ctx1 w2;
             case early2 of
               Some r \<Rightarrow> Some (r, ctx2, w3)
             | None \<Rightarrow> Some (WIMLIB_ERR_SUCCESS, ctx2, w3)
           }
           else Some (WIMLIB_ERR_SUCCESS, ctx1, w2)
         }
     }"

subsection \<open>Hard links\<close>

text \<open>The loop at the label \<open>retry_link\<close>; the result says whether the link was made.\<close>

function link_retry :: "string \<Rightarrow> string \<Rightarrow> world \<Rightarrow> (bool \<times> world) option" where
  "link_retry first_path newpath w =
     (case sys (Sys_link first_path newpath) w of
        None \<Rightarrow> None
      | Some (r, w1) \<Rightarrow>
          if failed r then
            (if w_errno w1 = EEXIST then
               (case sys (Sys_unlink newpath) w1 of
                  None \<Rightarrow> None
                | Some (r2, w2) \<Rightarrow>
                    if \<not> failed r2 then link_retry first_path newpath w2
                    else Some (False, w2))
             else Some (False, w1))
          else Some (True, w1))"
  by pat_completeness auto
termination
  by (relation "measure (\<lambda>(a, b, w). length (script w))")
    (auto simp: sys_def split: list.splits)

declare link_retry.simps [simp del]

fun unix_create_hardlinks_aliases ::
  "wim_dentry list \<Rightarrow> wim_dentry \<Rightarrow> nat \<Rightarrow> unix_apply_ctx \<Rightarrow> world \<Rightarrow>
     (wimlib_error_code \<times> unix_apply_ctx \<times> world) option" where
  "unix_create_hardlinks_aliases [] first_dentry first_path ctx w =
     Some (WIMLIB_ERR_SUCCESS, ctx, w)"
| "unix_create_hardlinks_aliases (dentry # rest) first_dentry first_path ctx w =
     (if d_addr dentry = d_addr first_dentry
      then unix_create_hardlinks_aliases rest first_dentry first_path ctx w
      else
        case unix_build_extraction_path dentry ctx of
          None \<Rightarrow> None
        | Some (newpath, ctx1) \<Rightarrow>
            (case link_retry (path_string ctx1 first_path) (path_string ctx1 newpath) w of
               None \<Rightarrow> None
             | Some (linked, w1) \<Rightarrow>
                 if \<not> linked
                 then Some (WIMLIB_ERR_LINK, ctx1, print (ERROR ''Can't create hard link'') w1)
                 else unix_create_hardlinks_aliases rest first_dentry first_path
                        (unix_reuse_pathbuf ctx1) w1))"

definition unix_create_hardlinks ::
  "wim_inode \<Rightarrow> wim_dentry \<Rightarrow> nat \<Rightarrow> unix_apply_ctx \<Rightarrow> world \<Rightarrow>
     (wimlib_error_code \<times> unix_apply_ctx \<times> world) option" where
  "unix_create_hardlinks inode first_dentry first_path ctx w =
     unix_create_hardlinks_aliases (i_extraction_aliases inode) first_dentry first_path ctx w"

subsection \<open>Directories, empty files and special files\<close>

text \<open>
  A dentry of the extraction list together with the inode \<open>dentry->d_inode\<close>.
  \<open>dentry_is_directory\<close> is \<open>inode_is_directory\<close> of that inode.
\<close>

type_synonym dentry_inode = "wim_dentry \<times> wim_inode"

definition unix_create_if_directory ::
  "wim_dentry \<Rightarrow> wim_inode \<Rightarrow> unix_apply_ctx \<Rightarrow> world \<Rightarrow>
     (wimlib_error_code \<times> unix_apply_ctx \<times> world) option" where
  "unix_create_if_directory dentry inode ctx w =
     (if \<not> inode_is_directory inode then Some (WIMLIB_ERR_SUCCESS, ctx, w)
      else do {
        (path, ctx1) \<leftarrow> unix_build_extraction_path dentry ctx;
        (r, w1) \<leftarrow> sys (Sys_mkdir (path_string ctx1 path)) w;
        (exists_as_dir, w2) \<leftarrow>
          (if failed r then
             (if w_errno w1 = EEXIST then do {
                (r2, w2) \<leftarrow> sys (Sys_lstat (path_string ctx1 path)) w1;
                Some (case r2 of Ok_stat st_mode \<Rightarrow> S_ISDIR st_mode | _ \<Rightarrow> False, w2)
              }
              else Some (False, w1))
           else Some (True, w1));
        if failed r \<and> \<not> exists_as_dir
        then Some (WIMLIB_ERR_MKDIR, ctx1, print (ERROR ''Can't create directory'') w2)
        else do {
          (ret, w3) \<leftarrow> report_file_created w2;
          Some (ret, ctx1, w3)
        }
      })"

text \<open>
  The loop at the label \<open>retry_mknod\<close>, up to the point where \<open>mknod\<close> has succeeded or
  the function returns.
\<close>

datatype mknod_result = Mknod_done | Mknod_EPERM | Mknod_failed

function mknod_retry :: "string \<Rightarrow> u32 \<Rightarrow> u32 \<Rightarrow> world \<Rightarrow> (mknod_result \<times> world) option" where
  "mknod_retry path m dev w =
     (case sys (Sys_mknod path m dev) w of
        None \<Rightarrow> None
      | Some (r, w1) \<Rightarrow>
          if failed r then
            (if w_errno w1 = EPERM then Some (Mknod_EPERM, w1)
             else if w_errno w1 = EEXIST then
               (case sys (Sys_unlink path) w1 of
                  None \<Rightarrow> None
                | Some (r2, w2) \<Rightarrow>
                    if \<not> failed r2 then mknod_retry path m dev w2
                    else Some (Mknod_failed, w2))
             else Some (Mknod_failed, w1))
          else Some (Mknod_done, w1))"
  by pat_completeness auto
termination
  by (relation "measure (\<lambda>(p, m, d, w). length (script w))")
    (auto simp: sys_def split: list.splits)

declare mknod_retry.simps [simp del]

text \<open>
  The loop at the label \<open>retry_create\<close>: the descriptor returned by \<open>open\<close>, or \<open>None\<close>
  when the function gives up.
\<close>

function open_retry :: "string \<Rightarrow> world \<Rightarrow> (int option \<times> world) option" where
  "open_retry path w =
     (case sys (Sys_open path) w of
        None \<Rightarrow> None
      | Some (r, w1) \<Rightarrow>
          if retval r < 0 then
            (if w_errno w1 = EEXIST then
               (case sys (Sys_unlink path) w1 of
                  None \<Rightarrow> None
                | Some (r2, w2) \<Rightarrow>
                    if \<not> failed r2 then open_retry path w2 else Some (None, w2))
             else Some (None, w1))
          else Some (Some (retval r), w1))"
  by pat_completeness auto
termination
  by (relation "measure (\<lambda>(p, w). length (script w))")
    (auto simp: sys_def split: list.splits)

declare open_retry.simps [simp del]

text \<open>
  \<open>unix_extract_if_empty_file\<close>; \<open>inode\<close> is \<open>dentry->d_inode\<close>. The statements after the
  \<open>if ... else\<close> are the definition \<open>unix_extract_if_empty_file_finish\<close>.
\<close>

definition unix_extract_if_empty_file_finish ::
  "wimlib_error_code \<Rightarrow> wim_dentry \<Rightarrow> wim_inode \<Rightarrow> nat \<Rightarrow> unix_apply_ctx \<Rightarrow> world \<Rightarrow>
     (wimlib_error_code \<times> unix_apply_ctx \<times> world) option" where
  "unix_extract_if_empty_file_finish ret dentry inode path ctx w =
     (if ret \<noteq> WIMLIB_ERR_SUCCESS then Some (ret, ctx, w)
      else do {
        (ret1, ctx1, w1) \<leftarrow> unix_create_hardlinks inode dentry path ctx w;
        if ret1 \<noteq> WIMLIB_ERR_SUCCESS then Some (ret1, ctx1, w1)
        else do {
          (ret2, w2) \<leftarrow> report_file_created w1;
          Some (ret2, ctx1, w2)
        }
      })"

definition unix_extract_if_empty_file ::
  "build_config \<Rightarrow> wim_dentry \<Rightarrow> wim_inode \<Rightarrow> unix_apply_ctx \<Rightarrow> world \<Rightarrow>
     (wimlib_error_code \<times> unix_apply_ctx \<times> world) option" where
  "unix_extract_if_empty_file cfg dentry inode ctx w =
     (case inode_first_extraction_dentry inode of
        None \<Rightarrow> None
      | Some first \<Rightarrow>
          if d_addr dentry \<noteq> d_addr first then Some (WIMLIB_ERR_SUCCESS, ctx, w)
          else if inode_is_directory inode \<or> inode_is_symlink inode \<or>
                  inode_unnamed_lte_resolved inode
          then Some (WIMLIB_ERR_SUCCESS, ctx, w)
          else
            case (if WIMLIB_EXTRACT_FLAG_UNIX_DATA \<in> extract_flags ctx
                  then (case inode_get_unix_data inode of
                          None \<Rightarrow> None
                        | Some unix_data \<Rightarrow>
                            if \<not> S_ISREG (mode unix_data) then Some unix_data else None)
                  else None) of
              Some unix_data \<Rightarrow> do {
                (path, ctx1) \<leftarrow> unix_build_extraction_path dentry ctx;
                (res, w1) \<leftarrow>
                  mknod_retry (path_string ctx1 path) (mode unix_data) (rdev unix_data) w;
                case res of
                  Mknod_EPERM \<Rightarrow>
                    Some (WIMLIB_ERR_SUCCESS,
                      ctx1\<lparr>num_special_files_ignored := num_special_files_ignored ctx1 + 1\<rparr>,
                      print (WARNING ''Can't create special file'') w1)
                | Mknod_failed \<Rightarrow>
                    Some (WIMLIB_ERR_MKNOD, ctx1,
                      print (ERROR ''Can't create special file'') w1)
                | Mknod_done \<Rightarrow> do {
                    (ret, ctx2, w2) \<leftarrow> unix_set_metadata cfg (- 1) inode (Some path) ctx1 w1;
                    unix_extract_if_empty_file_finish ret dentry inode path ctx2 w2
                  }
              }
            | None \<Rightarrow> do {
                (path, ctx1) \<leftarrow> unix_build_extraction_path dentry ctx;
                (opened, w1) \<leftarrow> open_retry (path_string ctx1 path) w;
                case opened of
                  None \<Rightarrow>
                    Some (WIMLIB_ERR_OPEN, ctx1, print (ERROR ''Can't create regular file'') w1)
                | Some fdn \<Rightarrow> do {
                    (ret, ctx2, w2) \<leftarrow> unix_set_metadata cfg fdn inode (Some path) ctx1 w1;
                    (r, w3) \<leftarrow> sys (Sys_close fdn) w2;
                    (if failed r \<and> ret = WIMLIB_ERR_SUCCESS
                     then unix_extract_if_empty_file_finish WIMLIB_ERR_WRITE dentry inode path
                            ctx2 (print (ERROR ''Error closing'') w3)
                     else unix_extract_if_empty_file_finish ret dentry inode path ctx2 w3)
                  }
              })"

text \<open>The two loops of \<open>unix_create_dirs_and_empty_files\<close> over the extraction list.\<close>

fun create_directories ::
  "dentry_inode list \<Rightarrow> unix_apply_ctx \<Rightarrow> world \<Rightarrow>
     (wimlib_error_code \<times> unix_apply_ctx \<times> world) option" where
  "create_directories [] ctx w = Some (WIMLIB_ERR_SUCCESS, ctx, w)"
| "create_directories ((dentry, inode) # rest) ctx w =
     (case unix_create_if_directory dentry inode ctx w of
        None \<Rightarrow> None
      | Some (ret, ctx1, w1) \<Rightarrow>
          if ret \<noteq> WIMLIB_ERR_SUCCESS then Some (ret, ctx1, w1)
          else create_directories rest ctx1 w1)"

fun extract_empty_files ::
  "build_config \<Rightarrow> dentry_inode list \<Rightarrow> unix_apply_ctx \<Rightarrow> world \<Rightarrow>
     (wimlib_error_code \<times> unix_apply_ctx \<times> world) option" where
  "extract_empty_files cfg [] ctx w = Some (WIMLIB_ERR_SUCCESS, ctx, w)"
| "extract_empty_files cfg ((dentry, inode) # rest) ctx w =
     (case unix_extract_if_empty_file cfg dentry inode ctx w of
        None \<Rightarrow> None
      | Some (ret, ctx1, w1) \<Rightarrow>
          if ret \<noteq> WIMLIB_ERR_SUCCESS then Some (ret, ctx1, w1)
          else extract_empty_files cfg rest ctx1 w1)"

definition unix_create_dirs_and_empty_files ::
  "build_config \<Rightarrow> dentry_inode list \<Rightarrow> unix_apply_ctx \<Rightarrow> world \<Rightarrow>
     (wimlib_error_code \<times> unix_apply_ctx \<times> world) option" where
  "unix_create_dirs_and_empty_files cfg dentry_list ctx w =
     (case create_directories dentry_list ctx w of
        None \<Rightarrow> None
      | Some (ret, ctx1, w1) \<Rightarrow>
          if ret \<noteq> WIMLIB_ERR_SUCCESS then Some (ret, ctx1, w1)
          else extract_empty_files cfg dentry_list ctx1 w1)"

subsection \<open>Symbolic links and streams\<close>

text \<open>The loop at the label \<open>retry_symlink\<close>, with the value \<open>unix_create_symlink\<close> returns.\<close>

function symlink_retry :: "string \<Rightarrow> string \<Rightarrow> world \<Rightarrow> (wimlib_error_code \<times> world) option" where
  "symlink_retry link_target path w =
     (case sys (Sys_symlink link_target path) w of
        None \<Rightarrow> None
      | Some (r, w1) \<Rightarrow>
          if failed r then
            (if w_errno w1 = EEXIST then
               (case sys (Sys_unlink path) w1 of
                  None \<Rightarrow> None
                | Some (r2, w2) \<Rightarrow>
                    if \<not> failed r2 then symlink_retry link_target path w2
                    else Some (WIMLIB_ERR_LINK, w2))
             else Some (WIMLIB_ERR_LINK, w1))
          else Some (WIMLIB_ERR_SUCCESS, w1))"
  by pat_completeness auto
termination
  by (relation "measure (\<lambda>(t, p, w). length (script w))")
    (auto simp: sys_def split: list.splits)

declare symlink_retry.simps [simp del]

text \<open>
  \<open>wim_inode_readlink\<close> (of \<open>reparse.c\<close>) is a parameter: from the inode, the reparse data
  and the size of the buffer it gives the link target, or the error number it returns
  negated. \<open>sizeof(link_target)\<close> is \<open>REPARSE_DATA_MAX_SIZE\<close>; a target longer than the
  buffer is undefined in C.
\<close>

type_synonym readlink_fn = "wim_inode \<Rightarrow> u8 list \<Rightarrow> nat \<Rightarrow> errno + string"

definition unix_create_symlink ::
  "build_config \<Rightarrow> readlink_fn \<Rightarrow> wim_inode \<Rightarrow> string \<Rightarrow> u8 list \<Rightarrow> u16 \<Rightarrow> bool \<Rightarrow>
     string \<Rightarrow> nat \<Rightarrow> world \<Rightarrow> (wimlib_error_code \<times> world) option" where
  "unix_create_symlink cfg wim_inode_readlink inode path rpdata rpdatalen rpfix apply_dir
       apply_dir_nchars w =
     (case wim_inode_readlink inode (take (unat rpdatalen) rpdata)
             (REPARSE_DATA_MAX_SIZE cfg - 1) of
        Inl e \<Rightarrow> Some (WIMLIB_ERR_READLINK, w\<lparr>w_errno := e\<rparr>)
      | Inr link_target \<Rightarrow>
          let ret = length link_target in
          if ret \<ge> REPARSE_DATA_MAX_SIZE cfg then None
          else if rpfix \<and> link_target \<noteq> [] \<and> hd link_target = CHR ''/'' then
            (if REPARSE_DATA_MAX_SIZE cfg - (ret + 1) < apply_dir_nchars
             then Some (WIMLIB_ERR_REPARSE_POINT_FIXUP_FAILED, w\<lparr>w_errno := ENAMETOOLONG\<rparr>)
             else symlink_retry (take apply_dir_nchars apply_dir @ link_target) path w)
          else symlink_retry link_target path w)"

text \<open>The loop of \<open>unix_cleanup_open_fds\<close>; the result of \<open>filedes_close\<close> is not looked at.\<close>

function cleanup_open_fds_from :: "u32 \<Rightarrow> unix_apply_ctx \<Rightarrow> world \<Rightarrow> world option" where
  "cleanup_open_fds_from i ctx w =
     (if i < num_open_fds ctx then
        (if unat i \<ge> length (open_fds ctx) then None
         else
           case sys (Filedes_close (fd (open_fds ctx ! unat i))) w of
             None \<Rightarrow> None
           | Some (r, w1) \<Rightarrow> cleanup_open_fds_from (i + 1) ctx w1)
      else Some w)"
  by pat_completeness auto
termination
  by (relation "measure (\<lambda>(i, ctx, w). length (script w))")
    (auto simp: sys_def split: list.splits)

declare cleanup_open_fds_from.simps [simp del]

definition unix_cleanup_open_fds ::
  "unix_apply_ctx \<Rightarrow> u32 \<Rightarrow> world \<Rightarrow> (unix_apply_ctx \<times> world) option" where
  "unix_cleanup_open_fds ctx offset w =
     map_option (\<lambda>w'. (ctx\<lparr>num_open_fds := 0\<rparr>, w')) (cleanup_open_fds_from offset ctx w)"

text \<open>
  A stream with its owners: \<open>stream_owners\<close> gives an array of \<open>out_refcnt\<close> owners, of which
  the file reads the inode; \<open>out_refcnt\<close> is the length of the list.
\<close>

record wim_lookup_table_entry =
  stream_size :: u64
  stream_owners :: "wim_inode list"

text \<open>
  The \<open>for\<close> loop of \<open>unix_end_extract_stream\<close>; the result holds \<open>ret\<close> and \<open>j\<close> at the end
  of the loop. An index \<open>j\<close> beyond \<open>open_fds\<close> is undefined in C.
\<close>

fun end_extract_stream_owners ::
  "build_config \<Rightarrow> readlink_fn \<Rightarrow> wim_lookup_table_entry \<Rightarrow> wim_inode list \<Rightarrow> u32 \<Rightarrow>
     unix_apply_ctx \<Rightarrow> world \<Rightarrow> (wimlib_error_code \<times> u32 \<times> unix_apply_ctx \<times> world) option" where
  "end_extract_stream_owners cfg rl stream [] j ctx w = Some (WIMLIB_ERR_SUCCESS, j, ctx, w)"
| "end_extract_stream_owners cfg rl stream (inode # rest) j ctx w =
     (if inode_is_symlink inode then
        (case unix_build_inode_extraction_path inode ctx of
           None \<Rightarrow> None
         | Some (path, ctx1) \<Rightarrow>
             (case unix_create_symlink cfg rl inode (path_string ctx1 path) (reparse_data ctx1)
                     (ucast (stream_size stream))
                     (WIMLIB_EXTRACT_FLAG_RPFIX \<in> extract_flags ctx1 \<and> \<not> i_not_rpfixed inode)
                     (case target_abspath ctx1 of None \<Rightarrow> [] | Some s \<Rightarrow> s)
                     (target_abspath_nchars ctx1) w of
                None \<Rightarrow> None
              | Some (ret, w1) \<Rightarrow>
                  if ret \<noteq> WIMLIB_ERR_SUCCESS
                  then Some (ret, j, ctx1, print (ERROR ''Can't create symbolic link'') w1)
                  else
                    (case unix_set_metadata cfg (- 1) inode (Some path) ctx1 w1 of
                       None \<Rightarrow> None
                     | Some (ret2, ctx2, w2) \<Rightarrow>
                         if ret2 \<noteq> WIMLIB_ERR_SUCCESS then Some (ret2, j, ctx2, w2)
                         else end_extract_stream_owners cfg rl stream rest j ctx2 w2)))
      else if unat j \<ge> length (open_fds ctx) then None
      else
        (case unix_set_metadata cfg (fd (open_fds ctx ! unat j)) inode None ctx w of
           None \<Rightarrow> None
         | Some (ret, ctx1, w1) \<Rightarrow>
             if ret \<noteq> WIMLIB_ERR_SUCCESS then Some (ret, j, ctx1, w1)
             else
               (case sys (Filedes_close (fd (open_fds ctx1 ! unat j))) w1 of
                  None \<Rightarrow> None
                | Some (r, w2) \<Rightarrow>
                    if failed r then
                      (case unix_build_inode_extraction_path inode ctx1 of
                         None \<Rightarrow> None
                       | Some (path, ctx2) \<Rightarrow>
                           Some (WIMLIB_ERR_WRITE, j, ctx2, print (ERROR ''Error closing'') w2))
                    else end_extract_stream_owners cfg rl stream rest (j + 1) ctx1 w2)))"

definition unix_end_extract_stream ::
  "build_config \<Rightarrow> readlink_fn \<Rightarrow> wim_lookup_table_entry \<Rightarrow> wimlib_error_code \<Rightarrow>
     unix_apply_ctx \<Rightarrow> world \<Rightarrow> (wimlib_error_code \<times> unix_apply_ctx \<times> world) option" where
  "unix_end_extract_stream cfg rl stream status ctx w =
     (let ctx0 = ctx\<lparr>reparse_ptr := None\<rparr> in
      if status \<noteq> WIMLIB_ERR_SUCCESS then
        (case unix_cleanup_open_fds ctx0 0 w of
           None \<Rightarrow> None
         | Some (ctx1, w1) \<Rightarrow> Some (status, ctx1, w1))
      else
        case end_extract_stream_owners cfg rl stream (stream_owners stream) 0 ctx0 w of
          None \<Rightarrow> None
        | Some (ret, j, ctx1, w1) \<Rightarrow>
            (case unix_cleanup_open_fds ctx1 j w1 of
               None \<Rightarrow> None
             | Some (ctx2, w2) \<Rightarrow> Some (ret, ctx2, w2)))"

subsection \<open>Runs that return\<close>

text \<open>
  The functions above have no result when the script of the environment is exhausted or
  when C leaves the behaviour undefined. The two conditions below exclude these cases.

  \<open>spare_results\<close> is the number of the results of the script that do not fail, less the
  number of those that fail. A loop that tries again after a failure takes a failing
  result each time it does so, and every other call takes one result: an environment with
  as many spare results as there are calls outside such loops is not exhausted.
\<close>

definition spare_results :: "world \<Rightarrow> int" where
  "spare_results w =
     int (length (filter (\<lambda>r. \<not> failed r) (script w))) - int (length (filter failed (script w)))"

text \<open>
  \<open>path_fits\<close>: the index of the next path buffer is one of the two buffers, and the path of
  the first extraction alias of the inode, with its terminator, fits into each of them;
  \<open>unix_build_inode_extraction_path\<close> is then defined.
\<close>

definition path_fits :: "unix_apply_ctx \<Rightarrow> wim_inode \<Rightarrow> bool" where
  "path_fits ctx inode \<longleftrightarrow>
     which_pathbuf ctx < 2 \<and> 2 \<le> length (pathbufs ctx) \<and>
     (case inode_first_extraction_dentry inode of
        None \<Rightarrow> False
      | Some d \<Rightarrow>
          list_all (\<lambda>buf. target_nchars ctx + unix_dentry_path_length d < length buf)
            (pathbufs ctx))"

section \<open>Concrete inputs\<close>

text \<open>Inputs at which the theorems below are instantiated and the functions evaluated.\<close>

definition example_config :: build_config where
  "example_config =
     \<lparr>gnuc_has_bswap_builtins = False, WORDS_BIGENDIAN = True,
      ENABLE_VERIFY_COMPRESSION = True, ENABLE_ASSERTIONS = True, HAVE_FUTIMENS = True,
      HAVE_UTIMENSAT = True, sizeof_wimlib_compressor = 32, REPARSE_DATA_MAX_SIZE = 16384\<rparr>"

text \<open>
  A codec that keeps the first byte of a block of two bytes or more, and whose creation
  fails for a level below 10.
\<close>

definition example_get_needed_memory :: "nat \<Rightarrow> u32 \<Rightarrow> u64" where
  "example_get_needed_memory mbs level = of_nat mbs * ucast level"

definition example_create :: "nat \<Rightarrow> u32 \<Rightarrow> wimlib_error_code \<times> unit option" where
  "example_create mbs level =
     (if level < 10 then (WIMLIB_ERR_INVALID_PARAM, None) else (WIMLIB_ERR_SUCCESS, Some ()))"

definition example_compress :: "u8 list \<Rightarrow> nat \<Rightarrow> unit option \<Rightarrow> nat \<times> u8 list" where
  "example_compress d avail p = (if length d \<le> 1 then (0, []) else (1, [hd d]))"

definition example_ops :: "unit compressor_ops" where
  "example_ops =
     \<lparr>get_needed_memory = Some example_get_needed_memory,
      create_compressor = Some example_create,
      compress = example_compress,
      free_compressor = None\<rparr>"

definition example_codecs :: "unit codecs" where
  "example_codecs =
     \<lparr>xpress_compressor_ops = example_ops, lzx_compressor_ops = example_ops,
      lzms_compressor_ops = example_ops\<rparr>"

definition never_out_of_memory :: "nat \<Rightarrow> bool" where
  "never_out_of_memory k = False"

definition example_state :: compress_state where
  "example_state =
     \<lparr>default_compression_levels = initial_default_compression_levels,
      mem = \<lparr>live = [], requests = 0, out_of_memory = never_out_of_memory\<rparr>,
      messages = []\<rparr>"

definition example_compressor :: "unit wimlib_compressor" where
  "example_compressor =
     \<lparr>ops = example_ops, c_private = Some (), ctype = 2, max_block_size = 32768\<rparr>"

text \<open>A decompressor that reports failure, and one that succeeds with zero bytes.\<close>

definition create_decompressor_ok :: "int \<Rightarrow> nat \<Rightarrow> wimlib_error_code" where
  "create_decompressor_ok ct mbs = WIMLIB_ERR_SUCCESS"

definition decompress_failing :: "u8 list \<Rightarrow> nat \<Rightarrow> nat \<Rightarrow> wimlib_error_code \<times> u8 list" where
  "decompress_failing cdata csize usize = (WIMLIB_ERR_DECOMPRESSION, [])"

definition decompress_zeros :: "u8 list \<Rightarrow> nat \<Rightarrow> nat \<Rightarrow> wimlib_error_code \<times> u8 list" where
  "decompress_zeros cdata csize usize = (WIMLIB_ERR_SUCCESS, replicate usize 0)"

definition failing_decompressor :: decompressor_fns where
  "failing_decompressor =
     \<lparr>create_decompressor = create_decompressor_ok, decompress = decompress_failing\<rparr>"

definition wrong_decompressor :: decompressor_fns where
  "wrong_decompressor =
     \<lparr>create_decompressor = create_decompressor_ok, decompress = decompress_zeros\<rparr>"

definition example_reshdr :: wim_reshdr where
  "example_reshdr = \<lparr>offset_in_wim = 0, size_in_wim = 0, uncompressed_size = 0, flags = 0\<rparr>"

definition example_header :: wim_header where
  "example_header =
     \<lparr>magic = 0, hdr_flags = 0, chunk_size = 32768, guid = replicate 16 0, part_number = 1,
      total_parts = 1, image_count = 0,
      lookup_table_reshdr = example_reshdr\<lparr>offset_in_wim := 208\<rparr>,
      xml_data_reshdr = example_reshdr\<lparr>offset_in_wim := 208\<rparr>,
      boot_metadata_reshdr = example_reshdr, boot_idx = 0,
      integrity_table_reshdr = example_reshdr\<rparr>"

definition example_wim :: WIMStruct where
  "example_wim =
     \<lparr>filename = None, image_metadata = None, hdr = example_header, current_image = 0\<rparr>"

text \<open>
  A character device \<open>dev0\<close> directly below the root, extracted to \<open>/mnt\<close> with UNIX data
  and both strict flags; a regular file \<open>a\<close> with a second name \<open>b\<close>.
\<close>

definition root_dentry :: wim_dentry where
  "root_dentry = Dentry 100 [] True True None"

definition dev_dentry :: wim_dentry where
  "dev_dentry = Dentry 101 ''dev0'' False True (Some root_dentry)"

definition dev_unix_data :: wimlib_unix_data where
  "dev_unix_data = \<lparr>uid = 0, gid = 0, mode = 0x21B6, rdev = 0x0103\<rparr>"

definition dev_inode :: wim_inode where
  "dev_inode =
     \<lparr>inode_is_directory = False, inode_is_symlink = False,
      inode_unnamed_lte_resolved = False, inode_get_unix_data = Some dev_unix_data,
      i_extraction_aliases = [dev_dentry], i_last_access_time = 0, i_last_write_time = 0,
      i_not_rpfixed = False\<rparr>"

definition file_dentry_a :: wim_dentry where
  "file_dentry_a = Dentry 102 ''a'' False True (Some root_dentry)"

definition file_dentry_b :: wim_dentry where
  "file_dentry_b = Dentry 103 ''b'' False True (Some root_dentry)"

definition file_inode :: wim_inode where
  "file_inode =
     \<lparr>inode_is_directory = False, inode_is_symlink = False,
      inode_unnamed_lte_resolved = True, inode_get_unix_data = None,
      i_extraction_aliases = [file_dentry_a, file_dentry_b], i_last_access_time = 0,
      i_last_write_time = 0, i_not_rpfixed = False\<rparr>"

definition empty_pathbuf :: string where
  "empty_pathbuf =
     ''/mnt'' @ [CHR 0x00, CHR 0x00, CHR 0x00, CHR 0x00, CHR 0x00, CHR 0x00, CHR 0x00, CHR 0x00]"

definition strict_ctx :: unix_apply_ctx where
  "strict_ctx =
     \<lparr>extract_flags =
        {WIMLIB_EXTRACT_FLAG_UNIX_DATA, WIMLIB_EXTRACT_FLAG_STRICT_ACLS,
         WIMLIB_EXTRACT_FLAG_STRICT_TIMESTAMPS},
      target = ''/mnt'', target_nchars = 4,
      pathbufs = [empty_pathbuf, empty_pathbuf],
      which_pathbuf = 0,
      open_fds = [\<lparr>fd = 3\<rparr>, \<lparr>fd = 4\<rparr>, \<lparr>fd = 0\<rparr>, \<lparr>fd = 0\<rparr>],
      num_open_fds = 0, reparse_data = [], reparse_ptr = None, target_abspath = None,
      target_abspath_nchars = 0, num_special_files_ignored = 0\<rparr>"

definition stream_ctx :: unix_apply_ctx where
  "stream_ctx = strict_ctx\<lparr>extract_flags := {}, num_open_fds := 2, reparse_ptr := Some 0\<rparr>"

definition world_with :: "sysres list \<Rightarrow> world" where
  "world_with rs = \<lparr>script = rs, calls = [], w_errno = ENOENT, printed = [], progress = []\<rparr>"

definition no_readlink :: readlink_fn where
  "no_readlink inode rpdata n = Inl EINVAL"

definition two_owner_stream :: wim_lookup_table_entry where
  "two_owner_stream = \<lparr>stream_size = 10, stream_owners = [file_inode, file_inode]\<rparr>"

text \<open>
  A symbolic link \<open>l\<close> below the root, whose target \<open>wim_inode_readlink\<close> gives as \<open>t\<close>, and
  a stream that the link and the regular file own.
\<close>

definition link_dentry :: wim_dentry where
  "link_dentry = Dentry 104 ''l'' False True (Some root_dentry)"

definition link_inode :: wim_inode where
  "link_inode =
     \<lparr>inode_is_directory = False, inode_is_symlink = True,
      inode_unnamed_lte_resolved = True, inode_get_unix_data = None,
      i_extraction_aliases = [link_dentry], i_last_access_time = 0,
      i_last_write_time = 0, i_not_rpfixed = False\<rparr>"

definition example_readlink :: readlink_fn where
  "example_readlink inode rpdata n = Inr (take n ''t'')"

definition link_stream :: wim_lookup_table_entry where
  "link_stream = \<lparr>stream_size = 10, stream_owners = [link_inode, file_inode]\<rparr>"

chapter \<open>Properties\<close>

section \<open>Byte swapping\<close>

lemma mask_ff00: "(0xff00 :: 'a::len word) = push_bit 8 (mask 8)"
  by (simp add: mask_eq_exp_minus_1)

lemma mask_ff0000: "(0xff0000 :: 'a::len word) = push_bit 16 (mask 8)"
  by (simp add: mask_eq_exp_minus_1)

lemma mask_ff000000: "(0xff000000 :: 'a::len word) = push_bit 24 (mask 8)"
  by (simp add: mask_eq_exp_minus_1)

lemma mask_ff00000000: "(0xff00000000 :: 'a::len word) = push_bit 32 (mask 8)"
  by (simp add: mask_eq_exp_minus_1)

lemma mask_ff0000000000: "(0xff0000000000 :: 'a::len word) = push_bit 40 (mask 8)"
  by (simp add: mask_eq_exp_minus_1)

lemma mask_ff000000000000: "(0xff000000000000 :: 'a::len word) = push_bit 48 (mask 8)"
  by (simp add: mask_eq_exp_minus_1)

text \<open>Where each bit of the result comes from.\<close>

lemma bit_bswap16:
  "bit (bswap16 n) i = (if i < 8 then bit n (i + 8) else i < 16 \<and> bit n (i - 8))"
  unfolding bswap16_def
  by (auto simp add: bit_simps ac_simps dest: bit_imp_le_length)

lemma bit_bswap32_fallback:
  "bit (bswap32_fallback n) i =
     (i < 32 \<and>
      bit n (if i < 8 then i + 24 else if i < 16 then i + 8
             else if i < 24 then i - 8 else i - 24))"
  unfolding bswap32_fallback_def mask_ff00 mask_ff0000
  by (auto simp add: bit_simps ac_simps dest: bit_imp_le_length)

lemma bit_bswap64_fallback:
  "bit (bswap64_fallback n) i =
     (i < 64 \<and>
      bit n (if i < 8 then i + 56 else if i < 16 then i + 40
             else if i < 24 then i + 24 else if i < 32 then i + 8
             else if i < 40 then i - 8 else if i < 48 then i - 24
             else if i < 56 then i - 40 else i - 56))"
  unfolding bswap64_fallback_def mask_ff00 mask_ff0000 mask_ff000000 mask_ff00000000
    mask_ff0000000000 mask_ff000000000000
  by (auto simp add: bit_simps ac_simps dest: bit_imp_le_length)

lemma upt_0_2: "[0..<2] = [0, 1]"
  by (simp add: upt_rec)

lemma upt_0_4: "[0..<4] = [0, 1, 2, 3]"
  by (simp add: upt_rec)

lemma upt_0_8: "[0..<8] = [0, 1, 2, 3, 4, 5, 6, 7]"
  by (simp add: upt_rec)

lemma bswap16_involution: "bswap16 (bswap16 n) = n"
  by (rule bit_word_eqI) (auto simp add: bit_bswap16)

lemma bswap32_fallback_involution: "bswap32_fallback (bswap32_fallback n) = n"
  by (rule bit_word_eqI) (auto simp add: bit_bswap32_fallback)

lemma bswap64_fallback_involution: "bswap64_fallback (bswap64_fallback n) = n"
  by (rule bit_word_eqI) (auto simp add: bit_bswap64_fallback)

lemma bytes_bswap16: "bytes_le 2 (bswap16 n) = rev (bytes_le 2 n)"
  unfolding bytes_le_def upt_0_2
  apply simp
  apply (intro conjI bit_word_eqI)
   apply (simp_all add: bit_simps bit_bswap16 ac_simps)
  done

lemma bytes_bswap32_fallback: "bytes_le 4 (bswap32_fallback n) = rev (bytes_le 4 n)"
  unfolding bytes_le_def upt_0_4
  apply simp
  apply (intro conjI bit_word_eqI)
     apply (simp_all add: bit_simps bit_bswap32_fallback ac_simps)
  done

lemma bytes_bswap64_fallback: "bytes_le 8 (bswap64_fallback n) = rev (bytes_le 8 n)"
  unfolding bytes_le_def upt_0_8
  apply simp
  apply (intro conjI bit_word_eqI)
         apply (simp_all add: bit_simps bit_bswap64_fallback ac_simps)
  done

text \<open>The built-ins and the fallback formulas compute the same function.\<close>

lemma builtin_bswap32_eq: "builtin_bswap32 n = bswap32_fallback n"
proof (rule bit_word_eqI)
  fix i
  assume "i < LENGTH(32)"
  then consider "i < 8" | "8 \<le> i \<and> i < 16" | "16 \<le> i \<and> i < 24" | "24 \<le> i \<and> i < 32"
    by fastforce
  then show "bit (builtin_bswap32 n) i = bit (bswap32_fallback n) i"
    unfolding builtin_bswap32_def word_of_bytes_le_def bytes_le_def upt_0_4
    by cases (simp_all add: bit_bswap32_fallback bit_simps ac_simps less_diff_conv2)
qed

lemma builtin_bswap64_eq: "builtin_bswap64 n = bswap64_fallback n"
proof (rule bit_word_eqI)
  fix i
  assume "i < LENGTH(64)"
  then consider "i < 8" | "8 \<le> i \<and> i < 16" | "16 \<le> i \<and> i < 24" | "24 \<le> i \<and> i < 32"
    | "32 \<le> i \<and> i < 40" | "40 \<le> i \<and> i < 48" | "48 \<le> i \<and> i < 56" | "56 \<le> i \<and> i < 64"
    by fastforce
  then show "bit (builtin_bswap64 n) i = bit (bswap64_fallback n) i"
    unfolding builtin_bswap64_def word_of_bytes_le_def bytes_le_def upt_0_8
    by cases (simp_all add: bit_bswap64_fallback bit_simps ac_simps less_diff_conv2)
qed

lemma bswap32_eq_fallback: "bswap32 cfg n = bswap32_fallback n"
  by (simp add: bswap32_def builtin_bswap32_eq)

lemma bswap64_eq_fallback: "bswap64 cfg n = bswap64_fallback n"
  by (simp add: bswap64_def builtin_bswap64_eq)

text \<open>
  Claim C7. For every 16-, 32- and 64-bit unsigned integer, \<open>bswap16\<close>, \<open>bswap32\<close> and
  \<open>bswap64\<close> (with the compiler built-in as well as with the shift-and-mask fallback
  formula) reverse the order of the bytes of their argument; each of them is an involution;
  and \<open>cpu_to_leN\<close> and \<open>leN_to_cpu\<close> are inverse to each other, on a little-endian host
  as on a big-endian one.
\<close>

theorem bswap_reverses_bytes:
  "bytes_le 2 (bswap16 a) = rev (bytes_le 2 a) \<and>
   bytes_le 4 (bswap32 cfg b) = rev (bytes_le 4 b) \<and>
   bytes_le 4 (bswap32_fallback b) = rev (bytes_le 4 b) \<and>
   bytes_le 4 (builtin_bswap32 b) = rev (bytes_le 4 b) \<and>
   bytes_le 8 (bswap64 cfg c) = rev (bytes_le 8 c) \<and>
   bytes_le 8 (bswap64_fallback c) = rev (bytes_le 8 c) \<and>
   bytes_le 8 (builtin_bswap64 c) = rev (bytes_le 8 c) \<and>
   bswap16 (bswap16 a) = a \<and>
   bswap32 cfg (bswap32 cfg b) = b \<and>
   bswap32_fallback (bswap32_fallback b) = b \<and>
   bswap64 cfg (bswap64 cfg c) = c \<and>
   bswap64_fallback (bswap64_fallback c) = c \<and>
   le16_to_cpu cfg (cpu_to_le16 cfg a) = a \<and> cpu_to_le16 cfg (le16_to_cpu cfg a) = a \<and>
   le32_to_cpu cfg (cpu_to_le32 cfg b) = b \<and> cpu_to_le32 cfg (le32_to_cpu cfg b) = b \<and>
   le64_to_cpu cfg (cpu_to_le64 cfg c) = c \<and> cpu_to_le64 cfg (le64_to_cpu cfg c) = c"
  by (simp add: bytes_bswap16 bytes_bswap32_fallback bytes_bswap64_fallback
      bswap32_eq_fallback bswap64_eq_fallback builtin_bswap32_eq builtin_bswap64_eq
      bswap16_involution bswap32_fallback_involution bswap64_fallback_involution
      le16_to_cpu_def le32_to_cpu_def le64_to_cpu_def
      cpu_to_le16_def cpu_to_le32_def cpu_to_le64_def)

theorem bswap_reverses_bytes_witness:
  "bytes_le 4 (bswap32 example_config 0x11223344) = [0x11, 0x22, 0x33, 0x44] \<and>
   bytes_le 2 (bswap16 0xaabb) = [0xaa, 0xbb] \<and>
   le64_to_cpu example_config (cpu_to_le64 example_config 0x0102030405060708) =
     0x0102030405060708"
  using bswap_reverses_bytes [of "0xaabb" example_config "0x11223344" "0x0102030405060708"]
  by (simp add: bytes_le_def upt_0_2 upt_0_4)

section \<open>Predicates of wim.h\<close>

text \<open>
  Claim C10. \<open>wim_has_metadata\<close> holds for every \<open>WIMStruct\<close> whose header has an image
  count of 0, also when \<open>image_metadata\<close> is \<open>NULL\<close>; when the image count is not 0, it
  holds exactly when \<open>image_metadata\<close> is not \<open>NULL\<close>.
\<close>

theorem wim_has_metadata_cases:
  "(image_count (hdr wim) = 0 \<longrightarrow> wim_has_metadata wim) \<and>
   (image_count (hdr wim) \<noteq> 0 \<longrightarrow> (wim_has_metadata wim \<longleftrightarrow> image_metadata wim \<noteq> None))"
  by (simp add: wim_has_metadata_def)

theorem wim_has_metadata_cases_witness:
  "image_count (hdr example_wim) = 0 \<and> image_metadata example_wim = None \<and>
   wim_has_metadata example_wim \<and>
   image_count (hdr (example_wim\<lparr>hdr := example_header\<lparr>image_count := 2\<rparr>\<rparr>)) \<noteq> 0 \<and>
   \<not> wim_has_metadata (example_wim\<lparr>hdr := example_header\<lparr>image_count := 2\<rparr>\<rparr>) \<and>
   wim_has_metadata
     (example_wim\<lparr>hdr := example_header\<lparr>image_count := 2\<rparr>, image_metadata := Some [1, 2]\<rparr>)"
  using wim_has_metadata_cases [of example_wim]
    wim_has_metadata_cases [of "example_wim\<lparr>hdr := example_header\<lparr>image_count := 2\<rparr>\<rparr>"]
    wim_has_metadata_cases
      [of "example_wim\<lparr>hdr := example_header\<lparr>image_count := 2\<rparr>, image_metadata := Some [1, 2]\<rparr>"]
  by (simp add: example_wim_def example_header_def)

section \<open>compress.c\<close>

lemma set_all_default_levels_nth:
  "k < length ls \<Longrightarrow>
   set_all_default_levels i l ls ! k =
     (if i \<le> k \<and> k < ARRAY_LEN_compressor_ops then l else ls ! k)"
proof (induction i l ls rule: set_all_default_levels.induct)
  case (1 i l ls)
  show ?case
  proof (cases "i < ARRAY_LEN_compressor_ops")
    case True
    then show ?thesis
      using 1 by (subst set_all_default_levels.simps) (auto simp: nth_list_update)
  next
    case False
    then show ?thesis
      by (subst set_all_default_levels.simps) auto
  qed
qed

lemma effective_compression_level_0:
  "effective_compression_level st ct 0 =
     (if default_compression_levels st ! nat ct = 0 then 50
      else default_compression_levels st ! nat ct)"
  by (simp add: effective_compression_level_def DEFAULT_COMPRESSION_LEVEL_def)

lemma ctype_valid_range:
  "compressor_ctype_valid cs ct \<Longrightarrow>
   0 \<le> ct \<and> nat ct < ARRAY_LEN_compressor_ops \<and> ct \<noteq> - 1"
  by (auto simp: compressor_ctype_valid_def)

lemma needed_memory_level_0:
  assumes "compressor_ctype_valid cs ct"
    and "get_needed_memory (the (compressor_ops cs ! nat ct)) = Some g"
  shows "wimlib_get_compressor_needed_memory cfg cs st ct mbs 0 =
           sizeof_wimlib_compressor cfg +
           g mbs (if default_compression_levels st ! nat ct = 0 then 50
                  else default_compression_levels st ! nat ct)"
  using assms
  by (simp add: wimlib_get_compressor_needed_memory_def effective_compression_level_0 Let_def)

lemma create_compressor_level_0:
  assumes "compressor_ctype_valid cs ct"
    and "create_compressor (the (compressor_ops cs ! nat ct)) = Some f"
    and "mbs \<noteq> 0"
    and "\<not> out_of_memory (mem st) (requests (mem st))"
  shows "fst (wimlib_create_compressor cs ct mbs 0 True st) =
           fst (f mbs (if default_compression_levels st ! nat ct = 0 then 50
                       else default_compression_levels st ! nat ct))"
    and "wimlib_create_compressor cs ct mbs 0 True st =
           wimlib_create_compressor cs ct mbs
             (if default_compression_levels st ! nat ct = 0 then 50
              else default_compression_levels st ! nat ct) True st"
  using assms
  by (auto simp add: wimlib_create_compressor_def effective_compression_level_def
      DEFAULT_COMPRESSION_LEVEL_def MALLOC_def Let_def split: prod.splits)

lemma set_default_level_one:
  assumes "compressor_ctype_valid cs ct"
  shows "wimlib_set_default_compression_level cs ct l st =
           (WIMLIB_ERR_SUCCESS,
            st\<lparr>default_compression_levels := (default_compression_levels st)[nat ct := l]\<rparr>)"
  using assms ctype_valid_range [OF assms]
  by (simp add: wimlib_set_default_compression_level_def)

lemma set_default_level_all:
  assumes "length (default_compression_levels st) = ARRAY_LEN_compressor_ops"
    and "compressor_ctype_valid cs ct"
  shows "effective_compression_level
           (snd (wimlib_set_default_compression_level cs (- 1) l st)) ct 0 =
           (if l = 0 then 50 else l)"
  using assms(1) ctype_valid_range [OF assms(2)]
  by (simp add: wimlib_set_default_compression_level_def effective_compression_level_0
      set_all_default_levels_nth)

text \<open>
  Claim C8. When \<open>wimlib_create_compressor\<close> or \<open>wimlib_get_compressor_needed_memory\<close> is
  called with a compression level of 0, the level handed to the codec is the default set
  before by \<open>wimlib_set_default_compression_level\<close> for that codec type, or 50 when none
  has been set; \<open>wimlib_set_default_compression_level\<close> with \<open>ctype = -1\<close> sets the default of
  every codec type and returns 0, and a \<open>ctype\<close> that is neither -1 nor valid gives
  \<open>WIMLIB_ERR_INVALID_COMPRESSION_TYPE\<close> and changes no default.
\<close>

theorem default_compression_level_used:
  fixes cs :: "'p codecs"
  assumes len: "length (default_compression_levels st) = ARRAY_LEN_compressor_ops"
    and valid: "compressor_ctype_valid cs ct"
  shows
    "(get_needed_memory (the (compressor_ops cs ! nat ct)) = Some g \<longrightarrow>
        wimlib_get_compressor_needed_memory cfg cs st ct mbs 0 =
          sizeof_wimlib_compressor cfg +
          g mbs (if default_compression_levels st ! nat ct = 0 then 50
                 else default_compression_levels st ! nat ct)) \<and>
     (create_compressor (the (compressor_ops cs ! nat ct)) = Some f \<and> mbs \<noteq> 0 \<and>
      \<not> out_of_memory (mem st) (requests (mem st)) \<longrightarrow>
        fst (wimlib_create_compressor cs ct mbs 0 True st) =
          fst (f mbs (if default_compression_levels st ! nat ct = 0 then 50
                      else default_compression_levels st ! nat ct)) \<and>
        wimlib_create_compressor cs ct mbs 0 True st =
          wimlib_create_compressor cs ct mbs
            (if default_compression_levels st ! nat ct = 0 then 50
             else default_compression_levels st ! nat ct) True st) \<and>
     (default_compression_levels st = initial_default_compression_levels \<longrightarrow>
        effective_compression_level st ct 0 = 50) \<and>
     wimlib_set_default_compression_level cs ct l st =
       (WIMLIB_ERR_SUCCESS,
        st\<lparr>default_compression_levels := (default_compression_levels st)[nat ct := l]\<rparr>) \<and>
     effective_compression_level (snd (wimlib_set_default_compression_level cs ct l st)) ct 0 =
       (if l = 0 then 50 else l) \<and>
     fst (wimlib_set_default_compression_level cs (- 1) l st) = WIMLIB_ERR_SUCCESS \<and>
     effective_compression_level
       (snd (wimlib_set_default_compression_level cs (- 1) l st)) ct 0 =
       (if l = 0 then 50 else l) \<and>
     (\<not> compressor_ctype_valid cs ct' \<and> ct' \<noteq> - 1 \<longrightarrow>
        wimlib_set_default_compression_level cs ct' l st =
          (WIMLIB_ERR_INVALID_COMPRESSION_TYPE, st))"
proof -
  note ct = ctype_valid_range [OF valid]
  have init: "default_compression_levels st = initial_default_compression_levels \<longrightarrow>
      effective_compression_level st ct 0 = 50"
    using ct
    by (simp add: effective_compression_level_0 initial_default_compression_levels_def)
  have one: "effective_compression_level
      (snd (wimlib_set_default_compression_level cs ct l st)) ct 0 = (if l = 0 then 50 else l)"
    using ct len by (simp add: set_default_level_one [OF valid] effective_compression_level_0)
  have allret: "fst (wimlib_set_default_compression_level cs (- 1) l st) = WIMLIB_ERR_SUCCESS"
    by (simp add: wimlib_set_default_compression_level_def)
  have inv: "\<not> compressor_ctype_valid cs ct' \<and> ct' \<noteq> - 1 \<longrightarrow>
      wimlib_set_default_compression_level cs ct' l st =
        (WIMLIB_ERR_INVALID_COMPRESSION_TYPE, st)"
    by (simp add: wimlib_set_default_compression_level_def)
  show ?thesis
    using needed_memory_level_0 [OF valid] create_compressor_level_0 [OF valid]
      init set_default_level_one [OF valid] one allret set_default_level_all [OF len valid] inv
    by blast
qed

theorem default_compression_level_used_witness:
  "length (default_compression_levels example_state) = ARRAY_LEN_compressor_ops \<and>
   compressor_ctype_valid example_codecs 2 \<and>
   wimlib_get_compressor_needed_memory example_config example_codecs example_state 2 100 0 =
     32 + example_get_needed_memory 100 50 \<and>
   fst (wimlib_create_compressor example_codecs 2 100 0 True example_state) =
     fst (example_create 100 50) \<and>
   effective_compression_level
     (snd (wimlib_set_default_compression_level example_codecs (- 1) 7 example_state)) 2 0 = 7 \<and>
   \<not> compressor_ctype_valid example_codecs 0 \<and>
   wimlib_set_default_compression_level example_codecs 0 7 example_state =
     (WIMLIB_ERR_INVALID_COMPRESSION_TYPE, example_state)"
proof -
  have len: "length (default_compression_levels example_state) = ARRAY_LEN_compressor_ops"
    by (simp add: example_state_def initial_default_compression_levels_def)
  have valid: "compressor_ctype_valid example_codecs 2"
    by (simp add: compressor_ctype_valid_def ARRAY_LEN_compressor_ops_def compressor_ops_def)
  have inv: "\<not> compressor_ctype_valid example_codecs 0"
    by (simp add: compressor_ctype_valid_def ARRAY_LEN_compressor_ops_def compressor_ops_def)
  have g: "get_needed_memory (the (compressor_ops example_codecs ! 2)) =
      Some example_get_needed_memory"
    by (simp add: compressor_ops_def example_codecs_def example_ops_def)
  have f: "create_compressor (the (compressor_ops example_codecs ! 2)) =
      Some example_create"
    by (simp add: compressor_ops_def example_codecs_def example_ops_def)
  have lvl: "default_compression_levels example_state ! 2 = 0"
    by (simp add: example_state_def initial_default_compression_levels_def
        ARRAY_LEN_compressor_ops_def)
  have oom: "\<not> out_of_memory (mem example_state) (requests (mem example_state))"
    by (simp add: example_state_def never_out_of_memory_def)
  have sz: "sizeof_wimlib_compressor example_config = 32"
    by (simp add: example_config_def)
  have h: "create_compressor (the (compressor_ops example_codecs ! nat 2)) =
      Some example_create \<and> (100::nat) \<noteq> 0 \<and>
      \<not> out_of_memory (mem example_state) (requests (mem example_state))"
    by (simp add: f oom)
  note T = default_compression_level_used [OF len valid, of example_get_needed_memory
      example_config 100 example_create 7 0]
  from T [THEN conjunct1]
  have w1: "wimlib_get_compressor_needed_memory example_config example_codecs example_state
      2 100 0 = 32 + example_get_needed_memory 100 50"
    by (simp add: g lvl sz)
  from T [THEN conjunct2, THEN conjunct1, THEN mp, OF h, THEN conjunct1]
  have w2: "fst (wimlib_create_compressor example_codecs 2 100 0 True example_state) =
      fst (example_create 100 50)"
    by (simp add: lvl)
  from T [THEN conjunct2, THEN conjunct2, THEN conjunct2, THEN conjunct2]
  have w3: "effective_compression_level
      (snd (wimlib_set_default_compression_level example_codecs (- 1) 7 example_state)) 2 0 = 7"
    and w4: "wimlib_set_default_compression_level example_codecs 0 7 example_state =
      (WIMLIB_ERR_INVALID_COMPRESSION_TYPE, example_state)"
    using inv by simp_all
  from len valid inv w1 w2 w3 w4 show ?thesis
    by blast
qed

text \<open>
  Claim C4, as stated: for every compression type that is not a supported codec id,
  \<open>wimlib_create_compressor\<close> returns \<open>WIMLIB_ERR_INVALID_COMPRESSION_TYPE\<close>. The parameter
  checks come first: with a block size of 0 the result is \<open>WIMLIB_ERR_INVALID_PARAM\<close>, also
  for the unsupported type 7.
\<close>

theorem create_compressor_invalid_type_counterexample:
  "\<not> compressor_ctype_valid example_codecs 7 \<and>
   fst (wimlib_create_compressor example_codecs 7 0 50 True example_state) \<noteq>
     WIMLIB_ERR_INVALID_COMPRESSION_TYPE"
  by (simp add: wimlib_create_compressor_def compressor_ctype_valid_def
      ARRAY_LEN_compressor_ops_def)

text \<open>
  Claim C4, amended. A \<open>NULL\<close> \<open>c_ret\<close> or a \<open>max_block_size\<close> of 0 gives
  \<open>WIMLIB_ERR_INVALID_PARAM\<close>, whatever the compression type; otherwise a compression type
  that is not a supported codec id gives \<open>WIMLIB_ERR_INVALID_COMPRESSION_TYPE\<close>; in both
  cases nothing is allocated, the state is unchanged and \<open>*c_ret\<close> is not written. If the
  codec's \<open>create_compressor\<close> fails, the \<open>wimlib_compressor\<close> just allocated is freed,
  \<open>*c_ret\<close> is not written and the codec's error code is returned.
\<close>

theorem create_compressor_errors:
  fixes cs :: "'p codecs"
  shows
    "(\<not> c_ret_given \<or> mbs = 0 \<longrightarrow>
        wimlib_create_compressor cs ct mbs level c_ret_given st =
          (WIMLIB_ERR_INVALID_PARAM, None, st)) \<and>
     (c_ret_given \<and> mbs \<noteq> 0 \<and> \<not> compressor_ctype_valid cs ct \<longrightarrow>
        wimlib_create_compressor cs ct mbs level c_ret_given st =
          (WIMLIB_ERR_INVALID_COMPRESSION_TYPE, None, st)) \<and>
     (c_ret_given \<and> mbs \<noteq> 0 \<and> compressor_ctype_valid cs ct \<and>
      \<not> out_of_memory (mem st) (requests (mem st)) \<and>
      (\<forall>a \<in> set (live (mem st)). a \<le> requests (mem st)) \<and>
      create_compressor (the (compressor_ops cs ! nat ct)) = Some f \<and>
      fst (f mbs (effective_compression_level st ct level)) \<noteq> WIMLIB_ERR_SUCCESS \<longrightarrow>
        (case wimlib_create_compressor cs ct mbs level c_ret_given st of
           (ret, written, st') \<Rightarrow>
             ret = fst (f mbs (effective_compression_level st ct level)) \<and>
             written = None \<and>
             live (mem st') = live (mem st) \<and>
             Suc (requests (mem st)) \<notin> set (live (mem st')) \<and>
             default_compression_levels st' = default_compression_levels st))"
proof -
  have fresh: "removeAll (Suc (requests (mem st))) (live (mem st)) = live (mem st)"
    if "\<forall>a \<in> set (live (mem st)). a \<le> requests (mem st)"
    using that by (intro removeAll_id) auto
  show ?thesis
    by (auto simp add: wimlib_create_compressor_def MALLOC_def FREE_def Let_def fresh
        split: prod.splits)
qed

theorem create_compressor_errors_witness:
  "wimlib_create_compressor example_codecs 2 0 50 True example_state =
     (WIMLIB_ERR_INVALID_PARAM, None, example_state) \<and>
   wimlib_create_compressor example_codecs 7 100 50 True example_state =
     (WIMLIB_ERR_INVALID_COMPRESSION_TYPE, None, example_state) \<and>
   fst (wimlib_create_compressor example_codecs 2 100 5 True example_state) =
     WIMLIB_ERR_INVALID_PARAM \<and>
   fst (snd (wimlib_create_compressor example_codecs 2 100 5 True example_state)) = None \<and>
   live (mem (snd (snd (wimlib_create_compressor example_codecs 2 100 5 True example_state)))) = []"
proof -
  have valid: "compressor_ctype_valid example_codecs 2"
    by (simp add: compressor_ctype_valid_def ARRAY_LEN_compressor_ops_def compressor_ops_def)
  have inv: "\<not> compressor_ctype_valid example_codecs 7"
    by (simp add: compressor_ctype_valid_def ARRAY_LEN_compressor_ops_def compressor_ops_def)
  have f: "create_compressor (the (compressor_ops example_codecs ! 2)) =
      Some example_create"
    by (simp add: compressor_ops_def example_codecs_def example_ops_def)
  have eff: "effective_compression_level example_state 2 5 = 5"
    by (simp add: effective_compression_level_def)
  have fails: "fst (example_create 100 5) = WIMLIB_ERR_INVALID_PARAM"
    by (simp add: example_create_def)
  have oom: "\<not> out_of_memory (mem example_state) (requests (mem example_state))"
    by (simp add: example_state_def never_out_of_memory_def)
  have lv: "live (mem example_state) = []"
    by (simp add: example_state_def)
  from create_compressor_errors [of True 0 example_codecs 2 50 example_state example_create]
  have a: "wimlib_create_compressor example_codecs 2 0 50 True example_state =
      (WIMLIB_ERR_INVALID_PARAM, None, example_state)"
    by simp
  from create_compressor_errors [of True 100 example_codecs 7 50 example_state example_create]
  have b: "wimlib_create_compressor example_codecs 7 100 50 True example_state =
      (WIMLIB_ERR_INVALID_COMPRESSION_TYPE, None, example_state)"
    using inv by simp
  from create_compressor_errors [of True 100 example_codecs 2 5 example_state example_create]
  have c: "case wimlib_create_compressor example_codecs 2 100 5 True example_state of
      (ret, written, st') \<Rightarrow> ret = WIMLIB_ERR_INVALID_PARAM \<and> written = None \<and>
        live (mem st') = []"
    using valid by (simp add: f eff fails oom lv split: prod.splits)
  from a b c show ?thesis
    by (simp split: prod.splits)
qed

text \<open>The outcomes of \<open>wimlib_compress\<close>, one lemma for each path through the function.\<close>

lemma wimlib_compress_no_verification:
  assumes "length data \<le> max_block_size c"
    and "\<not> ENABLE_VERIFY_COMPRESSION cfg \<or> fst (compress (ops c) data avail (c_private c)) = 0"
  shows "wimlib_compress cfg dfn data avail c st =
           Returned (fst (compress (ops c) data avail (c_private c)),
                     snd (compress (ops c) data avail (c_private c)), st)"
  using assms by (auto simp add: wimlib_compress_def Let_def split: prod.splits)

lemma wimlib_compress_no_buffer:
  assumes "length data \<le> max_block_size c"
    and "ENABLE_VERIFY_COMPRESSION cfg"
    and "fst (compress (ops c) data avail (c_private c)) \<noteq> 0"
    and "out_of_memory (mem st) (requests (mem st))"
  shows "\<exists>cdata st'. wimlib_compress cfg dfn data avail c st = Returned (0, cdata, st')"
  using assms by (auto simp add: wimlib_compress_def MALLOC_def Let_def split: prod.splits)

lemma wimlib_compress_no_decompressor:
  assumes "length data \<le> max_block_size c"
    and "ENABLE_VERIFY_COMPRESSION cfg"
    and "fst (compress (ops c) data avail (c_private c)) \<noteq> 0"
    and "\<not> out_of_memory (mem st) (requests (mem st))"
    and "create_decompressor dfn (ctype c) (max_block_size c) \<noteq> WIMLIB_ERR_SUCCESS"
  shows "\<exists>cdata st'. wimlib_compress cfg dfn data avail c st = Returned (0, cdata, st')"
  using assms by (auto simp add: wimlib_compress_def MALLOC_def Let_def split: prod.splits)

lemma wimlib_compress_verified:
  assumes "length data \<le> max_block_size c"
    and "ENABLE_VERIFY_COMPRESSION cfg"
    and "compress (ops c) data avail (c_private c) = (csize, cdata)"
    and "csize \<noteq> 0"
    and "\<not> out_of_memory (mem st) (requests (mem st))"
    and "create_decompressor dfn (ctype c) (max_block_size c) = WIMLIB_ERR_SUCCESS"
    and "decompress dfn cdata csize (length data) = (res, buf)"
  shows "wimlib_compress cfg dfn data avail c st =
           (if res \<noteq> WIMLIB_ERR_SUCCESS \<or> take (length data) buf \<noteq> data then Aborted
            else Returned (csize, cdata,
                   st\<lparr>mem := FREE (Suc (requests (mem st)))
                     (mem st\<lparr>live := Suc (requests (mem st)) # live (mem st),
                        requests := Suc (requests (mem st))\<rparr>)\<rparr>))"
  using assms by (auto simp add: wimlib_compress_def MALLOC_def Let_def split: prod.splits)

text \<open>
  Claim C2, as stated: when the round-trip verification fails, a corruption error is
  propagated to the caller. With verification compiled in and a decompressor that reports
  failure, \<open>wimlib_compress\<close> does not return to its caller at all.
\<close>

theorem verification_failure_counterexample:
  "\<not> (\<exists>r. wimlib_compress example_config failing_decompressor [1, 2, 3] 2 example_compressor
          example_state = Returned r)"
  by (simp add: wimlib_compress_def example_config_def failing_decompressor_def
      example_compressor_def example_ops_def example_compress_def example_state_def
      never_out_of_memory_def create_decompressor_ok_def decompress_failing_def MALLOC_def)

text \<open>
  Claim C2, amended. When round-trip verification is enabled, if decompressing the chunk
  just produced by the codec fails or does not reproduce the original bytes, the mismatch
  is fatal: \<open>wimlib_compress\<close> calls \<open>abort()\<close>, which ends the process; it does not return
  and no error code reaches the caller.
\<close>

theorem verification_failure_aborts:
  assumes "ENABLE_VERIFY_COMPRESSION cfg"
    and "compress (ops c) data avail (c_private c) = (csize, cdata)"
    and "csize \<noteq> 0"
    and "\<not> out_of_memory (mem st) (requests (mem st))"
    and "create_decompressor dfn (ctype c) (max_block_size c) = WIMLIB_ERR_SUCCESS"
    and "decompress dfn cdata csize (length data) = (res, buf)"
    and "res \<noteq> WIMLIB_ERR_SUCCESS \<or> take (length data) buf \<noteq> data"
  shows "wimlib_compress cfg dfn data avail c st = Aborted"
  using assms by (auto simp add: wimlib_compress_def MALLOC_def Let_def split: prod.splits)

theorem verification_failure_aborts_witness:
  "ENABLE_VERIFY_COMPRESSION example_config \<and>
   compress (ops example_compressor) [9, 8, 7] 2 (c_private example_compressor) = (1, [9]) \<and>
   decompress wrong_decompressor [9] 1 (length [9, 8, 7 :: u8]) = (WIMLIB_ERR_SUCCESS, [0, 0, 0]) \<and>
   wimlib_compress example_config wrong_decompressor [9, 8, 7] 2 example_compressor
     example_state = Aborted"
proof -
  have v: "ENABLE_VERIFY_COMPRESSION example_config"
    by (simp add: example_config_def)
  have c: "compress (ops example_compressor) [9, 8, 7] 2 (c_private example_compressor) =
      (1, [9])"
    by (simp add: example_compressor_def example_ops_def example_compress_def)
  have m: "\<not> out_of_memory (mem example_state) (requests (mem example_state))"
    by (simp add: example_state_def never_out_of_memory_def)
  have d: "create_decompressor wrong_decompressor (ctype example_compressor)
      (max_block_size example_compressor) = WIMLIB_ERR_SUCCESS"
    by (simp add: wrong_decompressor_def create_decompressor_ok_def)
  have r: "decompress wrong_decompressor [9] 1 (length [9, 8, 7 :: u8]) =
      (WIMLIB_ERR_SUCCESS, [0, 0, 0])"
    by (simp add: wrong_decompressor_def decompress_zeros_def)
  have ne: "WIMLIB_ERR_SUCCESS \<noteq> WIMLIB_ERR_SUCCESS \<or>
      take (length [9, 8, 7 :: u8]) [0, 0, 0] \<noteq> [9, 8, 7 :: u8]"
    by simp
  from verification_failure_aborts [OF v c _ m d r ne] v c r show ?thesis
    by simp
qed

text \<open>
  Claim C3, as stated: for every block within the maximum block size, \<open>wimlib_compress\<close>
  returns the codec's compressed size or 0. With verification compiled in and a
  decompressor that gives back other bytes, it returns nothing: the process is aborted.
\<close>

theorem compress_returns_counterexample:
  "length [4, 5 :: u8] \<le> max_block_size example_compressor \<and>
   wimlib_compress example_config wrong_decompressor [4, 5] 1 example_compressor
     example_state = Aborted"
  by (simp add: wimlib_compress_def example_config_def wrong_decompressor_def
      example_compressor_def example_ops_def example_compress_def example_state_def
      never_out_of_memory_def create_decompressor_ok_def decompress_zeros_def MALLOC_def)

text \<open>
  Claim C3, amended. For every block within the maximum block size, \<open>wimlib_compress\<close>
  either returns the codec's compressed size or 0, or ends the process through \<open>abort()\<close>;
  it aborts only when verification is compiled in, the codec's size is not 0, the buffer
  and the decompressor were obtained, and the round trip failed. A return of 0 is no error.
  A failure to allocate the verification buffer or to create the decompressor gives a
  return of 0; without verification the codec's size is returned as it is.
\<close>

theorem compress_result:
  assumes pre: "length data \<le> max_block_size c"
  shows
    "(case wimlib_compress cfg dfn data avail c st of
        Returned (n, cdata, st') \<Rightarrow>
          n = fst (compress (ops c) data avail (c_private c)) \<or> n = 0
      | Aborted \<Rightarrow>
          ENABLE_VERIFY_COMPRESSION cfg \<and>
          fst (compress (ops c) data avail (c_private c)) \<noteq> 0 \<and>
          \<not> out_of_memory (mem st) (requests (mem st)) \<and>
          create_decompressor dfn (ctype c) (max_block_size c) = WIMLIB_ERR_SUCCESS \<and>
          (fst (decompress dfn (snd (compress (ops c) data avail (c_private c)))
                 (fst (compress (ops c) data avail (c_private c))) (length data))
             \<noteq> WIMLIB_ERR_SUCCESS \<or>
           take (length data)
             (snd (decompress dfn (snd (compress (ops c) data avail (c_private c)))
                    (fst (compress (ops c) data avail (c_private c))) (length data)))
             \<noteq> data)) \<and>
     (ENABLE_VERIFY_COMPRESSION cfg \<and>
      fst (compress (ops c) data avail (c_private c)) \<noteq> 0 \<and>
      (out_of_memory (mem st) (requests (mem st)) \<or>
       create_decompressor dfn (ctype c) (max_block_size c) \<noteq> WIMLIB_ERR_SUCCESS) \<longrightarrow>
        (\<exists>cdata st'. wimlib_compress cfg dfn data avail c st = Returned (0, cdata, st'))) \<and>
     (\<not> ENABLE_VERIFY_COMPRESSION cfg \<longrightarrow>
        wimlib_compress cfg dfn data avail c st =
          Returned (fst (compress (ops c) data avail (c_private c)),
                    snd (compress (ops c) data avail (c_private c)), st))"
proof (intro conjI impI)
  show "case wimlib_compress cfg dfn data avail c st of
        Returned (n, cdata, st') \<Rightarrow>
          n = fst (compress (ops c) data avail (c_private c)) \<or> n = 0
      | Aborted \<Rightarrow>
          ENABLE_VERIFY_COMPRESSION cfg \<and>
          fst (compress (ops c) data avail (c_private c)) \<noteq> 0 \<and>
          \<not> out_of_memory (mem st) (requests (mem st)) \<and>
          create_decompressor dfn (ctype c) (max_block_size c) = WIMLIB_ERR_SUCCESS \<and>
          (fst (decompress dfn (snd (compress (ops c) data avail (c_private c)))
                 (fst (compress (ops c) data avail (c_private c))) (length data))
             \<noteq> WIMLIB_ERR_SUCCESS \<or>
           take (length data)
             (snd (decompress dfn (snd (compress (ops c) data avail (c_private c)))
                    (fst (compress (ops c) data avail (c_private c))) (length data)))
             \<noteq> data)"
    using pre
    by (auto simp add: wimlib_compress_def MALLOC_def Let_def
        split: prod.splits outcome.splits if_splits)
next
  assume "ENABLE_VERIFY_COMPRESSION cfg \<and>
      fst (compress (ops c) data avail (c_private c)) \<noteq> 0 \<and>
      (out_of_memory (mem st) (requests (mem st)) \<or>
       create_decompressor dfn (ctype c) (max_block_size c) \<noteq> WIMLIB_ERR_SUCCESS)"
  then show "\<exists>cdata st'. wimlib_compress cfg dfn data avail c st = Returned (0, cdata, st')"
    using wimlib_compress_no_buffer [OF pre] wimlib_compress_no_decompressor [OF pre]
    by blast
next
  assume "\<not> ENABLE_VERIFY_COMPRESSION cfg"
  then show "wimlib_compress cfg dfn data avail c st =
          Returned (fst (compress (ops c) data avail (c_private c)),
                    snd (compress (ops c) data avail (c_private c)), st)"
    using wimlib_compress_no_verification [OF pre] by blast
qed

theorem compress_result_witness:
  "length [5 :: u8] \<le> max_block_size example_compressor \<and>
   wimlib_compress example_config wrong_decompressor [5] 0 example_compressor example_state =
     Returned (0, [], example_state) \<and>
   wimlib_compress (example_config\<lparr>ENABLE_VERIFY_COMPRESSION := False\<rparr>) wrong_decompressor
     [6, 7, 8] 2 example_compressor example_state = Returned (1, [6], example_state)"
proof -
  have pre1: "length [5 :: u8] \<le> max_block_size example_compressor"
    and pre2: "length [6, 7, 8 :: u8] \<le> max_block_size example_compressor"
    by (simp_all add: example_compressor_def)
  have c1: "compress (ops example_compressor) [5] 0 (c_private example_compressor) = (0, [])"
    and c2: "compress (ops example_compressor) [6, 7, 8] 2 (c_private example_compressor) =
      (1, [6])"
    by (simp_all add: example_compressor_def example_ops_def example_compress_def)
  have nv: "\<not> ENABLE_VERIFY_COMPRESSION (example_config\<lparr>ENABLE_VERIFY_COMPRESSION := False\<rparr>)"
    by simp
  from compress_result [where cfg = "example_config\<lparr>ENABLE_VERIFY_COMPRESSION := False\<rparr>"
      and dfn = wrong_decompressor and avail = 2 and st = example_state, OF pre2,
      THEN conjunct2, THEN conjunct2, THEN mp, OF nv]
  have w2: "wimlib_compress (example_config\<lparr>ENABLE_VERIFY_COMPRESSION := False\<rparr>)
      wrong_decompressor [6, 7, 8] 2 example_compressor example_state =
      Returned (1, [6], example_state)"
    by (simp add: c2)
  have w1: "wimlib_compress example_config wrong_decompressor [5] 0 example_compressor
      example_state = Returned (0, [], example_state)"
    using wimlib_compress_no_verification [where cfg = example_config and avail = 0
        and dfn = wrong_decompressor and st = example_state, OF pre1]
    by (simp add: c1)
  from compress_result [where cfg = example_config and dfn = wrong_decompressor
      and avail = 0 and st = example_state, OF pre1, THEN conjunct1] w1
  have "0 = fst (compress (ops example_compressor) [5] 0 (c_private example_compressor)) \<or>
      (0::nat) = 0"
    by simp
  with pre1 w1 w2 show ?thesis
    by blast
qed

section \<open>unix_apply.c: path buffers\<close>

lemma unix_build_extraction_path_Some:
  assumes "unix_build_extraction_path dentry ctx = Some (i, ctx')"
  shows "i = unat (which_pathbuf ctx)"
    and "i < length (pathbufs ctx)"
    and "which_pathbuf ctx' = (which_pathbuf ctx + 1) mod NUM_PATHBUFS"
    and "open_fds ctx' = open_fds ctx"
    and "num_open_fds ctx' = num_open_fds ctx"
    and "extract_flags ctx' = extract_flags ctx"
    and "num_special_files_ignored ctx' = num_special_files_ignored ctx"
    and "length (pathbufs ctx') = length (pathbufs ctx)"
  using assms
  by (auto simp add: unix_build_extraction_path_def Let_def split: if_splits)

lemma mod_NUM_PATHBUFS_less: "(x :: u32) mod NUM_PATHBUFS < 2"
  by (simp add: NUM_PATHBUFS_def word_mod_less_divisor)

lemma which_pathbuf_cases: "(x :: u32) < 2 \<Longrightarrow> x = 0 \<or> x = 1"
  by unat_arith

lemma reuse_after_advance:
  "(x :: u32) < 2 \<Longrightarrow> ((x + 1) mod NUM_PATHBUFS - 1) mod NUM_PATHBUFS = x"
  by (auto dest!: which_pathbuf_cases simp: NUM_PATHBUFS_def)

lemma wrap_at_zero: "((0 :: u32) - 1) = 0xFFFFFFFF \<and> ((0 :: u32) - 1) mod NUM_PATHBUFS = 1"
  by (simp add: NUM_PATHBUFS_def)

section \<open>unix_apply.c: special files\<close>

lemma mknod_retry_EPERM:
  "script w = concat (replicate k [Fail EEXIST, Ok 0]) @ Fail EPERM # rest \<Longrightarrow>
   mknod_retry path m dev w =
     Some (Mknod_EPERM,
       w\<lparr>script := rest,
          calls := calls w @ concat (replicate k [Sys_mknod path m dev, Sys_unlink path]) @
                   [Sys_mknod path m dev],
          w_errno := EPERM\<rparr>)"
proof (induction k arbitrary: w)
  case 0
  then show ?case
    by (subst mknod_retry.simps) (simp add: sys_def failed_def)
next
  case (Suc k)
  let ?w2 = "w\<lparr>script := concat (replicate k [Fail EEXIST, Ok 0]) @ Fail EPERM # rest,
              calls := calls w @ [Sys_mknod path m dev, Sys_unlink path],
              w_errno := EEXIST\<rparr>"
  have step: "mknod_retry path m dev w = mknod_retry path m dev ?w2"
    using Suc.prems by (subst mknod_retry.simps) (simp add: sys_def failed_def)
  have "script ?w2 = concat (replicate k [Fail EEXIST, Ok 0]) @ Fail EPERM # rest"
    by simp
  from Suc.IH [OF this] step show ?case
    by simp
qed

text \<open>
  Claim C1, as stated: with UNIX data, an \<open>EPERM\<close> from \<open>mknod\<close> is downgraded to a warning
  unless strict mode is requested, in which case the error is reported to the caller. With
  both strict flags set the function still returns success and counts the file.
\<close>

theorem special_file_strict_counterexample:
  "WIMLIB_EXTRACT_FLAG_UNIX_DATA \<in> extract_flags strict_ctx \<and>
   WIMLIB_EXTRACT_FLAG_STRICT_ACLS \<in> extract_flags strict_ctx \<and>
   WIMLIB_EXTRACT_FLAG_STRICT_TIMESTAMPS \<in> extract_flags strict_ctx \<and>
   map_option fst
     (unix_extract_if_empty_file example_config dev_dentry dev_inode strict_ctx
        (world_with [Fail EPERM])) = Some WIMLIB_ERR_SUCCESS \<and>
   map_option (\<lambda>r. num_special_files_ignored (fst (snd r)))
     (unix_extract_if_empty_file example_config dev_dentry dev_inode strict_ctx
        (world_with [Fail EPERM])) = Some 1 \<and>
   map_option (\<lambda>r. printed (snd (snd r)))
     (unix_extract_if_empty_file example_config dev_dentry dev_inode strict_ctx
        (world_with [Fail EPERM])) = Some [WARNING ''Can't create special file'']"
  by (simp add: unix_extract_if_empty_file_def inode_first_extraction_dentry_def
      dev_inode_def dev_dentry_def root_dentry_def strict_ctx_def dev_unix_data_def
      S_ISREG_def unix_build_extraction_path_def empty_pathbuf_def memcpy_def Let_def
      mknod_retry.simps sys_def world_with_def failed_def print_def NUM_PATHBUFS_def)

text \<open>
  Claim C1, amended. During UNIX apply with UNIX-data mode enabled, when creating a
  special file with \<open>mknod\<close> fails with \<open>EPERM\<close> (at once, or after retries in which an
  existing file was unlinked), the error is downgraded to a warning and the counter
  \<open>num_special_files_ignored\<close> is incremented; the function returns success for that
  file, so that the loop over the extraction list goes on with the next file. This holds
  whatever the strict flags are: no strict mode turns this \<open>EPERM\<close> into an error.
\<close>

theorem special_file_EPERM_is_ignored:
  assumes "inode_first_extraction_dentry inode = Some first"
    and "d_addr dentry = d_addr first"
    and "\<not> inode_is_directory inode"
    and "\<not> inode_is_symlink inode"
    and "\<not> inode_unnamed_lte_resolved inode"
    and "WIMLIB_EXTRACT_FLAG_UNIX_DATA \<in> extract_flags ctx"
    and "inode_get_unix_data inode = Some unix_data"
    and "\<not> S_ISREG (mode unix_data)"
    and "unix_build_extraction_path dentry ctx = Some (path, ctx1)"
    and "script w = concat (replicate k [Fail EEXIST, Ok 0]) @ Fail EPERM # rest"
  shows
    "unix_extract_if_empty_file cfg dentry inode ctx w =
       Some (WIMLIB_ERR_SUCCESS,
         ctx1\<lparr>num_special_files_ignored := num_special_files_ignored ctx + 1\<rparr>,
         w\<lparr>script := rest,
            calls := calls w @
              concat (replicate k
                [Sys_mknod (path_string ctx1 path) (mode unix_data) (rdev unix_data),
                 Sys_unlink (path_string ctx1 path)]) @
              [Sys_mknod (path_string ctx1 path) (mode unix_data) (rdev unix_data)],
            w_errno := EPERM,
            printed := printed w @ [WARNING ''Can't create special file'']\<rparr>) \<and>
     extract_empty_files cfg ((dentry, inode) # others) ctx w =
       extract_empty_files cfg others
         (ctx1\<lparr>num_special_files_ignored := num_special_files_ignored ctx + 1\<rparr>)
         (w\<lparr>script := rest,
            calls := calls w @
              concat (replicate k
                [Sys_mknod (path_string ctx1 path) (mode unix_data) (rdev unix_data),
                 Sys_unlink (path_string ctx1 path)]) @
              [Sys_mknod (path_string ctx1 path) (mode unix_data) (rdev unix_data)],
            w_errno := EPERM,
            printed := printed w @ [WARNING ''Can't create special file'']\<rparr>)"
proof -
  have one: "unix_extract_if_empty_file cfg dentry inode ctx w =
       Some (WIMLIB_ERR_SUCCESS,
         ctx1\<lparr>num_special_files_ignored := num_special_files_ignored ctx + 1\<rparr>,
         w\<lparr>script := rest,
            calls := calls w @
              concat (replicate k
                [Sys_mknod (path_string ctx1 path) (mode unix_data) (rdev unix_data),
                 Sys_unlink (path_string ctx1 path)]) @
              [Sys_mknod (path_string ctx1 path) (mode unix_data) (rdev unix_data)],
            w_errno := EPERM,
            printed := printed w @ [WARNING ''Can't create special file'']\<rparr>)"
    using assms(1-9) mknod_retry_EPERM [OF assms(10)]
      unix_build_extraction_path_Some(7) [OF assms(9)]
    by (simp add: unix_extract_if_empty_file_def print_def)
  then show ?thesis
    by simp
qed

theorem special_file_EPERM_is_ignored_witness:
  "unix_build_extraction_path dev_dentry strict_ctx \<noteq> None \<and>
   map_option fst
     (unix_extract_if_empty_file example_config dev_dentry dev_inode strict_ctx
        (world_with [Fail EEXIST, Ok 0, Fail EPERM, Ok 0])) = Some WIMLIB_ERR_SUCCESS \<and>
   map_option (\<lambda>r. num_special_files_ignored (fst (snd r)))
     (unix_extract_if_empty_file example_config dev_dentry dev_inode strict_ctx
        (world_with [Fail EEXIST, Ok 0, Fail EPERM, Ok 0])) = Some 1 \<and>
   map_option (\<lambda>r. script (snd (snd r)))
     (unix_extract_if_empty_file example_config dev_dentry dev_inode strict_ctx
        (world_with [Fail EEXIST, Ok 0, Fail EPERM, Ok 0])) = Some [Ok 0]"
proof -
  have h1: "inode_first_extraction_dentry dev_inode = Some dev_dentry"
    by (simp add: inode_first_extraction_dentry_def dev_inode_def)
  have h3: "\<not> inode_is_directory dev_inode" and h4: "\<not> inode_is_symlink dev_inode"
    and h5: "\<not> inode_unnamed_lte_resolved dev_inode"
    and h7: "inode_get_unix_data dev_inode = Some dev_unix_data"
    by (simp_all add: dev_inode_def)
  have h6: "WIMLIB_EXTRACT_FLAG_UNIX_DATA \<in> extract_flags strict_ctx"
    and z: "num_special_files_ignored strict_ctx = 0"
    by (simp_all add: strict_ctx_def)
  have h8: "\<not> S_ISREG (mode dev_unix_data)"
    by (simp add: S_ISREG_def dev_unix_data_def)
  obtain ctx1 where h9: "unix_build_extraction_path dev_dentry strict_ctx = Some (0, ctx1)"
    by (simp add: unix_build_extraction_path_def strict_ctx_def dev_dentry_def
        root_dentry_def empty_pathbuf_def memcpy_def Let_def)
  have h10: "script (world_with [Fail EEXIST, Ok 0, Fail EPERM, Ok 0]) =
      concat (replicate 1 [Fail EEXIST, Ok 0]) @ Fail EPERM # [Ok 0]"
    by (simp add: world_with_def)
  from special_file_EPERM_is_ignored [OF h1 refl h3 h4 h5 h6 h7 h8 h9 h10, of example_config "[]"]
    h9 z
  show ?thesis
    by simp
qed

section \<open>unix_apply.c: descriptors of a stream\<close>

text \<open>
  What the functions leave unchanged: none of them touches \<open>open_fds\<close> and \<open>num_open_fds\<close>
  before the descriptors are closed, and the record of the calls only grows.
\<close>

lemma sys_Some:
  assumes "sys c w = Some (r, w')"
  shows "calls w' = calls w @ [c]" and "script w = r # script w'"
  using assms by (auto simp: sys_def split: list.splits)

lemma and_not_call_calls:
  "and_not_call b c w = Some (ok, w') \<Longrightarrow> \<exists>t. calls w' = calls w @ t"
  by (auto simp: and_not_call_def dest: sys_Some(1) split: if_splits option.splits)

lemma unix_set_timestamps_calls:
  assumes "unix_set_timestamps cfg fdn path atime mtime w = Some (ret, w')"
  shows "\<exists>t. calls w' = calls w @ t"
proof -
  from assms obtain ok1 w1 where
    a1: "and_not_call (HAVE_FUTIMENS cfg \<and> fdn \<ge> 0) (Sys_futimens fdn atime mtime)
           (w\<lparr>w_errno := ENOSYS\<rparr>) = Some (ok1, w1)"
    by (auto simp: unix_set_timestamps_def bind_eq_Some_conv)
  from and_not_call_calls [OF a1] obtain t1 where t1: "calls w1 = calls w @ t1"
    by auto
  show ?thesis
  proof (cases ok1)
    case True
    with assms a1 t1 show ?thesis
      by (auto simp: unix_set_timestamps_def)
  next
    case False
    with assms a1 obtain ok2 w2 where
      a2: "and_not_call (HAVE_UTIMENSAT cfg \<and> fdn < 0) (Sys_utimensat path atime mtime) w1 =
             Some (ok2, w2)"
      by (auto simp: unix_set_timestamps_def bind_eq_Some_conv)
    from and_not_call_calls [OF a2] t1 obtain t2 where t2: "calls w2 = calls w @ t2"
      by auto
    show ?thesis
    proof (cases "ok2 \<or> w_errno w2 \<noteq> ENOSYS")
      case True
      with assms a1 a2 False t2 show ?thesis
        by (auto simp: unix_set_timestamps_def split: if_splits)
    next
      case stay: False
      with assms a1 a2 False obtain ok3 w3 where
        a3: "and_not_call (fdn \<ge> 0) (Sys_futimes fdn atime mtime) w2 = Some (ok3, w3)"
        by (auto simp: unix_set_timestamps_def bind_eq_Some_conv)
      from and_not_call_calls [OF a3] t2 obtain t3 where t3: "calls w3 = calls w @ t3"
        by auto
      show ?thesis
      proof (cases ok3)
        case True
        with assms a1 a2 a3 False stay t3 show ?thesis
          by (auto simp: unix_set_timestamps_def)
      next
        case no3: False
        with assms a1 a2 a3 False stay obtain ok4 w4 where
          a4: "and_not_call (fdn < 0) (Sys_lutimes path atime mtime) w3 = Some (ok4, w4)"
          and w': "w' = w4"
          by (auto simp: unix_set_timestamps_def bind_eq_Some_conv split: if_splits)
        from and_not_call_calls [OF a4] t3 w' show ?thesis
          by auto
      qed
    qed
  qed
qed

lemma unix_set_owner_and_group_calls:
  assumes "unix_set_owner_and_group fdn path u g w = Some (ret, w')"
  shows "\<exists>t. calls w' = calls w @ t"
proof -
  from assms obtain ok1 w1 where
    a1: "and_not_call (fdn \<ge> 0) (Sys_fchown fdn u g) w = Some (ok1, w1)"
    by (auto simp: unix_set_owner_and_group_def bind_eq_Some_conv)
  from and_not_call_calls [OF a1] obtain t1 where t1: "calls w1 = calls w @ t1"
    by auto
  show ?thesis
  proof (cases ok1)
    case True
    with assms a1 t1 show ?thesis
      by (auto simp: unix_set_owner_and_group_def)
  next
    case False
    with assms a1 obtain ok2 w2 where
      a2: "and_not_call (fdn < 0) (Sys_lchown path u g) w1 = Some (ok2, w2)" and "w' = w2"
      by (auto simp: unix_set_owner_and_group_def bind_eq_Some_conv split: if_splits)
    with and_not_call_calls [OF a2] t1 show ?thesis
      by auto
  qed
qed

lemma unix_set_mode_calls:
  assumes "unix_set_mode fdn path m w = Some (ret, w')"
  shows "\<exists>t. calls w' = calls w @ t"
proof -
  from assms obtain ok1 w1 where
    a1: "and_not_call (fdn \<ge> 0) (Sys_fchmod fdn m) w = Some (ok1, w1)"
    by (auto simp: unix_set_mode_def bind_eq_Some_conv)
  from and_not_call_calls [OF a1] obtain t1 where t1: "calls w1 = calls w @ t1"
    by auto
  show ?thesis
  proof (cases ok1)
    case True
    with assms a1 t1 show ?thesis
      by (auto simp: unix_set_mode_def)
  next
    case False
    with assms a1 obtain ok2 w2 where
      a2: "and_not_call (fdn < 0) (Sys_chmod path m) w1 = Some (ok2, w2)" and "w' = w2"
      by (auto simp: unix_set_mode_def bind_eq_Some_conv split: if_splits)
    with and_not_call_calls [OF a2] t1 show ?thesis
      by auto
  qed
qed

lemma unix_build_extraction_path_index:
  "unix_build_extraction_path dentry ctx = Some (i, ctx') \<Longrightarrow> which_pathbuf ctx' < 2"
  using unix_build_extraction_path_Some(3) mod_NUM_PATHBUFS_less by metis

lemma unix_build_inode_extraction_path_Some:
  assumes "unix_build_inode_extraction_path inode ctx = Some (i, ctx')"
  shows "open_fds ctx' = open_fds ctx" and "num_open_fds ctx' = num_open_fds ctx"
    and "which_pathbuf ctx' < 2"
  using assms unix_build_extraction_path_Some(4,5) unix_build_extraction_path_index
  by (auto simp: unix_build_inode_extraction_path_def split: option.splits)

lemma metadata_step_failed_frame:
  assumes "metadata_step_failed ret strict txt inode path ctx w = Some (early, path', ctx', w')"
  shows "open_fds ctx' = open_fds ctx \<and> num_open_fds ctx' = num_open_fds ctx \<and>
         calls w' = calls w \<and> (which_pathbuf ctx < 2 \<longrightarrow> which_pathbuf ctx' < 2)"
  using assms unix_build_inode_extraction_path_Some
  by (auto simp: metadata_step_failed_def bind_eq_Some_conv print_def split: if_splits)

lemma unix_set_metadata_unix_data_frame:
  assumes "unix_set_metadata_unix_data fdn inode ud path ctx w = Some (early, path', ctx', w')"
  shows "open_fds ctx' = open_fds ctx \<and> num_open_fds ctx' = num_open_fds ctx \<and>
         (\<exists>t. calls w' = calls w @ t) \<and>
         (which_pathbuf ctx < 2 \<longrightarrow> which_pathbuf ctx' < 2)"
proof -
  from assms obtain ret1 w1 where
    a1: "unix_set_owner_and_group fdn (path_arg ctx path) (uid ud) (gid ud) w = Some (ret1, w1)"
    by (auto simp: unix_set_metadata_unix_data_def bind_eq_Some_conv)
  from unix_set_owner_and_group_calls [OF a1] obtain t1 where t1: "calls w1 = calls w @ t1"
    by auto
  from assms a1 obtain e1 path1 ctx1 w2 where
    a2: "(if ret1 \<noteq> WIMLIB_ERR_SUCCESS
          then metadata_step_failed ret1 WIMLIB_EXTRACT_FLAG_STRICT_ACLS
                 ''Can't set uid and gid'' inode path ctx w1
          else Some (None, path, ctx, w1)) = Some (e1, path1, ctx1, w2)"
    by (auto simp: unix_set_metadata_unix_data_def bind_eq_Some_conv)
  then have f2: "open_fds ctx1 = open_fds ctx \<and> num_open_fds ctx1 = num_open_fds ctx \<and>
      calls w2 = calls w1 \<and> (which_pathbuf ctx < 2 \<longrightarrow> which_pathbuf ctx1 < 2)"
    using metadata_step_failed_frame by (auto split: if_splits)
  show ?thesis
  proof (cases e1)
    case (Some r)
    with assms a1 a2 f2 t1 show ?thesis
      by (auto simp: unix_set_metadata_unix_data_def)
  next
    case None
    with assms a1 a2 obtain ret2 w3 where
      a3: "(if \<not> inode_is_symlink inode
            then unix_set_mode fdn (path_arg ctx1 path1) (mode ud) w2
            else Some (WIMLIB_ERR_SUCCESS, w2)) = Some (ret2, w3)"
      and a4: "(if ret2 \<noteq> WIMLIB_ERR_SUCCESS
            then metadata_step_failed ret2 WIMLIB_EXTRACT_FLAG_STRICT_ACLS
                   ''Can't set mode'' inode path1 ctx1 w3
            else Some (None, path1, ctx1, w3)) = Some (early, path', ctx', w')"
      by (auto simp: unix_set_metadata_unix_data_def bind_eq_Some_conv)
    from a3 have "\<exists>t. calls w3 = calls w2 @ t"
      using unix_set_mode_calls by (auto split: if_splits)
    with f2 t1 obtain t3 where t3: "calls w3 = calls w @ t3"
      by auto
    from a4 have "open_fds ctx' = open_fds ctx1 \<and> num_open_fds ctx' = num_open_fds ctx1 \<and>
        calls w' = calls w3 \<and> (which_pathbuf ctx1 < 2 \<longrightarrow> which_pathbuf ctx' < 2)"
      using metadata_step_failed_frame by (auto split: if_splits)
    with f2 t3 show ?thesis
      by auto
  qed
qed

lemma unix_set_metadata_frame:
  assumes "unix_set_metadata cfg fdn inode path ctx w = Some (ret, ctx', w')"
  shows "open_fds ctx' = open_fds ctx \<and> num_open_fds ctx' = num_open_fds ctx \<and>
         (\<exists>t. calls w' = calls w @ t) \<and>
         (which_pathbuf ctx < 2 \<longrightarrow> which_pathbuf ctx' < 2)"
proof -
  from assms obtain path0 ctx0 where
    a0: "(if fdn < 0 \<and> path = None
          then map_option (\<lambda>(p, c). (Some p, c)) (unix_build_inode_extraction_path inode ctx)
          else Some (path, ctx)) = Some (path0, ctx0)"
    by (auto simp: unix_set_metadata_def bind_eq_Some_conv)
  then have f0: "open_fds ctx0 = open_fds ctx \<and> num_open_fds ctx0 = num_open_fds ctx \<and>
      (which_pathbuf ctx < 2 \<longrightarrow> which_pathbuf ctx0 < 2)"
    using unix_build_inode_extraction_path_Some by (auto split: if_splits)
  from assms a0 obtain early path1 ctx1 w1 where
    a1: "(case (if WIMLIB_EXTRACT_FLAG_UNIX_DATA \<in> extract_flags ctx0
                then inode_get_unix_data inode else None) of
            Some unix_data \<Rightarrow> unix_set_metadata_unix_data fdn inode unix_data path0 ctx0 w
          | None \<Rightarrow> Some (None, path0, ctx0, w)) = Some (early, path1, ctx1, w1)"
    by (auto simp: unix_set_metadata_def bind_eq_Some_conv)
  then have "open_fds ctx1 = open_fds ctx0 \<and> num_open_fds ctx1 = num_open_fds ctx0 \<and>
      (\<exists>t. calls w1 = calls w @ t) \<and> (which_pathbuf ctx0 < 2 \<longrightarrow> which_pathbuf ctx1 < 2)"
    using unix_set_metadata_unix_data_frame by (auto split: option.splits if_splits)
  with f0 obtain t1 where
    f1: "open_fds ctx1 = open_fds ctx" "num_open_fds ctx1 = num_open_fds ctx"
      "which_pathbuf ctx < 2 \<longrightarrow> which_pathbuf ctx1 < 2"
    and t1: "calls w1 = calls w @ t1"
    by auto
  show ?thesis
  proof (cases early)
    case (Some r)
    with assms a0 a1 f1 t1 show ?thesis
      by (auto simp: unix_set_metadata_def)
  next
    case None
    with assms a0 a1 obtain ret2 w2 where
      a2: "unix_set_timestamps cfg fdn (path_arg ctx1 path1) (i_last_access_time inode)
             (i_last_write_time inode) w1 = Some (ret2, w2)"
      by (auto simp: unix_set_metadata_def bind_eq_Some_conv)
    from unix_set_timestamps_calls [OF a2] t1 obtain t2 where t2: "calls w2 = calls w @ t2"
      by auto
    show ?thesis
    proof (cases "ret2 = WIMLIB_ERR_SUCCESS")
      case True
      with assms a0 a1 a2 None f1 t2 show ?thesis
        by (auto simp: unix_set_metadata_def)
    next
      case False
      with assms a0 a1 a2 None obtain early2 path2 ctx2 w3 where
        a3: "metadata_step_failed ret2 WIMLIB_EXTRACT_FLAG_STRICT_TIMESTAMPS
               ''Can't set timestamps'' inode path1 ctx1 w2 = Some (early2, path2, ctx2, w3)"
        and r: "ctx' = ctx2" "w' = w3"
        by (auto simp: unix_set_metadata_def bind_eq_Some_conv split: option.splits)
      from metadata_step_failed_frame [OF a3] r f1 t2 show ?thesis
        by auto
    qed
  qed
qed

lemma symlink_retry_calls:
  "symlink_retry tgt path w = Some (ret, w') \<Longrightarrow> \<exists>t. calls w' = calls w @ t"
proof (induction tgt path w rule: symlink_retry.induct)
  case (1 tgt path w)
  from "1.prems" obtain r w1 where s1: "sys (Sys_symlink tgt path) w = Some (r, w1)"
    by (subst (asm) symlink_retry.simps) (auto split: option.splits)
  note c1 = sys_Some(1) [OF s1]
  show ?case
  proof (cases "failed r \<and> w_errno w1 = EEXIST")
    case False
    with "1.prems" s1 c1 show ?thesis
      by (subst (asm) symlink_retry.simps) (auto split: if_splits)
  next
    case True
    with "1.prems" s1 obtain r2 w2 where s2: "sys (Sys_unlink path) w1 = Some (r2, w2)"
      by (subst (asm) symlink_retry.simps) (auto split: option.splits)
    note c2 = sys_Some(1) [OF s2]
    show ?thesis
    proof (cases "failed r2")
      case True
      with "1.prems" s1 s2 \<open>failed r \<and> w_errno w1 = EEXIST\<close> c1 c2 show ?thesis
        by (subst (asm) symlink_retry.simps) auto
    next
      case False
      with "1.prems" s1 s2 \<open>failed r \<and> w_errno w1 = EEXIST\<close>
      have "symlink_retry tgt path w2 = Some (ret, w')"
        by (subst (asm) symlink_retry.simps) auto
      from "1.IH" [OF s1 refl conjunct1 [OF True] conjunct2 [OF True] s2 refl False this]
        c1 c2
      show ?thesis
        by auto
    qed
  qed
qed

lemma unix_create_symlink_calls:
  "unix_create_symlink cfg rl inode path rpdata rpdatalen rpfix apply_dir n w = Some (ret, w')
   \<Longrightarrow> \<exists>t. calls w' = calls w @ t"
  using symlink_retry_calls
  by (auto simp: unix_create_symlink_def Let_def split: sum.splits if_splits)

lemma unat_plus_one_less: "(i :: u32) < n \<Longrightarrow> unat (i + 1) = Suc (unat i)"
  by unat_arith

lemma unat_plus_one_bounded:
  assumes "unat (j :: u32) < k" and "k < 2 ^ 32"
  shows "unat (j + 1) = Suc (unat j)"
proof -
  have "unat j + unat (1 :: u32) < 2 ^ LENGTH(32)"
    using assms by simp
  then have "unat (j + 1) = unat j + unat (1 :: u32)"
    by (simp only: unat_add_lem)
  then show ?thesis
    by simp
qed

text \<open>The loop of \<open>unix_cleanup_open_fds\<close> closes the descriptors from \<open>offset\<close> on, in order.\<close>

lemma cleanup_open_fds_from_calls:
  "cleanup_open_fds_from i ctx w = Some w' \<Longrightarrow>
   calls w' = calls w @
     map (\<lambda>f. Filedes_close (fd f))
       (drop (unat i) (take (unat (num_open_fds ctx)) (open_fds ctx)))"
proof (induction i ctx w rule: cleanup_open_fds_from.induct)
  case (1 i ctx w)
  show ?case
  proof (cases "i < num_open_fds ctx")
    case False
    then have "unat (num_open_fds ctx) \<le> unat i"
      by (simp add: word_less_nat_alt)
    with False "1.prems" show ?thesis
      by (subst (asm) cleanup_open_fds_from.simps) simp
  next
    case True
    with "1.prems" have inr: "\<not> length (open_fds ctx) \<le> unat i"
      by (subst (asm) cleanup_open_fds_from.simps) (auto split: if_splits)
    with True "1.prems" obtain r w1 where
      s: "sys (Filedes_close (fd (open_fds ctx ! unat i))) w = Some (r, w1)"
      and rest: "cleanup_open_fds_from (i + 1) ctx w1 = Some w'"
      by (subst (asm) cleanup_open_fds_from.simps) (auto split: option.splits)
    from True have lt: "unat i < unat (num_open_fds ctx)"
      by (simp add: word_less_nat_alt)
    have "drop (unat i) (take (unat (num_open_fds ctx)) (open_fds ctx)) =
        open_fds ctx ! unat i #
        drop (Suc (unat i)) (take (unat (num_open_fds ctx)) (open_fds ctx))"
      using lt inr by (simp add: Cons_nth_drop_Suc [symmetric])
    with "1.IH" [OF True inr s refl rest] sys_Some(1) [OF s] unat_plus_one_less [OF True]
    show ?thesis
      by simp
  qed
qed

lemma cleanup_open_fds_from_returns:
  "unat (num_open_fds ctx) \<le> length (open_fds ctx) \<Longrightarrow>
   unat (num_open_fds ctx) - unat i \<le> length (script w) \<Longrightarrow>
   \<exists>w'. cleanup_open_fds_from i ctx w = Some w'"
proof (induction i ctx w rule: cleanup_open_fds_from.induct)
  case (1 i ctx w)
  show ?case
  proof (cases "i < num_open_fds ctx")
    case False
    then show ?thesis
      by (subst cleanup_open_fds_from.simps) simp
  next
    case True
    then have lt: "unat i < unat (num_open_fds ctx)"
      by (simp add: word_less_nat_alt)
    with "1.prems" have inr: "\<not> length (open_fds ctx) \<le> unat i"
      by simp
    from lt "1.prems" obtain r rs where sc: "script w = r # rs"
      by (cases "script w") auto
    then obtain w1 where
      s: "sys (Filedes_close (fd (open_fds ctx ! unat i))) w = Some (r, w1)"
      and sc1: "script w1 = rs"
      by (simp add: sys_def)
    have "unat (num_open_fds ctx) - unat (i + 1) \<le> length (script w1)"
      using "1.prems" sc sc1 unat_plus_one_less [OF True] by simp
    from "1.IH" [OF True inr s refl "1.prems"(1) this] True inr s show ?thesis
      by (subst cleanup_open_fds_from.simps) simp
  qed
qed

text \<open>
  The loop of \<open>unix_end_extract_stream\<close> closes the descriptors with the indices from the
  initial \<open>j\<close> up to the final one.
\<close>

lemma end_extract_stream_owners_closes:
  "end_extract_stream_owners cfg rl stream owners j ctx w = Some (ret, j', ctx', w') \<Longrightarrow>
   length (open_fds ctx) < 2 ^ 32 \<Longrightarrow>
   open_fds ctx' = open_fds ctx \<and> num_open_fds ctx' = num_open_fds ctx \<and>
   (which_pathbuf ctx < 2 \<longrightarrow> which_pathbuf ctx' < 2) \<and>
   unat j \<le> unat j' \<and>
   (\<exists>t. calls w' = calls w @ t \<and>
        (\<forall>i. unat j \<le> i \<and> i < unat j' \<longrightarrow> Filedes_close (fd (open_fds ctx ! i)) \<in> set t))"
proof (induction owners arbitrary: j ctx w)
  case Nil
  then show ?case
    by simp
next
  case (Cons inode rest)
  show ?case
  proof (cases "inode_is_symlink inode")
    case True
    with Cons.prems(1) obtain path ctx1 where
      b: "unix_build_inode_extraction_path inode ctx = Some (path, ctx1)"
      by (auto split: option.splits)
    note f1 = unix_build_inode_extraction_path_Some [OF b]
    from True Cons.prems(1) b obtain ret1 w1 where
      s: "unix_create_symlink cfg rl inode (path_string ctx1 path) (reparse_data ctx1)
            (ucast (stream_size stream))
            (WIMLIB_EXTRACT_FLAG_RPFIX \<in> extract_flags ctx1 \<and> \<not> i_not_rpfixed inode)
            (case target_abspath ctx1 of None \<Rightarrow> [] | Some s \<Rightarrow> s)
            (target_abspath_nchars ctx1) w = Some (ret1, w1)"
      by (auto split: option.splits)
    from unix_create_symlink_calls [OF s] obtain t1 where t1: "calls w1 = calls w @ t1"
      by auto
    show ?thesis
    proof (cases "ret1 = WIMLIB_ERR_SUCCESS")
      case False
      with True Cons.prems(1) b s f1 t1 show ?thesis
        by (auto simp: print_def)
    next
      case ok: True
      with True Cons.prems(1) b s obtain ret2 ctx2 w2 where
        m: "unix_set_metadata cfg (- 1) inode (Some path) ctx1 w1 = Some (ret2, ctx2, w2)"
        by (auto split: option.splits)
      from unix_set_metadata_frame [OF m] f1 t1 obtain t2 where
        f2: "open_fds ctx2 = open_fds ctx" "num_open_fds ctx2 = num_open_fds ctx"
          "which_pathbuf ctx2 < 2"
        and t2: "calls w2 = calls w @ t2"
        by auto
      show ?thesis
      proof (cases "ret2 = WIMLIB_ERR_SUCCESS")
        case False
        with True Cons.prems(1) b s ok m f2 t2 show ?thesis
          by auto
      next
        case True
        with \<open>inode_is_symlink inode\<close> Cons.prems(1) b s ok m
        have r: "end_extract_stream_owners cfg rl stream rest j ctx2 w2 = Some (ret, j', ctx', w')"
          by auto
        from Cons.IH [OF r] Cons.prems(2) f2 t2 show ?thesis
          by auto
      qed
    qed
  next
    case False
    with Cons.prems(1) have inr: "unat j < length (open_fds ctx)"
      by (auto split: if_splits)
    with False Cons.prems(1) obtain ret1 ctx1 w1 where
      m: "unix_set_metadata cfg (fd (open_fds ctx ! unat j)) inode None ctx w =
            Some (ret1, ctx1, w1)"
      by (auto split: option.splits)
    from unix_set_metadata_frame [OF m] obtain t1 where
      f1: "open_fds ctx1 = open_fds ctx" "num_open_fds ctx1 = num_open_fds ctx"
        "which_pathbuf ctx < 2 \<longrightarrow> which_pathbuf ctx1 < 2"
      and t1: "calls w1 = calls w @ t1"
      by auto
    show ?thesis
    proof (cases "ret1 = WIMLIB_ERR_SUCCESS")
      case False
      with \<open>\<not> inode_is_symlink inode\<close> Cons.prems(1) inr m f1 t1 show ?thesis
        by auto
    next
      case ok: True
      with False Cons.prems(1) inr m obtain r w2 where
        c: "sys (Filedes_close (fd (open_fds ctx1 ! unat j))) w1 = Some (r, w2)"
        by (auto split: option.splits)
      from sys_Some(1) [OF c] t1 f1
      have t2: "calls w2 = calls w @ (t1 @ [Filedes_close (fd (open_fds ctx ! unat j))])"
        by simp
      show ?thesis
      proof (cases "failed r")
        case True
        with False Cons.prems(1) inr m ok c obtain path ctx2 where
          b: "unix_build_inode_extraction_path inode ctx1 = Some (path, ctx2)"
          and res: "j' = j" "ctx' = ctx2" "w' = print (ERROR ''Error closing'') w2"
          by (auto split: option.splits)
        from unix_build_inode_extraction_path_Some [OF b] res f1 t2 show ?thesis
          by (auto simp: print_def)
      next
        case nf: False
        with False Cons.prems(1) inr m ok c
        have r: "end_extract_stream_owners cfg rl stream rest (j + 1) ctx1 w2 =
            Some (ret, j', ctx', w')"
          by auto
        have len1: "length (open_fds ctx1) < 2 ^ 32"
          using f1 Cons.prems(2) by simp
        have suc: "unat (j + 1) = Suc (unat j)"
          using unat_plus_one_bounded [OF inr Cons.prems(2)] .
        from Cons.IH [OF r len1] obtain t3 where
          f3: "open_fds ctx' = open_fds ctx1" "num_open_fds ctx' = num_open_fds ctx1"
            "which_pathbuf ctx1 < 2 \<longrightarrow> which_pathbuf ctx' < 2"
          and le: "unat (j + 1) \<le> unat j'"
          and t3: "calls w' = calls w2 @ t3"
          and cl: "\<forall>i. unat (j + 1) \<le> i \<and> i < unat j' \<longrightarrow>
                     Filedes_close (fd (open_fds ctx1 ! i)) \<in> set t3"
          by auto
        have "\<forall>i. unat j \<le> i \<and> i < unat j' \<longrightarrow>
            Filedes_close (fd (open_fds ctx ! i)) \<in>
              set (t1 @ [Filedes_close (fd (open_fds ctx ! unat j))] @ t3)"
        proof (intro allI impI)
          fix i
          assume "unat j \<le> i \<and> i < unat j'"
          then consider "i = unat j" | "unat (j + 1) \<le> i \<and> i < unat j'"
            using suc by linarith
          then show "Filedes_close (fd (open_fds ctx ! i)) \<in>
              set (t1 @ [Filedes_close (fd (open_fds ctx ! unat j))] @ t3)"
            using cl f1 by cases auto
        qed
        with f3 f1 le suc t3 t2 show ?thesis
          by auto
      qed
    qed
  qed
qed

lemma unix_cleanup_open_fds_calls:
  assumes "unix_cleanup_open_fds ctx offset w = Some (ctx', w')"
  shows "ctx' = ctx\<lparr>num_open_fds := 0\<rparr>"
    and "calls w' = calls w @
           map (\<lambda>f. Filedes_close (fd f))
             (drop (unat offset) (take (unat (num_open_fds ctx)) (open_fds ctx)))"
  using assms cleanup_open_fds_from_calls
  by (auto simp: unix_cleanup_open_fds_def)

lemma end_extract_stream_failure:
  assumes "status \<noteq> WIMLIB_ERR_SUCCESS"
    and "unat (num_open_fds ctx) \<le> length (open_fds ctx)"
    and "unat (num_open_fds ctx) \<le> length (script w)"
  shows "\<exists>w'. unix_end_extract_stream cfg rl stream status ctx w =
                Some (status, ctx\<lparr>reparse_ptr := None, num_open_fds := 0\<rparr>, w') \<and>
              calls w' = calls w @
                map (\<lambda>f. Filedes_close (fd f))
                  (take (unat (num_open_fds ctx)) (open_fds ctx))"
proof -
  let ?ctx0 = "ctx\<lparr>reparse_ptr := None\<rparr>"
  have "\<exists>w'. cleanup_open_fds_from 0 ?ctx0 w = Some w'"
    using assms(2,3) by (intro cleanup_open_fds_from_returns) simp_all
  then obtain w' where c: "cleanup_open_fds_from 0 ?ctx0 w = Some w'"
    by auto
  from cleanup_open_fds_from_calls [OF c]
  have "calls w' = calls w @
      map (\<lambda>f. Filedes_close (fd f)) (take (unat (num_open_fds ctx)) (open_fds ctx))"
    by simp
  with c assms(1) show ?thesis
    by (simp add: unix_end_extract_stream_def unix_cleanup_open_fds_def)
qed

lemma end_extract_stream_success:
  assumes res: "unix_end_extract_stream cfg rl stream WIMLIB_ERR_SUCCESS ctx w =
      Some (ret, ctx', w')"
    and n: "unat (num_open_fds ctx) \<le> length (open_fds ctx)"
    and len: "length (open_fds ctx) < 2 ^ 32"
  shows "num_open_fds ctx' = 0 \<and> open_fds ctx' = open_fds ctx \<and>
         (\<forall>i < unat (num_open_fds ctx).
            Filedes_close (fd (open_fds ctx ! i)) \<in> set (drop (length (calls w)) (calls w'))) \<and>
         (which_pathbuf ctx < 2 \<longrightarrow> which_pathbuf ctx' < 2)"
proof -
  let ?ctx0 = "ctx\<lparr>reparse_ptr := None\<rparr>"
  from res obtain ret1 j ctx1 w1 where
    l: "end_extract_stream_owners cfg rl stream (stream_owners stream) 0 ?ctx0 w =
          Some (ret1, j, ctx1, w1)"
    and c: "unix_cleanup_open_fds ctx1 j w1 = Some (ctx', w')"
    by (auto simp: unix_end_extract_stream_def Let_def split: option.splits)
  from end_extract_stream_owners_closes [OF l] len obtain t where
    f1: "open_fds ctx1 = open_fds ctx" "num_open_fds ctx1 = num_open_fds ctx"
      "which_pathbuf ctx < 2 \<longrightarrow> which_pathbuf ctx1 < 2"
    and t: "calls w1 = calls w @ t"
    and cl: "\<forall>i. i < unat j \<longrightarrow> Filedes_close (fd (open_fds ctx ! i)) \<in> set t"
    by auto
  note c1 = unix_cleanup_open_fds_calls [OF c]
  let ?rest = "drop (unat j) (take (unat (num_open_fds ctx)) (open_fds ctx))"
  have new: "drop (length (calls w)) (calls w') = t @ map (\<lambda>f. Filedes_close (fd f)) ?rest"
    using c1(2) t f1 by simp
  have "\<forall>i < unat (num_open_fds ctx).
      Filedes_close (fd (open_fds ctx ! i)) \<in> set (t @ map (\<lambda>f. Filedes_close (fd f)) ?rest)"
  proof (intro allI impI)
    fix i
    assume i: "i < unat (num_open_fds ctx)"
    show "Filedes_close (fd (open_fds ctx ! i)) \<in>
        set (t @ map (\<lambda>f. Filedes_close (fd f)) ?rest)"
    proof (cases "i < unat j")
      case True
      with cl show ?thesis
        by simp
    next
      case False
      then have "?rest ! (i - unat j) = open_fds ctx ! i"
        using i n by simp
      moreover have "i - unat j < length ?rest"
        using False i n by simp
      ultimately have "open_fds ctx ! i \<in> set ?rest"
        by (metis nth_mem)
      then show ?thesis
        by auto
    qed
  qed
  with new c1(1) f1 show ?thesis
    by simp
qed

text \<open>
  When the calls return: every call outside a retry loop takes one result of the script,
  and a retry takes a failing result.
\<close>

lemma spare_results_le_length: "spare_results w \<le> int (length (script w))"
  unfolding spare_results_def
  using length_filter_le [of "\<lambda>r. \<not> failed r" "script w"]
  by linarith

lemma spare_results_w_errno: "spare_results (w\<lparr>w_errno := e\<rparr>) = spare_results w"
  by (simp add: spare_results_def)

lemma spare_results_print: "spare_results (print m w) = spare_results w"
  by (simp add: spare_results_def print_def)

lemma sys_returns:
  assumes "1 \<le> spare_results w"
  shows "\<exists>r w'. sys c w = Some (r, w') \<and>
           spare_results w' = spare_results w + (if failed r then 1 else - 1)"
proof -
  from assms spare_results_le_length [of w] obtain r rs where sc: "script w = r # rs"
    by (cases "script w") auto
  then show ?thesis
    by (simp add: sys_def spare_results_def)
qed

lemma and_not_call_returns:
  assumes "1 \<le> spare_results w"
  shows "\<exists>ok w'. and_not_call b c w = Some (ok, w') \<and> spare_results w - 1 \<le> spare_results w'"
proof (cases b)
  case True
  from sys_returns [OF assms, of c] obtain r w' where
    "sys c w = Some (r, w')" "spare_results w' = spare_results w + (if failed r then 1 else - 1)"
    by auto
  with True show ?thesis
    by (simp add: and_not_call_def)
next
  case False
  then show ?thesis
    by (auto simp: and_not_call_def)
qed

lemma unix_set_owner_and_group_returns:
  assumes "2 \<le> spare_results w"
  shows "\<exists>ret w'. unix_set_owner_and_group fdn path u g w = Some (ret, w') \<and>
           spare_results w - 2 \<le> spare_results w'"
proof -
  from and_not_call_returns [of w "fdn \<ge> 0" "Sys_fchown fdn u g"] assms obtain ok1 w1 where
    a1: "and_not_call (fdn \<ge> 0) (Sys_fchown fdn u g) w = Some (ok1, w1)"
    and s1: "spare_results w - 1 \<le> spare_results w1"
    by auto
  from and_not_call_returns [of w1 "fdn < 0" "Sys_lchown path u g"] assms s1 obtain ok2 w2 where
    a2: "and_not_call (fdn < 0) (Sys_lchown path u g) w1 = Some (ok2, w2)"
    and s2: "spare_results w1 - 1 \<le> spare_results w2"
    by auto
  from a1 a2 s1 s2 show ?thesis
    by (simp add: unix_set_owner_and_group_def)
qed

lemma unix_set_mode_returns:
  assumes "2 \<le> spare_results w"
  shows "\<exists>ret w'. unix_set_mode fdn path m w = Some (ret, w') \<and>
           spare_results w - 2 \<le> spare_results w'"
proof -
  from and_not_call_returns [of w "fdn \<ge> 0" "Sys_fchmod fdn m"] assms obtain ok1 w1 where
    a1: "and_not_call (fdn \<ge> 0) (Sys_fchmod fdn m) w = Some (ok1, w1)"
    and s1: "spare_results w - 1 \<le> spare_results w1"
    by auto
  from and_not_call_returns [of w1 "fdn < 0" "Sys_chmod path m"] assms s1 obtain ok2 w2 where
    a2: "and_not_call (fdn < 0) (Sys_chmod path m) w1 = Some (ok2, w2)"
    and s2: "spare_results w1 - 1 \<le> spare_results w2"
    by auto
  from a1 a2 s1 s2 show ?thesis
    by (simp add: unix_set_mode_def)
qed

lemma unix_set_timestamps_returns:
  assumes "4 \<le> spare_results w"
  shows "\<exists>ret w'. unix_set_timestamps cfg fdn path atime mtime w = Some (ret, w') \<and>
           spare_results w - 4 \<le> spare_results w'"
proof -
  from and_not_call_returns [of "w\<lparr>w_errno := ENOSYS\<rparr>" "HAVE_FUTIMENS cfg \<and> fdn \<ge> 0"
      "Sys_futimens fdn atime mtime"] assms
  obtain ok1 w1 where
    a1: "and_not_call (HAVE_FUTIMENS cfg \<and> fdn \<ge> 0) (Sys_futimens fdn atime mtime)
           (w\<lparr>w_errno := ENOSYS\<rparr>) = Some (ok1, w1)"
    and s1: "spare_results w - 1 \<le> spare_results w1"
    by (auto simp: spare_results_w_errno)
  from and_not_call_returns [of w1 "HAVE_UTIMENSAT cfg \<and> fdn < 0"
      "Sys_utimensat path atime mtime"] assms s1
  obtain ok2 w2 where
    a2: "and_not_call (HAVE_UTIMENSAT cfg \<and> fdn < 0) (Sys_utimensat path atime mtime) w1 =
           Some (ok2, w2)"
    and s2: "spare_results w - 2 \<le> spare_results w2"
    by auto
  from and_not_call_returns [of w2 "fdn \<ge> 0" "Sys_futimes fdn atime mtime"] assms s2
  obtain ok3 w3 where
    a3: "and_not_call (fdn \<ge> 0) (Sys_futimes fdn atime mtime) w2 = Some (ok3, w3)"
    and s3: "spare_results w - 3 \<le> spare_results w3"
    by auto
  from and_not_call_returns [of w3 "fdn < 0" "Sys_lutimes path atime mtime"] assms s3
  obtain ok4 w4 where
    a4: "and_not_call (fdn < 0) (Sys_lutimes path atime mtime) w3 = Some (ok4, w4)"
    and s4: "spare_results w - 4 \<le> spare_results w4"
    by auto
  from a1 a2 a3 a4 s1 s2 s3 s4 show ?thesis
    by (simp add: unix_set_timestamps_def)
qed

text \<open>The loop of \<open>unix_build_extraction_path\<close> writes inside the buffer.\<close>

lemma memcpy_length: "p + length src \<le> length buf \<Longrightarrow> length (memcpy buf p src) = length buf"
  by (simp add: memcpy_def)

lemma write_path_components_length:
  "unix_dentry_path_length d \<le> p \<Longrightarrow> p \<le> length buf \<Longrightarrow>
   length (write_path_components d p buf) = length buf"
proof (induction d p buf rule: write_path_components.induct)
  case (1 a name root we parent p buf)
  let ?p1 = "p - length name"
  let ?buf2 = "(memcpy buf ?p1 name)[?p1 - 1 := CHR ''/'']"
  from "1.prems" have p: "length name + 1 \<le> p"
    by simp
  with "1.prems" have len2: "length ?buf2 = length buf"
    by (simp add: memcpy_length)
  show ?case
  proof (cases parent)
    case None
    with len2 show ?thesis
      by (simp add: Let_def)
  next
    case (Some d)
    show ?thesis
    proof (cases "\<not> dentry_is_root d \<and> will_extract_dentry d")
      case False
      with Some len2 show ?thesis
        by (auto simp: Let_def)
    next
      case True
      with Some "1.prems" have "unix_dentry_path_length d \<le> ?p1 - 1"
        by simp
      moreover have "?p1 - 1 \<le> length ?buf2"
        using len2 "1.prems" by simp
      ultimately have "length (write_path_components d (?p1 - 1) ?buf2) = length ?buf2"
        using "1.IH" [OF refl refl refl refl Some True] by simp
      with Some True len2 show ?thesis
        by (simp add: Let_def)
    qed
  qed
qed

lemma path_fits_layout:
  assumes "path_fits ctx i"
    and "map length (pathbufs ctx') = map length (pathbufs ctx)"
    and "target_nchars ctx' = target_nchars ctx"
    and "which_pathbuf ctx' < 2"
  shows "path_fits ctx' i"
proof -
  from assms(2) have len: "length (pathbufs ctx') = length (pathbufs ctx)"
    by (rule map_eq_imp_length_eq)
  from assms(1) obtain d where
    d: "inode_first_extraction_dentry i = Some d"
    and two: "2 \<le> length (pathbufs ctx)"
    and fit: "list_all (\<lambda>buf. target_nchars ctx + unix_dentry_path_length d < length buf)
                (pathbufs ctx)"
    by (auto simp: path_fits_def split: option.splits)
  from fit have "\<forall>n \<in> set (map length (pathbufs ctx)).
      target_nchars ctx + unix_dentry_path_length d < n"
    by (simp add: list_all_iff)
  then have "\<forall>n \<in> set (map length (pathbufs ctx')).
      target_nchars ctx + unix_dentry_path_length d < n"
    by (simp only: assms(2))
  then have "list_all (\<lambda>buf. target_nchars ctx' + unix_dentry_path_length d < length buf)
      (pathbufs ctx')"
    by (simp add: list_all_iff assms(3))
  with d two len assms(4) show ?thesis
    by (simp add: path_fits_def)
qed

lemma unix_build_inode_extraction_path_returns:
  assumes "path_fits ctx inode"
  shows "\<exists>p ctx'. unix_build_inode_extraction_path inode ctx = Some (p, ctx') \<and>
           (\<forall>i. path_fits ctx i \<longrightarrow> path_fits ctx' i)"
proof -
  from assms obtain d where
    d: "inode_first_extraction_dentry inode = Some d"
    and w: "which_pathbuf ctx < 2" and two: "2 \<le> length (pathbufs ctx)"
    and fit: "list_all (\<lambda>buf. target_nchars ctx + unix_dentry_path_length d < length buf)
                (pathbufs ctx)"
    by (auto simp: path_fits_def split: option.splits)
  let ?i = "unat (which_pathbuf ctx)"
  let ?e = "target_nchars ctx + unix_dentry_path_length d"
  let ?buf = "pathbufs ctx ! ?i"
  let ?new = "write_path_components d ?e (?buf[?e := CHR 0x00])"
  let ?ctx' = "ctx\<lparr>which_pathbuf := (which_pathbuf ctx + 1) mod NUM_PATHBUFS,
                   pathbufs := (pathbufs ctx)[?i := ?new]\<rparr>"
  from w have "?i < 2"
    by (simp add: word_less_nat_alt)
  with two have i: "?i < length (pathbufs ctx)"
    by simp
  with fit have e: "?e < length ?buf"
    by (simp add: list_all_length)
  with i d have b: "unix_build_inode_extraction_path inode ctx = Some (?i, ?ctx')"
    by (simp add: unix_build_inode_extraction_path_def unix_build_extraction_path_def Let_def)
  have "length ?new = length ?buf"
    using e by (simp add: write_path_components_length)
  then have "map length ((pathbufs ctx)[?i := ?new]) = map length (pathbufs ctx)"
    using i by (simp add: map_update list_update_same_conv)
  then have "\<forall>j. path_fits ctx j \<longrightarrow> path_fits ?ctx' j"
    using path_fits_layout [of ctx _ ?ctx'] mod_NUM_PATHBUFS_less by simp
  with b show ?thesis
    by blast
qed

lemma metadata_step_failed_returns:
  assumes "path_fits ctx inode"
  shows "\<exists>early path' ctx' w'.
           metadata_step_failed ret strict txt inode path ctx w = Some (early, path', ctx', w') \<and>
           spare_results w' = spare_results w \<and> (\<forall>i. path_fits ctx i \<longrightarrow> path_fits ctx' i)"
proof (cases path)
  case None
  from unix_build_inode_extraction_path_returns [OF assms] obtain p ctx1 where
    "unix_build_inode_extraction_path inode ctx = Some (p, ctx1)"
    "\<forall>i. path_fits ctx i \<longrightarrow> path_fits ctx1 i"
    by auto
  with None show ?thesis
    by (simp add: metadata_step_failed_def spare_results_print)
next
  case (Some p)
  then show ?thesis
    by (simp add: metadata_step_failed_def spare_results_print)
qed

lemma unix_set_metadata_unix_data_returns:
  assumes sp: "4 \<le> spare_results w" and fits: "path_fits ctx inode"
  shows "\<exists>early path' ctx' w'.
           unix_set_metadata_unix_data fdn inode ud path ctx w = Some (early, path', ctx', w') \<and>
           spare_results w - 4 \<le> spare_results w' \<and>
           (\<forall>i. path_fits ctx i \<longrightarrow> path_fits ctx' i)"
proof -
  from unix_set_owner_and_group_returns [of w fdn "path_arg ctx path" "uid ud" "gid ud"] sp
  obtain ret1 w1 where
    a1: "unix_set_owner_and_group fdn (path_arg ctx path) (uid ud) (gid ud) w = Some (ret1, w1)"
    and s1: "spare_results w - 2 \<le> spare_results w1"
    by auto
  have "\<exists>e1 path1 ctx1 w2.
      (if ret1 \<noteq> WIMLIB_ERR_SUCCESS
       then metadata_step_failed ret1 WIMLIB_EXTRACT_FLAG_STRICT_ACLS
              ''Can't set uid and gid'' inode path ctx w1
       else Some (None, path, ctx, w1)) = Some (e1, path1, ctx1, w2) \<and>
      spare_results w2 = spare_results w1 \<and> (\<forall>i. path_fits ctx i \<longrightarrow> path_fits ctx1 i)"
    using metadata_step_failed_returns [OF fits] by simp
  then obtain e1 path1 ctx1 w2 where
    a2: "(if ret1 \<noteq> WIMLIB_ERR_SUCCESS
          then metadata_step_failed ret1 WIMLIB_EXTRACT_FLAG_STRICT_ACLS
                 ''Can't set uid and gid'' inode path ctx w1
          else Some (None, path, ctx, w1)) = Some (e1, path1, ctx1, w2)"
    and s2: "spare_results w2 = spare_results w1"
    and l2: "\<forall>i. path_fits ctx i \<longrightarrow> path_fits ctx1 i"
    by blast
  show ?thesis
  proof (cases e1)
    case (Some r)
    with a1 a2 s1 s2 l2 show ?thesis
      by (simp add: unix_set_metadata_unix_data_def)
  next
    case None
    have "\<exists>ret2 w3.
        (if \<not> inode_is_symlink inode
         then unix_set_mode fdn (path_arg ctx1 path1) (mode ud) w2
         else Some (WIMLIB_ERR_SUCCESS, w2)) = Some (ret2, w3) \<and>
        spare_results w2 - 2 \<le> spare_results w3"
      using unix_set_mode_returns [of w2 fdn "path_arg ctx1 path1" "mode ud"] sp s1 s2
      by simp
    then obtain ret2 w3 where
      a3: "(if \<not> inode_is_symlink inode
            then unix_set_mode fdn (path_arg ctx1 path1) (mode ud) w2
            else Some (WIMLIB_ERR_SUCCESS, w2)) = Some (ret2, w3)"
      and s3: "spare_results w2 - 2 \<le> spare_results w3"
      by blast
    from fits l2 have fits1: "path_fits ctx1 inode"
      by simp
    have "\<exists>e2 path2 ctx2 w4.
        (if ret2 \<noteq> WIMLIB_ERR_SUCCESS
         then metadata_step_failed ret2 WIMLIB_EXTRACT_FLAG_STRICT_ACLS
                ''Can't set mode'' inode path1 ctx1 w3
         else Some (None, path1, ctx1, w3)) = Some (e2, path2, ctx2, w4) \<and>
        spare_results w4 = spare_results w3 \<and> (\<forall>i. path_fits ctx1 i \<longrightarrow> path_fits ctx2 i)"
      using metadata_step_failed_returns [OF fits1] by simp
    then obtain e2 path2 ctx2 w4 where
      a4: "(if ret2 \<noteq> WIMLIB_ERR_SUCCESS
            then metadata_step_failed ret2 WIMLIB_EXTRACT_FLAG_STRICT_ACLS
                   ''Can't set mode'' inode path1 ctx1 w3
            else Some (None, path1, ctx1, w3)) = Some (e2, path2, ctx2, w4)"
      and s4: "spare_results w4 = spare_results w3"
      and l4: "\<forall>i. path_fits ctx1 i \<longrightarrow> path_fits ctx2 i"
      by blast
    from a1 a2 None a3 a4
    have "unix_set_metadata_unix_data fdn inode ud path ctx w = Some (e2, path2, ctx2, w4)"
      by (simp add: unix_set_metadata_unix_data_def)
    moreover have "spare_results w - 4 \<le> spare_results w4"
      using s1 s2 s3 s4 by simp
    moreover have "\<forall>i. path_fits ctx i \<longrightarrow> path_fits ctx2 i"
      using l2 l4 by simp
    ultimately show ?thesis
      by blast
  qed
qed

lemma unix_set_metadata_returns:
  assumes sp: "8 \<le> spare_results w" and fits: "path_fits ctx inode"
  shows "\<exists>ret ctx' w'.
           unix_set_metadata cfg fdn inode path ctx w = Some (ret, ctx', w') \<and>
           spare_results w - 8 \<le> spare_results w' \<and>
           (\<forall>i. path_fits ctx i \<longrightarrow> path_fits ctx' i)"
proof -
  have "\<exists>path0 ctx0.
      (if fdn < 0 \<and> path = None
       then map_option (\<lambda>(p, c). (Some p, c)) (unix_build_inode_extraction_path inode ctx)
       else Some (path, ctx)) = Some (path0, ctx0) \<and>
      (\<forall>i. path_fits ctx i \<longrightarrow> path_fits ctx0 i)"
    using unix_build_inode_extraction_path_returns [OF fits] by auto
  then obtain path0 ctx0 where
    a0: "(if fdn < 0 \<and> path = None
          then map_option (\<lambda>(p, c). (Some p, c)) (unix_build_inode_extraction_path inode ctx)
          else Some (path, ctx)) = Some (path0, ctx0)"
    and l0: "\<forall>i. path_fits ctx i \<longrightarrow> path_fits ctx0 i"
    by blast
  from fits l0 have fits0: "path_fits ctx0 inode"
    by simp
  have "\<exists>early path1 ctx1 w1.
      (case (if WIMLIB_EXTRACT_FLAG_UNIX_DATA \<in> extract_flags ctx0
             then inode_get_unix_data inode else None) of
         Some unix_data \<Rightarrow> unix_set_metadata_unix_data fdn inode unix_data path0 ctx0 w
       | None \<Rightarrow> Some (None, path0, ctx0, w)) = Some (early, path1, ctx1, w1) \<and>
      spare_results w - 4 \<le> spare_results w1 \<and> (\<forall>i. path_fits ctx0 i \<longrightarrow> path_fits ctx1 i)"
  proof (cases "if WIMLIB_EXTRACT_FLAG_UNIX_DATA \<in> extract_flags ctx0
             then inode_get_unix_data inode else None")
    case None
    then show ?thesis
      by simp
  next
    case (Some ud)
    with unix_set_metadata_unix_data_returns [OF _ fits0, of w fdn ud path0] sp show ?thesis
      by simp
  qed
  then obtain early path1 ctx1 w1 where
    a1: "(case (if WIMLIB_EXTRACT_FLAG_UNIX_DATA \<in> extract_flags ctx0
                then inode_get_unix_data inode else None) of
            Some unix_data \<Rightarrow> unix_set_metadata_unix_data fdn inode unix_data path0 ctx0 w
          | None \<Rightarrow> Some (None, path0, ctx0, w)) = Some (early, path1, ctx1, w1)"
    and s1: "spare_results w - 4 \<le> spare_results w1"
    and l1: "\<forall>i. path_fits ctx0 i \<longrightarrow> path_fits ctx1 i"
    by blast
  from fits0 l1 have fits1: "path_fits ctx1 inode"
    by simp
  show ?thesis
  proof (cases early)
    case (Some r)
    from a0 a1 Some have "unix_set_metadata cfg fdn inode path ctx w = Some (r, ctx1, w1)"
      by (simp add: unix_set_metadata_def)
    moreover have "spare_results w - 8 \<le> spare_results w1"
      using s1 by simp
    moreover have "\<forall>i. path_fits ctx i \<longrightarrow> path_fits ctx1 i"
      using l0 l1 by simp
    ultimately show ?thesis
      by blast
  next
    case None
    from unix_set_timestamps_returns [of w1 cfg fdn "path_arg ctx1 path1"
        "i_last_access_time inode" "i_last_write_time inode"] sp s1
    obtain ret2 w2 where
      a2: "unix_set_timestamps cfg fdn (path_arg ctx1 path1) (i_last_access_time inode)
             (i_last_write_time inode) w1 = Some (ret2, w2)"
      and s2: "spare_results w1 - 4 \<le> spare_results w2"
      by auto
    show ?thesis
    proof (cases "ret2 = WIMLIB_ERR_SUCCESS")
      case True
      with a0 a1 None a2
      have "unix_set_metadata cfg fdn inode path ctx w = Some (WIMLIB_ERR_SUCCESS, ctx1, w2)"
        by (simp add: unix_set_metadata_def)
      moreover have "spare_results w - 8 \<le> spare_results w2"
        using s1 s2 by simp
      moreover have "\<forall>i. path_fits ctx i \<longrightarrow> path_fits ctx1 i"
        using l0 l1 by simp
      ultimately show ?thesis
        by blast
    next
      case False
      from metadata_step_failed_returns [OF fits1, of ret2 WIMLIB_EXTRACT_FLAG_STRICT_TIMESTAMPS
          "''Can't set timestamps''" path1 w2]
      obtain early2 path2 ctx2 w3 where
        a3: "metadata_step_failed ret2 WIMLIB_EXTRACT_FLAG_STRICT_TIMESTAMPS
               ''Can't set timestamps'' inode path1 ctx1 w2 = Some (early2, path2, ctx2, w3)"
        and s3: "spare_results w3 = spare_results w2"
        and l3: "\<forall>i. path_fits ctx1 i \<longrightarrow> path_fits ctx2 i"
        by blast
      from a0 a1 None a2 False a3
      have "\<exists>r. unix_set_metadata cfg fdn inode path ctx w = Some (r, ctx2, w3)"
        by (cases early2) (simp_all add: unix_set_metadata_def)
      moreover have "spare_results w - 8 \<le> spare_results w3"
        using s1 s2 s3 by simp
      moreover have "\<forall>i. path_fits ctx i \<longrightarrow> path_fits ctx2 i"
        using l0 l1 l3 by simp
      ultimately show ?thesis
        by blast
    qed
  qed
qed

text \<open>
  A new attempt of \<open>symlink\<close> follows a failing result, so the loop at \<open>retry_symlink\<close> takes
  no more than one spare result however often it tries again.
\<close>

lemma symlink_retry_returns:
  "1 \<le> spare_results w \<Longrightarrow>
   \<exists>ret w'. symlink_retry tgt path w = Some (ret, w') \<and> spare_results w - 1 \<le> spare_results w'"
proof (induction tgt path w rule: symlink_retry.induct)
  case (1 tgt path w)
  from sys_returns [OF "1.prems", of "Sys_symlink tgt path"] obtain r w1 where
    s1: "sys (Sys_symlink tgt path) w = Some (r, w1)"
    and sp1: "spare_results w1 = spare_results w + (if failed r then 1 else - 1)"
    by auto
  show ?case
  proof (cases "failed r \<and> w_errno w1 = EEXIST")
    case False
    with s1 sp1 show ?thesis
      by (subst symlink_retry.simps) auto
  next
    case True
    with sp1 "1.prems" have "1 \<le> spare_results w1"
      by simp
    from sys_returns [OF this, of "Sys_unlink path"] obtain r2 w2 where
      s2: "sys (Sys_unlink path) w1 = Some (r2, w2)"
      and sp2: "spare_results w2 = spare_results w1 + (if failed r2 then 1 else - 1)"
      by auto
    show ?thesis
    proof (cases "failed r2")
      case True
      with s1 s2 sp1 sp2 \<open>failed r \<and> w_errno w1 = EEXIST\<close> show ?thesis
        by (subst symlink_retry.simps) auto
    next
      case False
      with sp1 sp2 True have same: "spare_results w2 = spare_results w"
        by simp
      with "1.prems" have "1 \<le> spare_results w2"
        by simp
      from "1.IH" [OF s1 refl conjunct1 [OF True] conjunct2 [OF True] s2 refl False this]
      obtain ret w' where
        "symlink_retry tgt path w2 = Some (ret, w')" "spare_results w2 - 1 \<le> spare_results w'"
        by auto
      with s1 s2 True False same show ?thesis
        by (subst symlink_retry.simps) auto
    qed
  qed
qed

lemma unix_create_symlink_returns:
  assumes sp: "1 \<le> spare_results w"
    and size: "0 < REPARSE_DATA_MAX_SIZE cfg"
    and rl: "\<forall>inode data n t. rl inode data n = Inr t \<longrightarrow> length t \<le> n"
  shows "\<exists>ret w'. unix_create_symlink cfg rl inode path rpdata rpdatalen rpfix apply_dir k w =
                     Some (ret, w') \<and>
                   spare_results w - 1 \<le> spare_results w'"
proof (cases "rl inode (take (unat rpdatalen) rpdata) (REPARSE_DATA_MAX_SIZE cfg - 1)")
  case (Inl e)
  then show ?thesis
    by (simp add: unix_create_symlink_def spare_results_w_errno)
next
  case (Inr t)
  with rl have "length t \<le> REPARSE_DATA_MAX_SIZE cfg - 1"
    by blast
  with size have lt: "\<not> REPARSE_DATA_MAX_SIZE cfg \<le> length t"
    by simp
  from Inr lt symlink_retry_returns [OF sp, of t path]
    symlink_retry_returns [OF sp, of "take k apply_dir @ t" path]
  show ?thesis
    by (simp add: unix_create_symlink_def Let_def spare_results_w_errno)
qed

text \<open>
  The loop of \<open>unix_end_extract_stream\<close> returns when the environment has nine spare results
  for each owner (one for the link or the descriptor, eight for the metadata), the paths
  of the owners fit and there is a descriptor for each owner that is not a link.
\<close>

lemma end_extract_stream_owners_returns:
  assumes size: "0 < REPARSE_DATA_MAX_SIZE cfg"
    and rl: "\<forall>inode data n t. rl inode data n = Inr t \<longrightarrow> length t \<le> n"
  shows "int (9 * length owners) + m \<le> spare_results w \<Longrightarrow> 0 \<le> m \<Longrightarrow>
         \<forall>inode \<in> set owners. path_fits ctx inode \<Longrightarrow>
         length (filter (\<lambda>i. \<not> inode_is_symlink i) owners) + unat j \<le> length (open_fds ctx) \<Longrightarrow>
         length (open_fds ctx) < 2 ^ 32 \<Longrightarrow>
         \<exists>ret j' ctx' w'.
           end_extract_stream_owners cfg rl stream owners j ctx w = Some (ret, j', ctx', w') \<and>
           m \<le> spare_results w'"
proof (induction owners arbitrary: j ctx w)
  case Nil
  then show ?case
    by simp
next
  case (Cons inode rest)
  from Cons.prems(3) have fits: "path_fits ctx inode"
    by simp
  have sp: "9 + (int (9 * length rest) + m) \<le> spare_results w"
    using Cons.prems(1) by simp
  show ?case
  proof (cases "inode_is_symlink inode")
    case True
    from unix_build_inode_extraction_path_returns [OF fits] obtain path ctx1 where
      b: "unix_build_inode_extraction_path inode ctx = Some (path, ctx1)"
      and l1: "\<forall>i. path_fits ctx i \<longrightarrow> path_fits ctx1 i"
      by blast
    note f1 = unix_build_inode_extraction_path_Some [OF b]
    have "1 \<le> spare_results w"
      using sp Cons.prems(2) by simp
    from unix_create_symlink_returns [OF this size rl, of inode "path_string ctx1 path"
        "reparse_data ctx1" "ucast (stream_size stream)"
        "WIMLIB_EXTRACT_FLAG_RPFIX \<in> extract_flags ctx1 \<and> \<not> i_not_rpfixed inode"
        "case target_abspath ctx1 of None \<Rightarrow> [] | Some s \<Rightarrow> s" "target_abspath_nchars ctx1"]
    obtain ret1 w1 where
      s: "unix_create_symlink cfg rl inode (path_string ctx1 path) (reparse_data ctx1)
            (ucast (stream_size stream))
            (WIMLIB_EXTRACT_FLAG_RPFIX \<in> extract_flags ctx1 \<and> \<not> i_not_rpfixed inode)
            (case target_abspath ctx1 of None \<Rightarrow> [] | Some s \<Rightarrow> s)
            (target_abspath_nchars ctx1) w = Some (ret1, w1)"
      and sp1: "spare_results w - 1 \<le> spare_results w1"
      by blast
    show ?thesis
    proof (cases "ret1 = WIMLIB_ERR_SUCCESS")
      case False
      have "m \<le> spare_results (print (ERROR ''Can't create symbolic link'') w1)"
        using sp sp1 by (simp add: spare_results_print)
      with True b s False show ?thesis
        by simp
    next
      case ok: True
      from fits l1 have fits1: "path_fits ctx1 inode"
        by simp
      have "8 \<le> spare_results w1"
        using sp sp1 Cons.prems(2) by simp
      from unix_set_metadata_returns [OF this fits1, of cfg "- 1" "Some path"]
      obtain ret2 ctx2 w2 where
        m: "unix_set_metadata cfg (- 1) inode (Some path) ctx1 w1 = Some (ret2, ctx2, w2)"
        and sp2: "spare_results w1 - 8 \<le> spare_results w2"
        and l2: "\<forall>i. path_fits ctx1 i \<longrightarrow> path_fits ctx2 i"
        by blast
      from unix_set_metadata_frame [OF m] f1 have f2: "open_fds ctx2 = open_fds ctx"
        by simp
      show ?thesis
      proof (cases "ret2 = WIMLIB_ERR_SUCCESS")
        case False
        have "m \<le> spare_results w2"
          using sp sp1 sp2 by simp
        with True b s ok m False show ?thesis
          by simp
      next
        case ok2: True
        have "int (9 * length rest) + m \<le> spare_results w2"
          using sp sp1 sp2 by simp
        moreover have "\<forall>i \<in> set rest. path_fits ctx2 i"
          using Cons.prems(3) l1 l2 by simp
        moreover have "length (filter (\<lambda>i. \<not> inode_is_symlink i) rest) + unat j \<le>
            length (open_fds ctx2)"
          using Cons.prems(4) True f2 by simp
        moreover have "length (open_fds ctx2) < 2 ^ 32"
          using Cons.prems(5) f2 by simp
        ultimately obtain ret j' ctx' w' where
          "end_extract_stream_owners cfg rl stream rest j ctx2 w2 = Some (ret, j', ctx', w')"
          "m \<le> spare_results w'"
          using Cons.IH [of w2 ctx2 j] Cons.prems(2) by blast
        with True b s ok m ok2 show ?thesis
          by simp
      qed
    qed
  next
    case False
    with Cons.prems(4) have inr: "unat j < length (open_fds ctx)"
      by simp
    have "8 \<le> spare_results w"
      using sp Cons.prems(2) by simp
    from unix_set_metadata_returns [OF this fits, of cfg "fd (open_fds ctx ! unat j)" None]
    obtain ret1 ctx1 w1 where
      m: "unix_set_metadata cfg (fd (open_fds ctx ! unat j)) inode None ctx w =
            Some (ret1, ctx1, w1)"
      and sp1: "spare_results w - 8 \<le> spare_results w1"
      and l1: "\<forall>i. path_fits ctx i \<longrightarrow> path_fits ctx1 i"
      by blast
    from unix_set_metadata_frame [OF m] have f1: "open_fds ctx1 = open_fds ctx"
      by simp
    show ?thesis
    proof (cases "ret1 = WIMLIB_ERR_SUCCESS")
      case no: False
      have "m \<le> spare_results w1"
        using sp sp1 by simp
      with False inr m no show ?thesis
        by simp
    next
      case ok: True
      have "1 \<le> spare_results w1"
        using sp sp1 Cons.prems(2) by simp
      from sys_returns [OF this, of "Filedes_close (fd (open_fds ctx1 ! unat j))"]
      obtain r w2 where
        c: "sys (Filedes_close (fd (open_fds ctx1 ! unat j))) w1 = Some (r, w2)"
        and sp2: "spare_results w1 - 1 \<le> spare_results w2"
        by auto
      show ?thesis
      proof (cases "failed r")
        case True
        from fits l1 have "path_fits ctx1 inode"
          by simp
        from unix_build_inode_extraction_path_returns [OF this] obtain path ctx2 where
          b: "unix_build_inode_extraction_path inode ctx1 = Some (path, ctx2)"
          by blast
        have "m \<le> spare_results (print (ERROR ''Error closing'') w2)"
          using sp sp1 sp2 by (simp add: spare_results_print)
        with False inr m ok c True b show ?thesis
          by simp
      next
        case nf: False
        have suc: "unat (j + 1) = Suc (unat j)"
          using unat_plus_one_bounded [OF inr Cons.prems(5)] .
        have "int (9 * length rest) + m \<le> spare_results w2"
          using sp sp1 sp2 by simp
        moreover have "\<forall>i \<in> set rest. path_fits ctx1 i"
          using Cons.prems(3) l1 by simp
        moreover have "length (filter (\<lambda>i. \<not> inode_is_symlink i) rest) + unat (j + 1) \<le>
            length (open_fds ctx1)"
          using Cons.prems(4) False f1 suc by simp
        moreover have "length (open_fds ctx1) < 2 ^ 32"
          using Cons.prems(5) f1 by simp
        ultimately obtain ret j' ctx' w' where
          "end_extract_stream_owners cfg rl stream rest (j + 1) ctx1 w2 =
             Some (ret, j', ctx', w')"
          "m \<le> spare_results w'"
          using Cons.IH [of w2 ctx1 "j + 1"] Cons.prems(2) by blast
        with False inr m ok c nf show ?thesis
          by simp
      qed
    qed
  qed
qed

lemma end_extract_stream_returns:
  assumes sp: "int (9 * length (stream_owners stream) + unat (num_open_fds ctx)) \<le>
      spare_results w"
    and fits: "\<forall>inode \<in> set (stream_owners stream). path_fits ctx inode"
    and fds: "length (filter (\<lambda>i. \<not> inode_is_symlink i) (stream_owners stream)) \<le>
      length (open_fds ctx)"
    and n: "unat (num_open_fds ctx) \<le> length (open_fds ctx)"
    and len: "length (open_fds ctx) < 2 ^ 32"
    and size: "0 < REPARSE_DATA_MAX_SIZE cfg"
    and rl: "\<forall>inode data n t. rl inode data n = Inr t \<longrightarrow> length t \<le> n"
  shows "\<exists>ret ctx' w'.
           unix_end_extract_stream cfg rl stream WIMLIB_ERR_SUCCESS ctx w = Some (ret, ctx', w')"
proof -
  let ?ctx0 = "ctx\<lparr>reparse_ptr := None\<rparr>"
  have "path_fits ?ctx0 i = path_fits ctx i" for i
    by (simp add: path_fits_def split: option.splits)
  with fits have "\<forall>inode \<in> set (stream_owners stream). path_fits ?ctx0 inode"
    by simp
  moreover have "int (9 * length (stream_owners stream)) + int (unat (num_open_fds ctx)) \<le>
      spare_results w"
    using sp by simp
  ultimately obtain ret j ctx1 w1 where
    l: "end_extract_stream_owners cfg rl stream (stream_owners stream) 0 ?ctx0 w =
          Some (ret, j, ctx1, w1)"
    and sp1: "int (unat (num_open_fds ctx)) \<le> spare_results w1"
    using end_extract_stream_owners_returns [OF size rl, of "stream_owners stream"
        "int (unat (num_open_fds ctx))" w ?ctx0 0 stream] fds len
    by auto
  from end_extract_stream_owners_closes [OF l] len
  have f1: "open_fds ctx1 = open_fds ctx" "num_open_fds ctx1 = num_open_fds ctx"
    by simp_all
  have "unat (num_open_fds ctx) \<le> length (script w1)"
    using sp1 spare_results_le_length [of w1] by linarith
  then have "unat (num_open_fds ctx1) - unat j \<le> length (script w1)"
    using f1 by simp
  with cleanup_open_fds_from_returns [of ctx1 j w1] n f1 obtain w2 where
    "cleanup_open_fds_from j ctx1 w1 = Some w2"
    by auto
  with l show ?thesis
    by (simp add: unix_end_extract_stream_def unix_cleanup_open_fds_def)
qed

lemma end_extract_stream_total:
  assumes "int (9 * length (stream_owners stream) + unat (num_open_fds ctx)) \<le>
      spare_results w"
    and "\<forall>inode \<in> set (stream_owners stream). path_fits ctx inode"
    and "length (filter (\<lambda>i. \<not> inode_is_symlink i) (stream_owners stream)) \<le>
      length (open_fds ctx)"
    and n: "unat (num_open_fds ctx) \<le> length (open_fds ctx)"
    and len: "length (open_fds ctx) < 2 ^ 32"
    and "0 < REPARSE_DATA_MAX_SIZE cfg"
    and "\<forall>inode data n t. rl inode data n = Inr t \<longrightarrow> length t \<le> n"
  shows "\<exists>ret ctx' w'.
           unix_end_extract_stream cfg rl stream WIMLIB_ERR_SUCCESS ctx w = Some (ret, ctx', w') \<and>
           num_open_fds ctx' = 0 \<and> open_fds ctx' = open_fds ctx \<and>
           (\<forall>i < unat (num_open_fds ctx).
              Filedes_close (fd (open_fds ctx ! i)) \<in> set (drop (length (calls w)) (calls w')))"
proof -
  from end_extract_stream_returns [OF assms] obtain ret ctx' w' where
    r: "unix_end_extract_stream cfg rl stream WIMLIB_ERR_SUCCESS ctx w = Some (ret, ctx', w')"
    by blast
  from end_extract_stream_success [OF r n len] r show ?thesis
    by blast
qed

text \<open>
  Claim C5. For every call of \<open>unix_end_extract_stream\<close> with a non-zero status, every
  descriptor opened for the stream is closed, \<open>num_open_fds\<close> becomes 0 and the function
  returns the status it was given; on the success path too every opened descriptor is
  closed before the function returns.

  The first part is the call with a status other than success, in an environment with a
  result for each \<open>filedes_close\<close>. The second part holds of every call with the status of
  success that returns. The third part says that such a call does return, with every
  descriptor closed: when the environment has nine spare results for each owner of the
  stream and one for each open descriptor, the path of each owner fits into the path
  buffers, there is a descriptor for each owner that is not a symbolic link, and
  \<open>wim_inode_readlink\<close> gives no more characters than its buffer holds.
\<close>

theorem end_extract_stream_closes_descriptors:
  "(status \<noteq> WIMLIB_ERR_SUCCESS \<and>
    unat (num_open_fds ctx) \<le> length (open_fds ctx) \<and>
    unat (num_open_fds ctx) \<le> length (script w) \<longrightarrow>
      (\<exists>w1. unix_end_extract_stream cfg rl stream status ctx w =
               Some (status, ctx\<lparr>reparse_ptr := None, num_open_fds := 0\<rparr>, w1) \<and>
             calls w1 = calls w @
               map (\<lambda>f. Filedes_close (fd f))
                 (take (unat (num_open_fds ctx)) (open_fds ctx)))) \<and>
   (unix_end_extract_stream cfg rl stream WIMLIB_ERR_SUCCESS ctx w = Some (ret, ctx', w') \<and>
    unat (num_open_fds ctx) \<le> length (open_fds ctx) \<and>
    length (open_fds ctx) < 2 ^ 32 \<longrightarrow>
      num_open_fds ctx' = 0 \<and> open_fds ctx' = open_fds ctx \<and>
      (\<forall>i < unat (num_open_fds ctx).
         Filedes_close (fd (open_fds ctx ! i)) \<in> set (drop (length (calls w)) (calls w')))) \<and>
   (int (9 * length (stream_owners stream) + unat (num_open_fds ctx)) \<le> spare_results w \<and>
    (\<forall>inode \<in> set (stream_owners stream). path_fits ctx inode) \<and>
    length (filter (\<lambda>i. \<not> inode_is_symlink i) (stream_owners stream)) \<le>
      length (open_fds ctx) \<and>
    unat (num_open_fds ctx) \<le> length (open_fds ctx) \<and>
    length (open_fds ctx) < 2 ^ 32 \<and>
    0 < REPARSE_DATA_MAX_SIZE cfg \<and>
    (\<forall>inode data n t. rl inode data n = Inr t \<longrightarrow> length t \<le> n) \<longrightarrow>
      (\<exists>ret1 ctx1 w1.
         unix_end_extract_stream cfg rl stream WIMLIB_ERR_SUCCESS ctx w = Some (ret1, ctx1, w1) \<and>
         num_open_fds ctx1 = 0 \<and> open_fds ctx1 = open_fds ctx \<and>
         (\<forall>i < unat (num_open_fds ctx).
            Filedes_close (fd (open_fds ctx ! i)) \<in>
              set (drop (length (calls w)) (calls w1)))))"
  using end_extract_stream_failure [of status ctx w cfg rl stream]
    end_extract_stream_success [of cfg rl stream ctx w ret ctx' w']
    end_extract_stream_total [of stream ctx w cfg rl]
  by blast

theorem end_extract_stream_closes_descriptors_witness:
  "map_option (\<lambda>r. (fst r, num_open_fds (fst (snd r)), calls (snd (snd r))))
     (unix_end_extract_stream example_config no_readlink two_owner_stream WIMLIB_ERR_READ
        stream_ctx (world_with [Ok 0, Fail EIO])) =
     Some (WIMLIB_ERR_READ, 0, [Filedes_close 3, Filedes_close 4]) \<and>
   unix_end_extract_stream example_config no_readlink two_owner_stream WIMLIB_ERR_SUCCESS
     stream_ctx (world_with [Ok 0, Ok 0, Ok 0, Ok 0]) \<noteq> None \<and>
   Filedes_close 3 \<in> set (calls (snd (snd (the
     (unix_end_extract_stream example_config no_readlink two_owner_stream WIMLIB_ERR_SUCCESS
        stream_ctx (world_with [Ok 0, Ok 0, Ok 0, Ok 0])))))) \<and>
   Filedes_close 4 \<in> set (calls (snd (snd (the
     (unix_end_extract_stream example_config no_readlink two_owner_stream WIMLIB_ERR_SUCCESS
        stream_ctx (world_with [Ok 0, Ok 0, Ok 0, Ok 0])))))) \<and>
   spare_results (world_with (Fail EEXIST # Ok 0 # replicate 21 (Ok 0))) = 21 \<and>
   path_fits stream_ctx link_inode \<and> path_fits stream_ctx file_inode \<and>
   (\<exists>ret1 ctx1 w1.
      unix_end_extract_stream example_config example_readlink link_stream WIMLIB_ERR_SUCCESS
        stream_ctx (world_with (Fail EEXIST # Ok 0 # replicate 21 (Ok 0))) =
        Some (ret1, ctx1, w1) \<and>
      num_open_fds ctx1 = 0 \<and>
      Filedes_close 3 \<in> set (calls w1) \<and> Filedes_close 4 \<in> set (calls w1))"
proof -
  have n: "num_open_fds stream_ctx = 2"
    and fds: "open_fds stream_ctx = [\<lparr>fd = 3\<rparr>, \<lparr>fd = 4\<rparr>, \<lparr>fd = 0\<rparr>, \<lparr>fd = 0\<rparr>]"
    by (simp_all add: stream_ctx_def strict_ctx_def)
  have c0: "calls (world_with rs) = []" and s0: "script (world_with rs) = rs" for rs
    by (simp_all add: world_with_def)
  have take2: "take (unat (2 :: u32)) [\<lparr>fd = 3\<rparr>, \<lparr>fd = 4\<rparr>, \<lparr>fd = 0\<rparr>, \<lparr>fd = 0\<rparr>] =
      [\<lparr>fd = 3\<rparr>, \<lparr>fd = 4\<rparr>]"
    by simp
  from end_extract_stream_closes_descriptors [of WIMLIB_ERR_READ stream_ctx
      "world_with [Ok 0, Fail EIO]" example_config no_readlink two_owner_stream,
      THEN conjunct1]
  have a: "map_option (\<lambda>r. (fst r, num_open_fds (fst (snd r)), calls (snd (snd r))))
     (unix_end_extract_stream example_config no_readlink two_owner_stream WIMLIB_ERR_READ
        stream_ctx (world_with [Ok 0, Fail EIO])) =
     Some (WIMLIB_ERR_READ, 0, [Filedes_close 3, Filedes_close 4])"
    by (auto simp add: n fds c0 s0 take2)
  obtain ret ctx' w' where
    r: "unix_end_extract_stream example_config no_readlink two_owner_stream WIMLIB_ERR_SUCCESS
         stream_ctx (world_with [Ok 0, Ok 0, Ok 0, Ok 0]) = Some (ret, ctx', w')"
    by (simp add: unix_end_extract_stream_def two_owner_stream_def file_inode_def
        stream_ctx_def strict_ctx_def world_with_def unix_set_metadata_def
        unix_set_timestamps_def and_not_call_def sys_def failed_def example_config_def
        unix_cleanup_open_fds_def cleanup_open_fds_from.simps Let_def)
  from end_extract_stream_closes_descriptors [of _ stream_ctx
      "world_with [Ok 0, Ok 0, Ok 0, Ok 0]" example_config no_readlink two_owner_stream
      ret ctx' w', THEN conjunct2, THEN conjunct1] r
  have all: "\<forall>i < unat (2 :: u32).
      Filedes_close (fd ([\<lparr>fd = 3\<rparr>, \<lparr>fd = 4\<rparr>, \<lparr>fd = 0\<rparr>, \<lparr>fd = 0\<rparr>] ! i)) \<in> set (calls w')"
    by (simp add: n fds c0)
  from all [rule_format, of 0] all [rule_format, of 1]
  have b: "Filedes_close 3 \<in> set (calls w')" "Filedes_close 4 \<in> set (calls w')"
    by simp_all
  let ?w = "world_with (Fail EEXIST # Ok 0 # replicate 21 (Ok 0))"
  have sp: "spare_results ?w = 21"
    by (simp add: spare_results_def s0 failed_def)
  have fits: "path_fits stream_ctx link_inode" "path_fits stream_ctx file_inode"
    by (simp_all add: path_fits_def stream_ctx_def strict_ctx_def
        inode_first_extraction_dentry_def link_inode_def file_inode_def link_dentry_def
        file_dentry_a_def root_dentry_def empty_pathbuf_def)
  have owners: "stream_owners link_stream = [link_inode, file_inode]"
    by (simp add: link_stream_def)
  have sym: "inode_is_symlink link_inode" "\<not> inode_is_symlink file_inode"
    by (simp_all add: link_inode_def file_inode_def)
  have h: "int (9 * length (stream_owners link_stream) + unat (num_open_fds stream_ctx)) \<le>
        spare_results ?w \<and>
      (\<forall>inode \<in> set (stream_owners link_stream). path_fits stream_ctx inode) \<and>
      length (filter (\<lambda>i. \<not> inode_is_symlink i) (stream_owners link_stream)) \<le>
        length (open_fds stream_ctx) \<and>
      unat (num_open_fds stream_ctx) \<le> length (open_fds stream_ctx) \<and>
      length (open_fds stream_ctx) < 2 ^ 32 \<and>
      0 < REPARSE_DATA_MAX_SIZE example_config \<and>
      (\<forall>inode data n t. example_readlink inode data n = Inr t \<longrightarrow> length t \<le> n)"
    by (auto simp add: sp fits owners sym n fds example_config_def example_readlink_def)
  from end_extract_stream_closes_descriptors [of _ stream_ctx ?w example_config
      example_readlink link_stream, THEN conjunct2, THEN conjunct2, THEN mp, OF h]
  obtain ret1 ctx1 w1 where
    r1: "unix_end_extract_stream example_config example_readlink link_stream
           WIMLIB_ERR_SUCCESS stream_ctx ?w = Some (ret1, ctx1, w1)"
    and z: "num_open_fds ctx1 = 0"
    and all1: "\<forall>i < unat (num_open_fds stream_ctx).
        Filedes_close (fd (open_fds stream_ctx ! i)) \<in>
          set (drop (length (calls ?w)) (calls w1))"
    by blast
  from all1 have all2: "\<forall>i < unat (2 :: u32).
      Filedes_close (fd ([\<lparr>fd = 3\<rparr>, \<lparr>fd = 4\<rparr>, \<lparr>fd = 0\<rparr>, \<lparr>fd = 0\<rparr>] ! i)) \<in> set (calls w1)"
    by (simp add: n fds c0)
  from all2 [rule_format, of 0] all2 [rule_format, of 1]
  have c: "Filedes_close 3 \<in> set (calls w1)" "Filedes_close 4 \<in> set (calls w1)"
    by simp_all
  have d: "\<exists>ret1 ctx1 w1.
      unix_end_extract_stream example_config example_readlink link_stream WIMLIB_ERR_SUCCESS
        stream_ctx ?w = Some (ret1, ctx1, w1) \<and>
      num_open_fds ctx1 = 0 \<and>
      Filedes_close 3 \<in> set (calls w1) \<and> Filedes_close 4 \<in> set (calls w1)"
    using r1 z c by blast
  from a r b have "map_option (\<lambda>r. (fst r, num_open_fds (fst (snd r)), calls (snd (snd r))))
     (unix_end_extract_stream example_config no_readlink two_owner_stream WIMLIB_ERR_READ
        stream_ctx (world_with [Ok 0, Fail EIO])) =
     Some (WIMLIB_ERR_READ, 0, [Filedes_close 3, Filedes_close 4]) \<and>
   unix_end_extract_stream example_config no_readlink two_owner_stream WIMLIB_ERR_SUCCESS
     stream_ctx (world_with [Ok 0, Ok 0, Ok 0, Ok 0]) \<noteq> None \<and>
   Filedes_close 3 \<in> set (calls (snd (snd (the
     (unix_end_extract_stream example_config no_readlink two_owner_stream WIMLIB_ERR_SUCCESS
        stream_ctx (world_with [Ok 0, Ok 0, Ok 0, Ok 0])))))) \<and>
   Filedes_close 4 \<in> set (calls (snd (snd (the
     (unix_end_extract_stream example_config no_readlink two_owner_stream WIMLIB_ERR_SUCCESS
        stream_ctx (world_with [Ok 0, Ok 0, Ok 0, Ok 0]))))))"
    by simp
  with sp fits d show ?thesis
    by blast
qed

section \<open>unix_apply.c: the index of the path buffer\<close>

text \<open>Every function of the file keeps the index of the next path buffer below 2.\<close>

lemma unix_reuse_pathbuf_index: "which_pathbuf (unix_reuse_pathbuf ctx) < 2"
  by (simp add: unix_reuse_pathbuf_def mod_NUM_PATHBUFS_less)

lemma unix_create_hardlinks_aliases_index:
  "unix_create_hardlinks_aliases ds first first_path ctx w = Some (ret, ctx', w') \<Longrightarrow>
   which_pathbuf ctx < 2 \<Longrightarrow> which_pathbuf ctx' < 2"
proof (induction ds arbitrary: ctx w)
  case Nil
  then show ?case
    by simp
next
  case (Cons d ds)
  show ?case
  proof (cases "d_addr d = d_addr first")
    case True
    with Cons show ?thesis
      by simp
  next
    case False
    with Cons.prems(1) obtain newpath ctx1 where
      b: "unix_build_extraction_path d ctx = Some (newpath, ctx1)"
      by (auto split: option.splits)
    note i1 = unix_build_extraction_path_index [OF b]
    from False Cons.prems(1) b obtain linked w1 where
      l: "link_retry (path_string ctx1 first_path) (path_string ctx1 newpath) w =
            Some (linked, w1)"
      by (auto split: option.splits)
    show ?thesis
    proof (cases linked)
      case False
      with \<open>d_addr d \<noteq> d_addr first\<close> Cons.prems(1) b l i1 show ?thesis
        by auto
    next
      case True
      with False Cons.prems(1) b l
      have "unix_create_hardlinks_aliases ds first first_path (unix_reuse_pathbuf ctx1) w1 =
          Some (ret, ctx', w')"
        by auto
      from Cons.IH [OF this unix_reuse_pathbuf_index] show ?thesis .
    qed
  qed
qed

lemma unix_create_if_directory_index:
  "unix_create_if_directory dentry inode ctx w = Some (ret, ctx', w') \<Longrightarrow>
   which_pathbuf ctx < 2 \<Longrightarrow> which_pathbuf ctx' < 2"
  using unix_build_extraction_path_index
  by (auto simp: unix_create_if_directory_def bind_eq_Some_conv split: if_splits)

lemma unix_extract_if_empty_file_finish_index:
  "unix_extract_if_empty_file_finish ret0 dentry inode path ctx w = Some (ret, ctx', w') \<Longrightarrow>
   which_pathbuf ctx < 2 \<Longrightarrow> which_pathbuf ctx' < 2"
  using unix_create_hardlinks_aliases_index
  by (auto simp: unix_extract_if_empty_file_finish_def unix_create_hardlinks_def
      bind_eq_Some_conv split: if_splits)

lemma unix_extract_if_empty_file_index:
  assumes res: "unix_extract_if_empty_file cfg dentry inode ctx w = Some (ret, ctx', w')"
    and ok: "which_pathbuf ctx < 2"
  shows "which_pathbuf ctx' < 2"
proof -
  from res obtain first where f: "inode_first_extraction_dentry inode = Some first"
    by (auto simp: unix_extract_if_empty_file_def split: option.splits)
  let ?special = "if WIMLIB_EXTRACT_FLAG_UNIX_DATA \<in> extract_flags ctx
      then (case inode_get_unix_data inode of
              None \<Rightarrow> None
            | Some unix_data \<Rightarrow> if \<not> S_ISREG (mode unix_data) then Some unix_data else None)
      else None"
  show ?thesis
  proof (cases "d_addr dentry \<noteq> d_addr first \<or> inode_is_directory inode \<or>
      inode_is_symlink inode \<or> inode_unnamed_lte_resolved inode")
    case True
    then have "unix_extract_if_empty_file cfg dentry inode ctx w =
        Some (WIMLIB_ERR_SUCCESS, ctx, w)"
      using f by (simp add: unix_extract_if_empty_file_def)
    with res ok show ?thesis
      by simp
  next
    case False
    show ?thesis
    proof (cases ?special)
      case (Some unix_data)
      with res f False have body:
        "do {
           (path, ctx1) \<leftarrow> unix_build_extraction_path dentry ctx;
           (res, w1) \<leftarrow>
             mknod_retry (path_string ctx1 path) (mode unix_data) (rdev unix_data) w;
           case res of
             Mknod_EPERM \<Rightarrow>
               Some (WIMLIB_ERR_SUCCESS,
                 ctx1\<lparr>num_special_files_ignored := num_special_files_ignored ctx1 + 1\<rparr>,
                 print (WARNING ''Can't create special file'') w1)
           | Mknod_failed \<Rightarrow>
               Some (WIMLIB_ERR_MKNOD, ctx1, print (ERROR ''Can't create special file'') w1)
           | Mknod_done \<Rightarrow> do {
               (ret, ctx2, w2) \<leftarrow> unix_set_metadata cfg (- 1) inode (Some path) ctx1 w1;
               unix_extract_if_empty_file_finish ret dentry inode path ctx2 w2
             }
         } = Some (ret, ctx', w')"
        by (simp add: unix_extract_if_empty_file_def)
      then obtain path ctx1 mres w1 where
        b: "unix_build_extraction_path dentry ctx = Some (path, ctx1)"
        and rest: "(case mres of
             Mknod_EPERM \<Rightarrow>
               Some (WIMLIB_ERR_SUCCESS,
                 ctx1\<lparr>num_special_files_ignored := num_special_files_ignored ctx1 + 1\<rparr>,
                 print (WARNING ''Can't create special file'') w1)
           | Mknod_failed \<Rightarrow>
               Some (WIMLIB_ERR_MKNOD, ctx1, print (ERROR ''Can't create special file'') w1)
           | Mknod_done \<Rightarrow> do {
               (ret, ctx2, w2) \<leftarrow> unix_set_metadata cfg (- 1) inode (Some path) ctx1 w1;
               unix_extract_if_empty_file_finish ret dentry inode path ctx2 w2
             }) = Some (ret, ctx', w')"
        by (auto simp: bind_eq_Some_conv)
      note i1 = unix_build_extraction_path_index [OF b]
      show ?thesis
      proof (cases mres)
        case Mknod_done
        with rest obtain r2 ctx2 w2 where
          m: "unix_set_metadata cfg (- 1) inode (Some path) ctx1 w1 = Some (r2, ctx2, w2)"
          and fin: "unix_extract_if_empty_file_finish r2 dentry inode path ctx2 w2 =
            Some (ret, ctx', w')"
          by (auto simp: bind_eq_Some_conv)
        from unix_set_metadata_frame [OF m] i1 have "which_pathbuf ctx2 < 2"
          by simp
        from unix_extract_if_empty_file_finish_index [OF fin this] show ?thesis .
      next
        case Mknod_EPERM
        with rest i1 show ?thesis
          by auto
      next
        case Mknod_failed
        with rest i1 show ?thesis
          by auto
      qed
    next
      case None
      with res f False have body:
        "do {
           (path, ctx1) \<leftarrow> unix_build_extraction_path dentry ctx;
           (opened, w1) \<leftarrow> open_retry (path_string ctx1 path) w;
           case opened of
             None \<Rightarrow>
               Some (WIMLIB_ERR_OPEN, ctx1, print (ERROR ''Can't create regular file'') w1)
           | Some fdn \<Rightarrow> do {
               (ret, ctx2, w2) \<leftarrow> unix_set_metadata cfg fdn inode (Some path) ctx1 w1;
               (r, w3) \<leftarrow> sys (Sys_close fdn) w2;
               (if failed r \<and> ret = WIMLIB_ERR_SUCCESS
                then unix_extract_if_empty_file_finish WIMLIB_ERR_WRITE dentry inode path
                       ctx2 (print (ERROR ''Error closing'') w3)
                else unix_extract_if_empty_file_finish ret dentry inode path ctx2 w3)
             }
         } = Some (ret, ctx', w')"
        by (simp add: unix_extract_if_empty_file_def)
      then obtain path ctx1 opened w1 where
        b: "unix_build_extraction_path dentry ctx = Some (path, ctx1)"
        and rest: "(case opened of
             None \<Rightarrow>
               Some (WIMLIB_ERR_OPEN, ctx1, print (ERROR ''Can't create regular file'') w1)
           | Some fdn \<Rightarrow> do {
               (ret, ctx2, w2) \<leftarrow> unix_set_metadata cfg fdn inode (Some path) ctx1 w1;
               (r, w3) \<leftarrow> sys (Sys_close fdn) w2;
               (if failed r \<and> ret = WIMLIB_ERR_SUCCESS
                then unix_extract_if_empty_file_finish WIMLIB_ERR_WRITE dentry inode path
                       ctx2 (print (ERROR ''Error closing'') w3)
                else unix_extract_if_empty_file_finish ret dentry inode path ctx2 w3)
             }) = Some (ret, ctx', w')"
        by (auto simp: bind_eq_Some_conv)
      note i1 = unix_build_extraction_path_index [OF b]
      show ?thesis
      proof (cases opened)
        case None
        with rest i1 show ?thesis
          by auto
      next
        case (Some fdn)
        with rest obtain r2 ctx2 w2 r w3 where
          m: "unix_set_metadata cfg fdn inode (Some path) ctx1 w1 = Some (r2, ctx2, w2)"
          and fin: "(if failed r \<and> r2 = WIMLIB_ERR_SUCCESS
                then unix_extract_if_empty_file_finish WIMLIB_ERR_WRITE dentry inode path
                       ctx2 (print (ERROR ''Error closing'') w3)
                else unix_extract_if_empty_file_finish r2 dentry inode path ctx2 w3) =
            Some (ret, ctx', w')"
          by (auto simp: bind_eq_Some_conv)
        from unix_set_metadata_frame [OF m] i1 have "which_pathbuf ctx2 < 2"
          by simp
        with fin unix_extract_if_empty_file_finish_index show ?thesis
          by (auto split: if_splits)
      qed
    qed
  qed
qed

lemma create_directories_index:
  "create_directories dl ctx w = Some (ret, ctx', w') \<Longrightarrow>
   which_pathbuf ctx < 2 \<Longrightarrow> which_pathbuf ctx' < 2"
proof (induction dl arbitrary: ctx w)
  case Nil
  then show ?case
    by simp
next
  case (Cons a dl)
  obtain dentry inode where a: "a = (dentry, inode)"
    by (cases a)
  from Cons.prems(1) a obtain r1 ctx1 w1 where
    s: "unix_create_if_directory dentry inode ctx w = Some (r1, ctx1, w1)"
    by (auto split: option.splits)
  note i1 = unix_create_if_directory_index [OF s Cons.prems(2)]
  show ?case
  proof (cases "r1 = WIMLIB_ERR_SUCCESS")
    case False
    with Cons.prems(1) a s i1 show ?thesis
      by auto
  next
    case True
    with Cons.prems(1) a s have "create_directories dl ctx1 w1 = Some (ret, ctx', w')"
      by auto
    from Cons.IH [OF this i1] show ?thesis .
  qed
qed

lemma extract_empty_files_index:
  "extract_empty_files cfg dl ctx w = Some (ret, ctx', w') \<Longrightarrow>
   which_pathbuf ctx < 2 \<Longrightarrow> which_pathbuf ctx' < 2"
proof (induction dl arbitrary: ctx w)
  case Nil
  then show ?case
    by simp
next
  case (Cons a dl)
  obtain dentry inode where a: "a = (dentry, inode)"
    by (cases a)
  from Cons.prems(1) a obtain r1 ctx1 w1 where
    s: "unix_extract_if_empty_file cfg dentry inode ctx w = Some (r1, ctx1, w1)"
    by (auto split: option.splits)
  note i1 = unix_extract_if_empty_file_index [OF s Cons.prems(2)]
  show ?case
  proof (cases "r1 = WIMLIB_ERR_SUCCESS")
    case False
    with Cons.prems(1) a s i1 show ?thesis
      by auto
  next
    case True
    with Cons.prems(1) a s have "extract_empty_files cfg dl ctx1 w1 = Some (ret, ctx', w')"
      by auto
    from Cons.IH [OF this i1] show ?thesis .
  qed
qed

lemma unix_create_dirs_and_empty_files_index:
  "unix_create_dirs_and_empty_files cfg dl ctx w = Some (ret, ctx', w') \<Longrightarrow>
   which_pathbuf ctx < 2 \<Longrightarrow> which_pathbuf ctx' < 2"
  using create_directories_index extract_empty_files_index
  by (fastforce simp: unix_create_dirs_and_empty_files_def split: option.splits if_splits)

lemma unix_end_extract_stream_index:
  assumes "unix_end_extract_stream cfg rl stream status ctx w = Some (ret, ctx', w')"
    and "which_pathbuf ctx < 2"
    and len: "length (open_fds ctx) < 2 ^ 32"
  shows "which_pathbuf ctx' < 2"
proof (cases "status = WIMLIB_ERR_SUCCESS")
  case False
  with assms show ?thesis
    by (auto simp: unix_end_extract_stream_def unix_cleanup_open_fds_def Let_def
        split: option.splits)
next
  case True
  with assms(1) obtain ret1 j ctx1 w1 where
    l: "end_extract_stream_owners cfg rl stream (stream_owners stream) 0
          (ctx\<lparr>reparse_ptr := None\<rparr>) w = Some (ret1, j, ctx1, w1)"
    and c: "unix_cleanup_open_fds ctx1 j w1 = Some (ctx', w')"
    by (auto simp: unix_end_extract_stream_def Let_def split: option.splits)
  from end_extract_stream_owners_closes [OF l] len assms(2) have "which_pathbuf ctx1 < 2"
    by simp
  with unix_cleanup_open_fds_calls(1) [OF c] show ?thesis
    by simp
qed

lemma which_pathbuf_range: "(x :: u32) \<in> {0, 1} \<longleftrightarrow> x < 2"
  using which_pathbuf_cases [of x] by auto

text \<open>
  Claim C9. The index \<open>which_pathbuf\<close> is always 0 or 1: \<open>unix_build_extraction_path\<close>
  advances it modulo \<open>NUM_PATHBUFS = 2\<close>, and \<open>unix_reuse_pathbuf\<close> followed by
  \<open>unix_build_extraction_path\<close> uses the buffer of the build before, also when
  \<open>which_pathbuf\<close> is 0, where the unsigned \<open>which_pathbuf - 1\<close> is \<open>0xFFFFFFFF\<close> and
  \<open>0xFFFFFFFF % 2 = 1\<close>. The functions that use the buffers keep the index in that range.
\<close>

theorem which_pathbuf_cycles:
  "(unix_build_extraction_path d ctx = Some (i, ctx1) \<longrightarrow>
      which_pathbuf ctx1 = (which_pathbuf ctx + 1) mod NUM_PATHBUFS \<and>
      which_pathbuf ctx1 \<in> {0, 1}) \<and>
   which_pathbuf (unix_reuse_pathbuf ctx) \<in> {0, 1} \<and>
   (which_pathbuf ctx \<in> {0, 1} \<and>
    unix_build_extraction_path d ctx = Some (i, ctx1) \<and>
    unix_build_extraction_path d' (unix_reuse_pathbuf ctx1) = Some (i', ctx2) \<longrightarrow>
      i' = i \<and> which_pathbuf ctx2 = which_pathbuf ctx1) \<and>
   (which_pathbuf ctx = 0 \<longrightarrow>
      which_pathbuf ctx - 1 = 0xFFFFFFFF \<and>
      which_pathbuf (unix_reuse_pathbuf ctx) = 1) \<and>
   (which_pathbuf ctx \<in> {0, 1} \<and>
    unix_create_dirs_and_empty_files cfg dentry_list ctx w = Some (ret, ctx3, w3) \<longrightarrow>
      which_pathbuf ctx3 \<in> {0, 1}) \<and>
   (which_pathbuf ctx \<in> {0, 1} \<and> length (open_fds ctx) < 2 ^ 32 \<and>
    unix_end_extract_stream cfg rl stream status ctx w = Some (ret', ctx4, w4) \<longrightarrow>
      which_pathbuf ctx4 \<in> {0, 1})"
proof (intro conjI impI)
  assume b: "unix_build_extraction_path d ctx = Some (i, ctx1)"
  show "which_pathbuf ctx1 = (which_pathbuf ctx + 1) mod NUM_PATHBUFS"
    using unix_build_extraction_path_Some(3) [OF b] .
  show "which_pathbuf ctx1 \<in> {0, 1}"
    using unix_build_extraction_path_index [OF b] by (simp only: which_pathbuf_range)
next
  show "which_pathbuf (unix_reuse_pathbuf ctx) \<in> {0, 1}"
    using unix_reuse_pathbuf_index by (simp only: which_pathbuf_range)
next
  assume a: "which_pathbuf ctx \<in> {0, 1} \<and>
    unix_build_extraction_path d ctx = Some (i, ctx1) \<and>
    unix_build_extraction_path d' (unix_reuse_pathbuf ctx1) = Some (i', ctx2)"
  then have lt: "which_pathbuf ctx < 2"
    by (simp only: which_pathbuf_range)
  from a have b1: "unix_build_extraction_path d ctx = Some (i, ctx1)"
    and b2: "unix_build_extraction_path d' (unix_reuse_pathbuf ctx1) = Some (i', ctx2)"
    by simp_all
  have same: "which_pathbuf (unix_reuse_pathbuf ctx1) = which_pathbuf ctx"
    using unix_build_extraction_path_Some(3) [OF b1] reuse_after_advance [OF lt]
    by (simp add: unix_reuse_pathbuf_def)
  show "i' = i"
    using unix_build_extraction_path_Some(1) [OF b1] unix_build_extraction_path_Some(1) [OF b2]
      same
    by simp
  show "which_pathbuf ctx2 = which_pathbuf ctx1"
    using unix_build_extraction_path_Some(3) [OF b1] unix_build_extraction_path_Some(3) [OF b2]
      same
    by simp
next
  assume z: "which_pathbuf ctx = 0"
  show "which_pathbuf ctx - 1 = 0xFFFFFFFF"
    using z by simp
  show "which_pathbuf (unix_reuse_pathbuf ctx) = 1"
    using z by (simp add: unix_reuse_pathbuf_def NUM_PATHBUFS_def)
next
  assume "which_pathbuf ctx \<in> {0, 1} \<and>
    unix_create_dirs_and_empty_files cfg dentry_list ctx w = Some (ret, ctx3, w3)"
  then have "which_pathbuf ctx < 2"
    and "unix_create_dirs_and_empty_files cfg dentry_list ctx w = Some (ret, ctx3, w3)"
    by (simp_all only: which_pathbuf_range)
  from unix_create_dirs_and_empty_files_index [OF this(2,1)]
  show "which_pathbuf ctx3 \<in> {0, 1}"
    by (simp only: which_pathbuf_range)
next
  assume "which_pathbuf ctx \<in> {0, 1} \<and> length (open_fds ctx) < 2 ^ 32 \<and>
    unix_end_extract_stream cfg rl stream status ctx w = Some (ret', ctx4, w4)"
  then have "which_pathbuf ctx < 2" and "length (open_fds ctx) < 2 ^ 32"
    and "unix_end_extract_stream cfg rl stream status ctx w = Some (ret', ctx4, w4)"
    by (simp_all only: which_pathbuf_range)
  from unix_end_extract_stream_index [OF this(3,1,2)]
  show "which_pathbuf ctx4 \<in> {0, 1}"
    by (simp only: which_pathbuf_range)
qed

theorem which_pathbuf_cycles_witness:
  "which_pathbuf strict_ctx \<in> {0, 1} \<and>
   map_option fst (unix_build_extraction_path dev_dentry strict_ctx) = Some 0 \<and>
   map_option fst
     (unix_build_extraction_path file_dentry_a
        (unix_reuse_pathbuf (snd (the (unix_build_extraction_path dev_dentry strict_ctx))))) =
     Some 0 \<and>
   map_option (\<lambda>r. which_pathbuf (fst (snd r)))
     (unix_create_dirs_and_empty_files example_config [(dev_dentry, dev_inode)] strict_ctx
        (world_with [Fail EPERM])) = Some 1"
proof -
  have w: "which_pathbuf strict_ctx \<in> {0, 1}"
    by (simp add: strict_ctx_def)
  obtain ctx1 where b1: "unix_build_extraction_path dev_dentry strict_ctx = Some (0, ctx1)"
    by (simp add: unix_build_extraction_path_def strict_ctx_def dev_dentry_def
        root_dentry_def empty_pathbuf_def memcpy_def Let_def)
  obtain i' ctx2 where
    b2: "unix_build_extraction_path file_dentry_a (unix_reuse_pathbuf ctx1) = Some (i', ctx2)"
    using b1
    by (auto simp add: unix_build_extraction_path_def strict_ctx_def dev_dentry_def
        file_dentry_a_def root_dentry_def empty_pathbuf_def memcpy_def Let_def
        unix_reuse_pathbuf_def NUM_PATHBUFS_def)
  obtain ctx3 w3 where
    c: "unix_create_dirs_and_empty_files example_config [(dev_dentry, dev_inode)] strict_ctx
          (world_with [Fail EPERM]) = Some (WIMLIB_ERR_SUCCESS, ctx3, w3)"
    and c3: "which_pathbuf ctx3 = 1"
    by (simp add: unix_create_dirs_and_empty_files_def unix_create_if_directory_def
        unix_extract_if_empty_file_def inode_first_extraction_dentry_def
        dev_inode_def dev_dentry_def root_dentry_def strict_ctx_def dev_unix_data_def
        S_ISREG_def unix_build_extraction_path_def empty_pathbuf_def memcpy_def Let_def
        mknod_retry.simps sys_def world_with_def failed_def print_def NUM_PATHBUFS_def)
  note T = which_pathbuf_cycles [of dev_dentry strict_ctx 0 ctx1 file_dentry_a i' ctx2
      example_config "[(dev_dentry, dev_inode)]" "world_with [Fail EPERM]"
      WIMLIB_ERR_SUCCESS ctx3 w3]
  from T w b1 b2 have "i' = 0"
    by blast
  moreover from T w c have "which_pathbuf ctx3 \<in> {0, 1}"
    by blast
  ultimately show ?thesis
    using w b1 b2 c c3 by simp
qed

end
